(* ===== verification/BNG_Prelude.thy ===== *)
theory BNG_Prelude
  imports Main "HOL-Library.Word"
begin

section \<open>Shared vocabulary\<close>

text \<open>
  Types, big-endian byte codecs and list facts that the component theories share.
  Go's \<^verbatim>\<open>[]byte\<close> is \<^typ>\<open>8 word list\<close>; a nil slice and an empty slice are both \<open>[]\<close>.
  \<open>put16\<close>, \<open>put32\<close>, \<open>put64\<close> and \<open>get16\<close>, \<open>get32\<close>, \<open>get64\<close> are \<^verbatim>\<open>encoding/binary\<close>'s
  \<^verbatim>\<open>BigEndian\<close> accessors. The Go readers panic on a slice that is too short; the modelled code
  guards every such read, and the readers here return 0 outside the guard.
\<close>

unbundle bit_operations_syntax

type_synonym byte = "8 word"
type_synonym bytes = "8 word list"
type_synonym u16 = "16 word"
type_synonym u32 = "32 word"
type_synonym u64 = "64 word"

text \<open>
  Collections of the development: \<open>codec\<close> gathers the length and round-trip facts of the byte
  codecs, \<open>step_defs\<close> the definitions a state-machine proof unfolds.
\<close>

named_theorems codec
named_theorems step_defs

subsection \<open>Big-endian integers\<close>

definition put16 :: "u16 \<Rightarrow> bytes" where
  "put16 w = [ucast (drop_bit 8 w), ucast w]"

definition get16 :: "bytes \<Rightarrow> u16" where
  "get16 bs = (case bs of a # b # _ \<Rightarrow> push_bit 8 (ucast a) OR ucast b | _ \<Rightarrow> 0)"

definition put32 :: "u32 \<Rightarrow> bytes" where
  "put32 w = put16 (ucast (drop_bit 16 w)) @ put16 (ucast w)"

definition get32 :: "bytes \<Rightarrow> u32" where
  "get32 bs = push_bit 16 (ucast (get16 bs)) OR ucast (get16 (drop 2 bs))"

definition put64 :: "u64 \<Rightarrow> bytes" where
  "put64 w = put32 (ucast (drop_bit 32 w)) @ put32 (ucast w)"

definition get64 :: "bytes \<Rightarrow> u64" where
  "get64 bs = push_bit 32 (ucast (get32 bs)) OR ucast (get32 (drop 4 bs))"

lemma length_put16 [simp, codec]: "length (put16 w) = 2"
  by (simp add: put16_def)

lemma length_put32 [simp, codec]: "length (put32 w) = 4"
  by (simp add: put32_def)

lemma get16_put16 [simp, codec]: "get16 (put16 w @ rest) = w"
  by (rule bit_word_eqI)
    (auto simp: get16_def put16_def bit_simps)

lemma get16_put16_nil [simp, codec]: "get16 (put16 w) = w"
  using get16_put16 [of w "[]"] by simp

lemma get32_put32 [simp, codec]: "get32 (put32 w @ rest) = w"
proof -
  have "get32 (put32 w @ rest) = push_bit 16 (ucast (ucast (drop_bit 16 w) :: u16)) OR ucast (ucast w :: u16)"
    by (simp add: get32_def put32_def)
  also have "\<dots> = w"
    by (rule bit_word_eqI) (auto simp: bit_simps)
  finally show ?thesis .
qed

lemma get32_put32_nil [simp, codec]: "get32 (put32 w) = w"
  using get32_put32 [of w "[]"] by simp

lemma length_put64 [simp, codec]: "length (put64 w) = 8"
  by (simp add: put64_def)

lemma get64_put64 [simp, codec]: "get64 (put64 w @ rest) = w"
proof -
  have "get64 (put64 w @ rest) = push_bit 32 (ucast (ucast (drop_bit 32 w) :: u32)) OR ucast (ucast w :: u32)"
    by (simp add: get64_def put64_def)
  also have "\<dots> = w"
    by (rule bit_word_eqI) (auto simp: bit_simps)
  finally show ?thesis .
qed

text \<open>The readers are injective on slices of exactly their width.\<close>

lemma length_2_conv: "length bs = 2 \<longleftrightarrow> (\<exists>a b. bs = [a, b])"
  by (auto simp: numeral_eq_Suc length_Suc_conv)

lemma bit_byte_high [simp]: "\<not> bit (b :: byte) (8 + n)"
  by (auto dest: bit_imp_le_length)

lemma put16_get16_pair: "put16 (get16 [a, b]) = [a, b]"
  by (auto simp: put16_def get16_def bit_simps intro!: bit_word_eqI)

lemma put16_get16 [codec]: "length bs = 2 \<Longrightarrow> put16 (get16 bs) = bs"
  by (auto simp: length_2_conv put16_get16_pair)

lemma put32_get32 [codec]:
  assumes "length bs = 4"
  shows "put32 (get32 bs) = bs"
proof -
  have hi: "ucast (drop_bit 16 (get32 bs)) = get16 bs"
    by (rule bit_word_eqI) (auto simp: get32_def bit_simps dest: bit_imp_le_length)
  have lo: "ucast (get32 bs) = get16 (drop 2 bs)"
    by (rule bit_word_eqI) (auto simp: get32_def bit_simps dest: bit_imp_le_length)
  have "put32 (get32 bs) = put16 (get16 bs) @ put16 (get16 (drop 2 bs))"
    by (simp add: put32_def hi lo)
  also have "get16 bs = get16 (take 2 bs)"
    using assms by (auto simp: get16_def numeral_eq_Suc length_Suc_conv)
  finally show ?thesis
    using assms by (simp add: put16_get16)
qed

subsection \<open>Fallible steps in sequence\<close>

definition bindE :: "'e + 'a \<Rightarrow> ('a \<Rightarrow> 'e + 'b) \<Rightarrow> 'e + 'b" where
  "bindE m f = (case m of Inl e \<Rightarrow> Inl e | Inr x \<Rightarrow> f x)"

lemma bindE_simps [simp]: "bindE (Inl e) f = Inl e" "bindE (Inr x) f = f x"
  by (simp_all add: bindE_def)

lemma bindE_Inr_iff: "bindE m f = Inr y \<longleftrightarrow> (\<exists>x. m = Inr x \<and> f x = Inr y)"
  by (cases m) simp_all

lemma bindE_InrE:
  assumes "bindE m f = Inr y"
  obtains x where "m = Inr x" "f x = Inr y"
  using assms by (auto simp: bindE_Inr_iff)

subsection \<open>Reading words as naturals\<close>

lemma unat_byte_less: "unat (b :: byte) < 256"
  using unsigned_less [of b, where 'a = nat] by simp

lemma unat_u16_less: "unat (w :: u16) < 65536"
  using unsigned_less [of w, where 'a = nat] by simp

lemma unat_of_nat_byte: "n < 256 \<Longrightarrow> unat (of_nat n :: byte) = n"
  by (simp add: unat_of_nat)

lemma unat_of_nat_u16: "n < 65536 \<Longrightarrow> unat (of_nat n :: u16) = n"
  by (simp add: unat_of_nat)

lemma unat_Suc_below:
  assumes "i < (c :: 'a :: len word)"
  shows "unat (i + 1) = Suc (unat i)"
proof -
  have "1 + i \<noteq> 0"
  proof
    assume "1 + i = 0"
    then have "i = - 1" by (metis add_eq_0_iff)
    with assms show False using word_order.extremum_strict by blast
  qed
  then show ?thesis by (metis unatSuc add.commute)
qed

lemma word_or_eq_0: "a OR b = 0 \<longleftrightarrow> a = 0 \<and> b = (0 :: 'a :: len word)"
  by (auto simp: bit_eq_iff bit_simps)

lemma word_xor_eq_0: "a XOR b = 0 \<longleftrightarrow> a = (b :: 'a :: len word)"
  by (auto simp: bit_eq_iff bit_simps)

end
