(* ===== verification/PPP_Options.thy ===== *)
theory PPP_Options
  imports BNG_Prelude
begin

section \<open>PPP protocol constants and the option codec\<close>

text \<open>
  \<^verbatim>\<open>pkg/ppp/protocol.go\<close>, \<^verbatim>\<open>pkg/ppp/phase.go\<close> and the option codec at the end of
  \<^verbatim>\<open>pkg/ppp/fsm.go\<close>. The lemmas give both directions of the codec: parsing inverts serialising on
  options that fit the one-byte length field, and a successful parse determines the input up to a
  single trailing byte, which the Go loop ignores.
\<close>

subsection \<open>Constants\<close>

abbreviation (input) ProtoLCP :: u16 where "ProtoLCP \<equiv> 0xc021"
abbreviation (input) ProtoPAP :: u16 where "ProtoPAP \<equiv> 0xc023"
abbreviation (input) ProtoLQR :: u16 where "ProtoLQR \<equiv> 0xc025"
abbreviation (input) ProtoCHAP :: u16 where "ProtoCHAP \<equiv> 0xc223"
abbreviation (input) ProtoIPCP :: u16 where "ProtoIPCP \<equiv> 0x8021"
abbreviation (input) ProtoIPv6CP :: u16 where "ProtoIPv6CP \<equiv> 0x8057"

abbreviation (input) ConfReq :: byte where "ConfReq \<equiv> 1"
abbreviation (input) ConfAck :: byte where "ConfAck \<equiv> 2"
abbreviation (input) ConfNak :: byte where "ConfNak \<equiv> 3"
abbreviation (input) ConfRej :: byte where "ConfRej \<equiv> 4"
abbreviation (input) TermReq :: byte where "TermReq \<equiv> 5"
abbreviation (input) TermAck :: byte where "TermAck \<equiv> 6"
abbreviation (input) CodeRej :: byte where "CodeRej \<equiv> 7"
abbreviation (input) ProtoRej :: byte where "ProtoRej \<equiv> 8"
abbreviation (input) EchoReq :: byte where "EchoReq \<equiv> 9"
abbreviation (input) EchoRep :: byte where "EchoRep \<equiv> 10"
abbreviation (input) DiscReq :: byte where "DiscReq \<equiv> 11"

abbreviation (input) DefaultMRU :: u16 where "DefaultMRU \<equiv> 1500"
abbreviation (input) DefaultPPPoEMRU :: u16 where "DefaultPPPoEMRU \<equiv> 1492"

datatype Phase = PhaseDead | PhaseEstablish | PhaseAuthenticate | PhaseNetwork | PhaseOpen
  | PhaseTerminate | PhaseLACTunnelPending | PhaseLACTunneled

text \<open>
  Failures of the PPP code: the two errors it returns, and the runtime panic Go raises on a slice
  expression whose bounds cross.
\<close>

datatype ppp_error = InvalidOptionLength | ErrShortPacket | PanicSliceBounds

subsection \<open>Options\<close>

record ppp_option =
  oType :: byte
  oData :: bytes

definition Option_Len :: "ppp_option \<Rightarrow> nat" where
  "Option_Len opt = 2 + length (oData opt)"

function ParseOptions :: "bytes \<Rightarrow> ppp_error + ppp_option list" where
  "ParseOptions data =
     (if 2 \<le> length data then
        (let t = data ! 0; l = unat (data ! 1)
         in if l < 2 \<or> length data < l then Inl InvalidOptionLength
            else (case ParseOptions (drop l data) of
                Inl e \<Rightarrow> Inl e
              | Inr opts \<Rightarrow> Inr (\<lparr>oType = t, oData = drop 2 (take l data)\<rparr> # opts)))
      else Inr [])"
  by pat_completeness auto
termination
  by (relation "measure length") auto

declare ParseOptions.simps [simp del]

definition SerializeOption :: "ppp_option \<Rightarrow> bytes" where
  "SerializeOption opt = oType opt # of_nat (2 + length (oData opt)) # oData opt"

definition SerializeOptions :: "ppp_option list \<Rightarrow> bytes" where
  "SerializeOptions opts = concat (map SerializeOption opts)"

text \<open>The options whose length fits the one-byte field.\<close>

definition option_fits :: "ppp_option \<Rightarrow> bool" where
  "option_fits opt \<longleftrightarrow> Option_Len opt < 256"

lemma SerializeOptions_Nil [simp, codec]: "SerializeOptions [] = []"
  by (simp add: SerializeOptions_def)

lemma SerializeOptions_Cons [simp, codec]:
  "SerializeOptions (opt # opts) = SerializeOption opt @ SerializeOptions opts"
  by (simp add: SerializeOptions_def)

lemma length_SerializeOption [simp, codec]: "length (SerializeOption opt) = Option_Len opt"
  by (simp add: SerializeOption_def Option_Len_def)

lemma length_SerializeOptions: "length (SerializeOptions opts) = sum_list (map Option_Len opts)"
  by (induction opts) simp_all

lemma ParseOptions_short: "length data < 2 \<Longrightarrow> ParseOptions data = Inr []"
  by (subst ParseOptions.simps) simp

lemma ParseOptions_SerializeOption:
  assumes "option_fits opt"
  shows "ParseOptions (SerializeOption opt @ rest) =
    (case ParseOptions rest of Inl e \<Rightarrow> Inl e | Inr opts \<Rightarrow> Inr (opt # opts))"
  using assms unat_of_nat_byte [of "2 + length (oData opt)"]
  by (subst ParseOptions.simps)
    (simp add: SerializeOption_def option_fits_def Option_Len_def split: sum.splits)

lemma ParseOptions_SerializeOptions_append:
  assumes "\<forall>opt \<in> set opts. option_fits opt"
  shows "ParseOptions (SerializeOptions opts @ rest) =
    (case ParseOptions rest of Inl e \<Rightarrow> Inl e | Inr tail \<Rightarrow> Inr (opts @ tail))"
  using assms
  by (induction opts) (simp_all add: ParseOptions_SerializeOption split: sum.splits)

lemma ParseOptions_InrD:
  "ParseOptions data = Inr opts \<Longrightarrow>
   \<exists>junk. length junk \<le> 1 \<and> data = SerializeOptions opts @ junk \<and> (\<forall>opt \<in> set opts. option_fits opt)"
proof (induction data arbitrary: opts rule: ParseOptions.induct)
  case (1 data)
  show ?case
  proof (cases "2 \<le> length data")
    case False
    with "1.prems" show ?thesis
      by (auto simp: ParseOptions_short)
  next
    case True
    let ?l = "unat (data ! 1)"
    let ?o = "\<lparr>oType = data ! 0, oData = drop 2 (take ?l data)\<rparr>"
    from True "1.prems" have l: "2 \<le> ?l" "?l \<le> length data"
      by (auto simp: ParseOptions.simps [of data] Let_def split: if_splits)
    from True l "1.prems" obtain rest where
        rest: "ParseOptions (drop ?l data) = Inr rest" and opts: "opts = ?o # rest"
      by (auto simp: ParseOptions.simps [of data] Let_def split: sum.splits)
    from "1.IH" [OF True refl refl _ rest] l obtain junk where
        junk: "length junk \<le> 1" "drop ?l data = SerializeOptions rest @ junk"
        "\<forall>opt \<in> set rest. option_fits opt"
      by auto
    have len: "2 + length (oData ?o) = ?l"
      using l by simp
    have "take ?l data = SerializeOption ?o"
      using True l len
      by (cases data rule: remdups_adj.cases) (auto simp: SerializeOption_def numeral_2_eq_2 take_Cons')
    then have "data = SerializeOption ?o @ drop ?l data"
      by (metis append_take_drop_id)
    moreover have "option_fits ?o"
      using len unat_byte_less [of "data ! 1"] by (simp add: option_fits_def Option_Len_def)
    ultimately show ?thesis
      using junk opts by auto
  qed
qed

end
