(* ===== verification/PPP_FSM.thy ===== *)
theory PPP_FSM
  imports PPP_Options
begin

section \<open>The PPP option-negotiation automaton\<close>

text \<open>
  \<^verbatim>\<open>pkg/ppp/fsm.go\<close>: the automaton LCP, IPCP and IPv6CP share. One definition per Go method, in the
  order of the file.
  \<^item> The interface \<^verbatim>\<open>OptionHandler\<close> is the record \<open>OptionHandler\<close> of methods over a handler state
    \<open>'h\<close>; the handler object's state is the field \<open>handler\<close> of the FSM. \<open>ProcessConfReq\<close> returns
    \<open>None\<close> when the Go method does not return (IPv6CP draws random identifiers in a loop), and then
    \<open>Input\<close> is \<open>None\<close> too.
  \<^item> Callbacks append to the field \<open>out\<close>, in call order; a nil callback appends nothing.
  \<^item> The field \<open>timer\<close> is \<^verbatim>\<open>f.timer\<close>: nil, pending, or fired (Go keeps the pointer to a timer
    that has fired). \<open>TimerFire\<close> is the runtime calling \<open>Timeout\<close> for a pending timer; a call of
    \<open>Timeout\<close> alone also covers a timer that fired before it was stopped and waited for the mutex.
\<close>

datatype State = Initial | Starting | Closed | Stopped | Closing | Stopping
  | ReqSent | AckRcvd | AckSent | Opened

record Callbacks =
  cbSend :: bool
  cbLayerUp :: bool
  cbLayerDown :: bool
  cbLayerStarted :: bool
  cbLayerFinished :: bool

datatype Action = ASend byte byte bytes | ALayerUp | ALayerDown | ALayerStarted | ALayerFinished

datatype Timer = NoTimer | Armed | Fired

record 'h OptionHandler =
  BuildConfReq :: "'h \<Rightarrow> ppp_option list"
  ProcessConfReq :: "'h \<Rightarrow> ppp_option list \<Rightarrow>
    ('h \<times> ppp_option list \<times> ppp_option list \<times> ppp_option list) option"
  ProcessConfAck :: "'h \<Rightarrow> ppp_option list \<Rightarrow> 'h"
  ProcessConfNak :: "'h \<Rightarrow> ppp_option list \<Rightarrow> 'h"
  ProcessConfRej :: "'h \<Rightarrow> ppp_option list \<Rightarrow> 'h"

record 'h FSM =
  proto :: u16
  fstate :: State
  fid :: byte
  restartCount :: int
  failCount :: int
  maxConf :: int
  maxTerm :: int
  maxFail :: int
  restartTime :: int
  timer :: Timer
  callbacks :: Callbacks
  handler :: 'h
  lastReqID :: byte
  out :: "Action list"

definition NewFSM :: "u16 \<Rightarrow> Callbacks \<Rightarrow> 'h \<Rightarrow> 'h FSM" where
  "NewFSM p cb h = \<lparr>proto = p, fstate = Initial, fid = 0, restartCount = 0, failCount = 0,
     maxConf = 10, maxTerm = 2, maxFail = 5, restartTime = 3000000000, timer = NoTimer,
     callbacks = cb, handler = h, lastReqID = 0, out = []\<rparr>"

subsection \<open>Actions\<close>

definition emit :: "bool \<Rightarrow> Action \<Rightarrow> 'h FSM \<Rightarrow> 'h FSM" where
  "emit isSet a f = (if isSet then f\<lparr>out := out f @ [a]\<rparr> else f)"

definition fsm_send :: "byte \<Rightarrow> byte \<Rightarrow> bytes \<Rightarrow> 'h FSM \<Rightarrow> 'h FSM" where
  "fsm_send code i data f = emit (cbSend (callbacks f)) (ASend code i data) f"

definition tlu :: "'h FSM \<Rightarrow> 'h FSM" where
  "tlu f = emit (cbLayerUp (callbacks f)) ALayerUp f"

definition tld :: "'h FSM \<Rightarrow> 'h FSM" where
  "tld f = emit (cbLayerDown (callbacks f)) ALayerDown f"

definition tls :: "'h FSM \<Rightarrow> 'h FSM" where
  "tls f = emit (cbLayerStarted (callbacks f)) ALayerStarted f"

definition tlf :: "'h FSM \<Rightarrow> 'h FSM" where
  "tlf f = emit (cbLayerFinished (callbacks f)) ALayerFinished f"

definition stopTimer :: "'h FSM \<Rightarrow> 'h FSM" where
  "stopTimer f = f\<lparr>timer := NoTimer\<rparr>"

definition startTimer :: "'h FSM \<Rightarrow> 'h FSM" where
  "startTimer f = (stopTimer f)\<lparr>timer := Armed\<rparr>"

definition nextID :: "'h FSM \<Rightarrow> byte \<times> 'h FSM" where
  "nextID f = (let f = f\<lparr>fid := fid f + 1\<rparr> in (fid f, f))"

definition irc :: "'h FSM \<Rightarrow> 'h FSM" where
  "irc f = f\<lparr>restartCount := maxConf f\<rparr>"

definition zrc :: "'h FSM \<Rightarrow> 'h FSM" where
  "zrc f = f\<lparr>restartCount := 0\<rparr>"

definition scr :: "'h OptionHandler \<Rightarrow> 'h FSM \<Rightarrow> 'h FSM" where
  "scr H f =
     (let opts = BuildConfReq H (handler f);
          data = SerializeOptions opts;
          (i, f) = nextID f;
          f = f\<lparr>lastReqID := i\<rparr>;
          f = fsm_send ConfReq i data f
      in startTimer f)"

definition sca :: "byte \<Rightarrow> ppp_option list \<Rightarrow> 'h FSM \<Rightarrow> 'h FSM" where
  "sca i opts f = fsm_send ConfAck i (SerializeOptions opts) f"

definition scn :: "byte \<Rightarrow> ppp_option list \<Rightarrow> 'h FSM \<Rightarrow> 'h FSM" where
  "scn i opts f =
     (let f = f\<lparr>failCount := failCount f + 1\<rparr> in fsm_send ConfNak i (SerializeOptions opts) f)"

definition scj :: "byte \<Rightarrow> ppp_option list \<Rightarrow> 'h FSM \<Rightarrow> 'h FSM" where
  "scj i opts f = fsm_send ConfRej i (SerializeOptions opts) f"

definition strRetransmit :: "'h FSM \<Rightarrow> 'h FSM" where
  "strRetransmit f = (let (i, f) = nextID f; f = fsm_send TermReq i [] f in startTimer f)"

definition str :: "'h FSM \<Rightarrow> 'h FSM" where
  "str f =
     (let f = f\<lparr>restartCount := maxTerm f\<rparr>;
          (i, f) = nextID f;
          f = fsm_send TermReq i [] f
      in startTimer f)"

definition sta :: "byte \<Rightarrow> 'h FSM \<Rightarrow> 'h FSM" where
  "sta i f = fsm_send TermAck i [] f"

subsection \<open>Administrative events\<close>

definition Restore :: "'h FSM \<Rightarrow> 'h FSM" where
  "Restore f = (stopTimer f)\<lparr>fstate := Opened, restartCount := 0, failCount := 0\<rparr>"

definition Kill :: "'h FSM \<Rightarrow> 'h FSM" where
  "Kill f = (stopTimer f)\<lparr>fstate := Closed\<rparr>"

definition Up :: "'h OptionHandler \<Rightarrow> 'h FSM \<Rightarrow> 'h FSM" where
  "Up H f = (case fstate f of
       Initial \<Rightarrow> f\<lparr>fstate := Closed\<rparr>
     | Starting \<Rightarrow> (scr H (irc f))\<lparr>fstate := ReqSent\<rparr>
     | _ \<Rightarrow> f)"

definition Down :: "'h FSM \<Rightarrow> 'h FSM" where
  "Down f = (let f = stopTimer f in case fstate f of
       Closed \<Rightarrow> f\<lparr>fstate := Initial\<rparr>
     | Closing \<Rightarrow> f\<lparr>fstate := Initial\<rparr>
     | Stopped \<Rightarrow> (tls f)\<lparr>fstate := Starting\<rparr>
     | Stopping \<Rightarrow> f\<lparr>fstate := Starting\<rparr>
     | ReqSent \<Rightarrow> f\<lparr>fstate := Starting\<rparr>
     | AckRcvd \<Rightarrow> f\<lparr>fstate := Starting\<rparr>
     | AckSent \<Rightarrow> f\<lparr>fstate := Starting\<rparr>
     | Opened \<Rightarrow> (tld f)\<lparr>fstate := Starting\<rparr>
     | _ \<Rightarrow> f)"

definition Open :: "'h OptionHandler \<Rightarrow> 'h FSM \<Rightarrow> 'h FSM" where
  "Open H f = (case fstate f of
       Initial \<Rightarrow> (tls f)\<lparr>fstate := Starting\<rparr>
     | Closed \<Rightarrow> (scr H (irc f))\<lparr>fstate := ReqSent\<rparr>
     | _ \<Rightarrow> f)"

definition Close :: "'h FSM \<Rightarrow> 'h FSM" where
  "Close f = (case fstate f of
       Starting \<Rightarrow> (tlf f)\<lparr>fstate := Initial\<rparr>
     | Stopped \<Rightarrow> f\<lparr>fstate := Closed\<rparr>
     | Stopping \<Rightarrow> f\<lparr>fstate := Closing\<rparr>
     | Opened \<Rightarrow> (str (irc (tld f)))\<lparr>fstate := Closing\<rparr>
     | ReqSent \<Rightarrow> (str (irc f))\<lparr>fstate := Closing\<rparr>
     | AckRcvd \<Rightarrow> (str (irc f))\<lparr>fstate := Closing\<rparr>
     | AckSent \<Rightarrow> (str (irc f))\<lparr>fstate := Closing\<rparr>
     | _ \<Rightarrow> f)"

definition Timeout :: "'h OptionHandler \<Rightarrow> 'h FSM \<Rightarrow> 'h FSM" where
  "Timeout H f =
     (if restartCount f > 0 then
        (let f = f\<lparr>restartCount := restartCount f - 1\<rparr> in case fstate f of
           Closing \<Rightarrow> strRetransmit f
         | Stopping \<Rightarrow> strRetransmit f
         | ReqSent \<Rightarrow> scr H f
         | AckSent \<Rightarrow> scr H f
         | AckRcvd \<Rightarrow> (scr H f)\<lparr>fstate := ReqSent\<rparr>
         | _ \<Rightarrow> f)
      else
        (case fstate f of
           Closing \<Rightarrow> (tlf f)\<lparr>fstate := Closed\<rparr>
         | Stopping \<Rightarrow> (tlf f)\<lparr>fstate := Stopped\<rparr>
         | ReqSent \<Rightarrow> (tlf f)\<lparr>fstate := Stopped\<rparr>
         | AckRcvd \<Rightarrow> (tlf f)\<lparr>fstate := Stopped\<rparr>
         | AckSent \<Rightarrow> (tlf f)\<lparr>fstate := Stopped\<rparr>
         | _ \<Rightarrow> f))"

definition TimerFire :: "'h OptionHandler \<Rightarrow> 'h FSM \<Rightarrow> 'h FSM" where
  "TimerFire H f = (if timer f = Armed then Timeout H (f\<lparr>timer := Fired\<rparr>) else f)"

subsection \<open>Packet events\<close>

text \<open>\<^verbatim>\<open>opts, _ := ParseOptions(data)\<close>: a parse error leaves a nil option list.\<close>

definition parsedOrNil :: "bytes \<Rightarrow> ppp_option list" where
  "parsedOrNil data = (case ParseOptions data of Inl _ \<Rightarrow> [] | Inr opts \<Rightarrow> opts)"

definition rcrEvent :: "'h OptionHandler \<Rightarrow> byte \<Rightarrow> bytes \<Rightarrow> 'h FSM \<Rightarrow> 'h FSM option" where
  "rcrEvent H i data f = (case ParseOptions data of Inl _ \<Rightarrow> Some f | Inr opts \<Rightarrow>
     (case ProcessConfReq H (handler f) opts of None \<Rightarrow> None | Some (h', ack, nak, rej) \<Rightarrow>
       (let f = f\<lparr>handler := h'\<rparr>; isGood = (nak = [] \<and> rej = []) in Some (case fstate f of
          Closed \<Rightarrow> sta i f
        | Stopped \<Rightarrow>
            (let f = scr H (irc f) in
             if isGood then (sca i ack f)\<lparr>fstate := AckSent\<rparr>
             else if rej \<noteq> [] then (scj i rej f)\<lparr>fstate := ReqSent\<rparr>
             else (scn i nak f)\<lparr>fstate := ReqSent\<rparr>)
        | ReqSent \<Rightarrow>
            (if isGood then (sca i ack f)\<lparr>fstate := AckSent\<rparr>
             else if rej \<noteq> [] then scj i rej f
             else scn i nak f)
        | AckRcvd \<Rightarrow>
            (if isGood then (tlu (stopTimer (sca i ack f)))\<lparr>fstate := Opened\<rparr>
             else if rej \<noteq> [] then scj i rej f
             else scn i nak f)
        | AckSent \<Rightarrow>
            (if isGood then sca i ack f
             else if rej \<noteq> [] then (scj i rej f)\<lparr>fstate := ReqSent\<rparr>
             else (scn i nak f)\<lparr>fstate := ReqSent\<rparr>)
        | Opened \<Rightarrow>
            (let f = scr H (tld f) in
             if isGood then (sca i ack f)\<lparr>fstate := AckSent\<rparr>
             else if rej \<noteq> [] then (scj i rej f)\<lparr>fstate := ReqSent\<rparr>
             else (scn i nak f)\<lparr>fstate := ReqSent\<rparr>)
        | _ \<Rightarrow> f))))"

definition rcaEvent :: "'h OptionHandler \<Rightarrow> byte \<Rightarrow> bytes \<Rightarrow> 'h FSM \<Rightarrow> 'h FSM" where
  "rcaEvent H i data f =
     (if i \<noteq> lastReqID f then f
      else (let opts = parsedOrNil data;
                f = f\<lparr>handler := ProcessConfAck H (handler f) opts\<rparr>
            in case fstate f of
                 Closed \<Rightarrow> sta i f
               | Stopped \<Rightarrow> sta i f
               | ReqSent \<Rightarrow> (irc f)\<lparr>fstate := AckRcvd\<rparr>
               | AckRcvd \<Rightarrow> (scr H f)\<lparr>fstate := ReqSent\<rparr>
               | AckSent \<Rightarrow> (tlu (stopTimer f))\<lparr>fstate := Opened\<rparr>
               | Opened \<Rightarrow> (scr H (tld f))\<lparr>fstate := ReqSent\<rparr>
               | _ \<Rightarrow> f))"

definition rcnEvent :: "'h OptionHandler \<Rightarrow> byte \<Rightarrow> bytes \<Rightarrow> bool \<Rightarrow> 'h FSM \<Rightarrow> 'h FSM" where
  "rcnEvent H i data isRej f =
     (if i \<noteq> lastReqID f then f
      else (let opts = parsedOrNil data;
                f = (if isRej then f\<lparr>handler := ProcessConfRej H (handler f) opts\<rparr>
                     else f\<lparr>handler := ProcessConfNak H (handler f) opts\<rparr>)
            in case fstate f of
                 Closed \<Rightarrow> sta i f
               | Stopped \<Rightarrow> sta i f
               | ReqSent \<Rightarrow> scr H (irc f)
               | AckRcvd \<Rightarrow> (scr H f)\<lparr>fstate := ReqSent\<rparr>
               | AckSent \<Rightarrow> (scr H (irc f))\<lparr>fstate := ReqSent\<rparr>
               | Opened \<Rightarrow> (scr H (tld f))\<lparr>fstate := ReqSent\<rparr>
               | _ \<Rightarrow> f))"

definition rtrEvent :: "byte \<Rightarrow> 'h FSM \<Rightarrow> 'h FSM" where
  "rtrEvent i f = (case fstate f of
       Closed \<Rightarrow> sta i f
     | Stopped \<Rightarrow> sta i f
     | Closing \<Rightarrow> sta i f
     | Stopping \<Rightarrow> sta i f
     | ReqSent \<Rightarrow> sta i f
     | AckRcvd \<Rightarrow> sta i f
     | AckSent \<Rightarrow> sta i f
     | Opened \<Rightarrow> (sta i (zrc (tld f)))\<lparr>fstate := Stopping\<rparr>
     | _ \<Rightarrow> f)"

definition rtaEvent :: "'h OptionHandler \<Rightarrow> 'h FSM \<Rightarrow> 'h FSM" where
  "rtaEvent H f = (case fstate f of
       Closing \<Rightarrow> (tlf (stopTimer f))\<lparr>fstate := Closed\<rparr>
     | Stopping \<Rightarrow> (tlf (stopTimer f))\<lparr>fstate := Stopped\<rparr>
     | AckSent \<Rightarrow> f\<lparr>fstate := ReqSent\<rparr>
     | Opened \<Rightarrow> (scr H (tld f))\<lparr>fstate := ReqSent\<rparr>
     | _ \<Rightarrow> f)"

definition rxjEvent :: "'h FSM \<Rightarrow> 'h FSM" where
  "rxjEvent f = (case fstate f of
       ReqSent \<Rightarrow> (tlf f)\<lparr>fstate := Stopped\<rparr>
     | AckRcvd \<Rightarrow> (tlf f)\<lparr>fstate := Stopped\<rparr>
     | AckSent \<Rightarrow> (tlf f)\<lparr>fstate := Stopped\<rparr>
     | Opened \<Rightarrow> (str (irc (tld f)))\<lparr>fstate := Stopping\<rparr>
     | _ \<Rightarrow> f)"

definition rucEvent :: "byte \<Rightarrow> byte \<Rightarrow> bytes \<Rightarrow> 'h FSM \<Rightarrow> 'h FSM" where
  "rucEvent code i data f =
     (let pkt = code # i # put16 (of_nat (4 + length data)) @ data;
          (n, f) = nextID f
      in fsm_send CodeRej n pkt f)"

definition rxrEvent :: "byte \<Rightarrow> bytes \<Rightarrow> 'h FSM \<Rightarrow> 'h FSM" where
  "rxrEvent i data f =
     (if fstate f = Opened \<and> 4 \<le> length data then fsm_send EchoRep i data f else f)"

definition Input :: "'h OptionHandler \<Rightarrow> byte \<Rightarrow> byte \<Rightarrow> bytes \<Rightarrow> 'h FSM \<Rightarrow> 'h FSM option" where
  "Input H code i data f =
     (if code = ConfReq then rcrEvent H i data f
      else if code = ConfAck then Some (rcaEvent H i data f)
      else if code = ConfNak \<or> code = ConfRej then Some (rcnEvent H i data (code = ConfRej) f)
      else if code = TermReq then Some (rtrEvent i f)
      else if code = TermAck then Some (rtaEvent H f)
      else if code = CodeRej then Some (rxjEvent f)
      else if code = ProtoRej then Some f
      else if code = EchoReq then Some (rxrEvent i data f)
      else if code = EchoRep \<or> code = DiscReq then Some f
      else Some (rucEvent code i data f))"

text \<open>One call of the FSM's public interface. \<open>CTimer\<close> is the pending timer firing.\<close>

datatype call = CUp | CDown | COpen | CClose | CTimer | CTimeout | CInput byte byte bytes

fun fsm_call :: "'h OptionHandler \<Rightarrow> call \<Rightarrow> 'h FSM \<Rightarrow> 'h FSM option" where
  "fsm_call H CUp f = Some (Up H f)"
| "fsm_call H CDown f = Some (Down f)"
| "fsm_call H COpen f = Some (Open H f)"
| "fsm_call H CClose f = Some (Close f)"
| "fsm_call H CTimer f = Some (TimerFire H f)"
| "fsm_call H CTimeout f = Some (Timeout H f)"
| "fsm_call H (CInput code i data) f = Input H code i data f"

inductive fsm_reach :: "'h OptionHandler \<Rightarrow> 'h FSM \<Rightarrow> 'h FSM \<Rightarrow> bool" for H where
  reach_refl: "fsm_reach H f f"
| reach_step: "fsm_reach H f g \<Longrightarrow> fsm_call H c g = Some g' \<Longrightarrow> fsm_reach H f g'"

subsection \<open>Action lemmas\<close>

text \<open>
  Each action as its effect on the fields of the FSM. With these as rewrite rules the proofs about
  events never unfold an action; \<open>out\<close> is described by the list of appended callbacks.
\<close>

definition wire :: "bool \<Rightarrow> Action \<Rightarrow> Action list" where
  "wire isSet a = (if isSet then [a] else [])"

lemma emit_sel [simp]:
  "proto (emit b a f) = proto f"
  "fstate (emit b a f) = fstate f"
  "fid (emit b a f) = fid f"
  "restartCount (emit b a f) = restartCount f"
  "failCount (emit b a f) = failCount f"
  "maxConf (emit b a f) = maxConf f"
  "maxTerm (emit b a f) = maxTerm f"
  "maxFail (emit b a f) = maxFail f"
  "restartTime (emit b a f) = restartTime f"
  "timer (emit b a f) = timer f"
  "callbacks (emit b a f) = callbacks f"
  "handler (emit b a f) = handler f"
  "lastReqID (emit b a f) = lastReqID f"
  "out (emit b a f) = out f @ wire b a"
  by (simp_all add: emit_def wire_def)

lemma fsm_send_sel [simp]:
  "proto (fsm_send c i d f) = proto f"
  "fstate (fsm_send c i d f) = fstate f"
  "fid (fsm_send c i d f) = fid f"
  "restartCount (fsm_send c i d f) = restartCount f"
  "failCount (fsm_send c i d f) = failCount f"
  "maxConf (fsm_send c i d f) = maxConf f"
  "maxTerm (fsm_send c i d f) = maxTerm f"
  "maxFail (fsm_send c i d f) = maxFail f"
  "restartTime (fsm_send c i d f) = restartTime f"
  "timer (fsm_send c i d f) = timer f"
  "callbacks (fsm_send c i d f) = callbacks f"
  "handler (fsm_send c i d f) = handler f"
  "lastReqID (fsm_send c i d f) = lastReqID f"
  "out (fsm_send c i d f) = out f @ wire (cbSend (callbacks f)) (ASend c i d)"
  by (simp_all add: fsm_send_def)

lemma tlu_sel [simp]:
  "proto (tlu f) = proto f"
  "fstate (tlu f) = fstate f"
  "fid (tlu f) = fid f"
  "restartCount (tlu f) = restartCount f"
  "failCount (tlu f) = failCount f"
  "maxConf (tlu f) = maxConf f"
  "maxTerm (tlu f) = maxTerm f"
  "maxFail (tlu f) = maxFail f"
  "restartTime (tlu f) = restartTime f"
  "timer (tlu f) = timer f"
  "callbacks (tlu f) = callbacks f"
  "handler (tlu f) = handler f"
  "lastReqID (tlu f) = lastReqID f"
  "out (tlu f) = out f @ wire (cbLayerUp (callbacks f)) ALayerUp"
  by (simp_all add: tlu_def)

lemma tld_sel [simp]:
  "proto (tld f) = proto f"
  "fstate (tld f) = fstate f"
  "fid (tld f) = fid f"
  "restartCount (tld f) = restartCount f"
  "failCount (tld f) = failCount f"
  "maxConf (tld f) = maxConf f"
  "maxTerm (tld f) = maxTerm f"
  "maxFail (tld f) = maxFail f"
  "restartTime (tld f) = restartTime f"
  "timer (tld f) = timer f"
  "callbacks (tld f) = callbacks f"
  "handler (tld f) = handler f"
  "lastReqID (tld f) = lastReqID f"
  "out (tld f) = out f @ wire (cbLayerDown (callbacks f)) ALayerDown"
  by (simp_all add: tld_def)

lemma tls_sel [simp]:
  "proto (tls f) = proto f"
  "fstate (tls f) = fstate f"
  "fid (tls f) = fid f"
  "restartCount (tls f) = restartCount f"
  "failCount (tls f) = failCount f"
  "maxConf (tls f) = maxConf f"
  "maxTerm (tls f) = maxTerm f"
  "maxFail (tls f) = maxFail f"
  "restartTime (tls f) = restartTime f"
  "timer (tls f) = timer f"
  "callbacks (tls f) = callbacks f"
  "handler (tls f) = handler f"
  "lastReqID (tls f) = lastReqID f"
  "out (tls f) = out f @ wire (cbLayerStarted (callbacks f)) ALayerStarted"
  by (simp_all add: tls_def)

lemma tlf_sel [simp]:
  "proto (tlf f) = proto f"
  "fstate (tlf f) = fstate f"
  "fid (tlf f) = fid f"
  "restartCount (tlf f) = restartCount f"
  "failCount (tlf f) = failCount f"
  "maxConf (tlf f) = maxConf f"
  "maxTerm (tlf f) = maxTerm f"
  "maxFail (tlf f) = maxFail f"
  "restartTime (tlf f) = restartTime f"
  "timer (tlf f) = timer f"
  "callbacks (tlf f) = callbacks f"
  "handler (tlf f) = handler f"
  "lastReqID (tlf f) = lastReqID f"
  "out (tlf f) = out f @ wire (cbLayerFinished (callbacks f)) ALayerFinished"
  by (simp_all add: tlf_def)

lemma stopTimer_sel [simp]:
  "proto (stopTimer f) = proto f"
  "fstate (stopTimer f) = fstate f"
  "fid (stopTimer f) = fid f"
  "restartCount (stopTimer f) = restartCount f"
  "failCount (stopTimer f) = failCount f"
  "maxConf (stopTimer f) = maxConf f"
  "maxTerm (stopTimer f) = maxTerm f"
  "maxFail (stopTimer f) = maxFail f"
  "restartTime (stopTimer f) = restartTime f"
  "timer (stopTimer f) = NoTimer"
  "callbacks (stopTimer f) = callbacks f"
  "handler (stopTimer f) = handler f"
  "lastReqID (stopTimer f) = lastReqID f"
  "out (stopTimer f) = out f"
  by (simp_all add: stopTimer_def)

lemma startTimer_sel [simp]:
  "proto (startTimer f) = proto f"
  "fstate (startTimer f) = fstate f"
  "fid (startTimer f) = fid f"
  "restartCount (startTimer f) = restartCount f"
  "failCount (startTimer f) = failCount f"
  "maxConf (startTimer f) = maxConf f"
  "maxTerm (startTimer f) = maxTerm f"
  "maxFail (startTimer f) = maxFail f"
  "restartTime (startTimer f) = restartTime f"
  "timer (startTimer f) = Armed"
  "callbacks (startTimer f) = callbacks f"
  "handler (startTimer f) = handler f"
  "lastReqID (startTimer f) = lastReqID f"
  "out (startTimer f) = out f"
  by (simp_all add: startTimer_def)

lemma irc_sel [simp]:
  "proto (irc f) = proto f"
  "fstate (irc f) = fstate f"
  "fid (irc f) = fid f"
  "restartCount (irc f) = maxConf f"
  "failCount (irc f) = failCount f"
  "maxConf (irc f) = maxConf f"
  "maxTerm (irc f) = maxTerm f"
  "maxFail (irc f) = maxFail f"
  "restartTime (irc f) = restartTime f"
  "timer (irc f) = timer f"
  "callbacks (irc f) = callbacks f"
  "handler (irc f) = handler f"
  "lastReqID (irc f) = lastReqID f"
  "out (irc f) = out f"
  by (simp_all add: irc_def)

lemma zrc_sel [simp]:
  "proto (zrc f) = proto f"
  "fstate (zrc f) = fstate f"
  "fid (zrc f) = fid f"
  "restartCount (zrc f) = 0"
  "failCount (zrc f) = failCount f"
  "maxConf (zrc f) = maxConf f"
  "maxTerm (zrc f) = maxTerm f"
  "maxFail (zrc f) = maxFail f"
  "restartTime (zrc f) = restartTime f"
  "timer (zrc f) = timer f"
  "callbacks (zrc f) = callbacks f"
  "handler (zrc f) = handler f"
  "lastReqID (zrc f) = lastReqID f"
  "out (zrc f) = out f"
  by (simp_all add: zrc_def)

lemma scr_sel [simp]:
  "proto (scr H f) = proto f"
  "fstate (scr H f) = fstate f"
  "fid (scr H f) = fid f + 1"
  "restartCount (scr H f) = restartCount f"
  "failCount (scr H f) = failCount f"
  "maxConf (scr H f) = maxConf f"
  "maxTerm (scr H f) = maxTerm f"
  "maxFail (scr H f) = maxFail f"
  "restartTime (scr H f) = restartTime f"
  "timer (scr H f) = Armed"
  "callbacks (scr H f) = callbacks f"
  "handler (scr H f) = handler f"
  "lastReqID (scr H f) = fid f + 1"
  "out (scr H f) = out f @ wire (cbSend (callbacks f)) (ASend ConfReq (fid f + 1) (SerializeOptions (BuildConfReq H (handler f))))"
  by (simp_all add: scr_def nextID_def Let_def)

lemma sca_sel [simp]:
  "proto (sca i opts f) = proto f"
  "fstate (sca i opts f) = fstate f"
  "fid (sca i opts f) = fid f"
  "restartCount (sca i opts f) = restartCount f"
  "failCount (sca i opts f) = failCount f"
  "maxConf (sca i opts f) = maxConf f"
  "maxTerm (sca i opts f) = maxTerm f"
  "maxFail (sca i opts f) = maxFail f"
  "restartTime (sca i opts f) = restartTime f"
  "timer (sca i opts f) = timer f"
  "callbacks (sca i opts f) = callbacks f"
  "handler (sca i opts f) = handler f"
  "lastReqID (sca i opts f) = lastReqID f"
  "out (sca i opts f) = out f @ wire (cbSend (callbacks f)) (ASend ConfAck i (SerializeOptions opts))"
  by (simp_all add: sca_def)

lemma scn_sel [simp]:
  "proto (scn i opts f) = proto f"
  "fstate (scn i opts f) = fstate f"
  "fid (scn i opts f) = fid f"
  "restartCount (scn i opts f) = restartCount f"
  "failCount (scn i opts f) = failCount f + 1"
  "maxConf (scn i opts f) = maxConf f"
  "maxTerm (scn i opts f) = maxTerm f"
  "maxFail (scn i opts f) = maxFail f"
  "restartTime (scn i opts f) = restartTime f"
  "timer (scn i opts f) = timer f"
  "callbacks (scn i opts f) = callbacks f"
  "handler (scn i opts f) = handler f"
  "lastReqID (scn i opts f) = lastReqID f"
  "out (scn i opts f) = out f @ wire (cbSend (callbacks f)) (ASend ConfNak i (SerializeOptions opts))"
  by (simp_all add: scn_def Let_def)

lemma scj_sel [simp]:
  "proto (scj i opts f) = proto f"
  "fstate (scj i opts f) = fstate f"
  "fid (scj i opts f) = fid f"
  "restartCount (scj i opts f) = restartCount f"
  "failCount (scj i opts f) = failCount f"
  "maxConf (scj i opts f) = maxConf f"
  "maxTerm (scj i opts f) = maxTerm f"
  "maxFail (scj i opts f) = maxFail f"
  "restartTime (scj i opts f) = restartTime f"
  "timer (scj i opts f) = timer f"
  "callbacks (scj i opts f) = callbacks f"
  "handler (scj i opts f) = handler f"
  "lastReqID (scj i opts f) = lastReqID f"
  "out (scj i opts f) = out f @ wire (cbSend (callbacks f)) (ASend ConfRej i (SerializeOptions opts))"
  by (simp_all add: scj_def)

lemma str_sel [simp]:
  "proto (str f) = proto f"
  "fstate (str f) = fstate f"
  "fid (str f) = fid f + 1"
  "restartCount (str f) = maxTerm f"
  "failCount (str f) = failCount f"
  "maxConf (str f) = maxConf f"
  "maxTerm (str f) = maxTerm f"
  "maxFail (str f) = maxFail f"
  "restartTime (str f) = restartTime f"
  "timer (str f) = Armed"
  "callbacks (str f) = callbacks f"
  "handler (str f) = handler f"
  "lastReqID (str f) = lastReqID f"
  "out (str f) = out f @ wire (cbSend (callbacks f)) (ASend TermReq (fid f + 1) [])"
  by (simp_all add: str_def nextID_def Let_def)

lemma strRetransmit_sel [simp]:
  "proto (strRetransmit f) = proto f"
  "fstate (strRetransmit f) = fstate f"
  "fid (strRetransmit f) = fid f + 1"
  "restartCount (strRetransmit f) = restartCount f"
  "failCount (strRetransmit f) = failCount f"
  "maxConf (strRetransmit f) = maxConf f"
  "maxTerm (strRetransmit f) = maxTerm f"
  "maxFail (strRetransmit f) = maxFail f"
  "restartTime (strRetransmit f) = restartTime f"
  "timer (strRetransmit f) = Armed"
  "callbacks (strRetransmit f) = callbacks f"
  "handler (strRetransmit f) = handler f"
  "lastReqID (strRetransmit f) = lastReqID f"
  "out (strRetransmit f) = out f @ wire (cbSend (callbacks f)) (ASend TermReq (fid f + 1) [])"
  by (simp_all add: strRetransmit_def nextID_def Let_def)

lemma sta_sel [simp]:
  "proto (sta i f) = proto f"
  "fstate (sta i f) = fstate f"
  "fid (sta i f) = fid f"
  "restartCount (sta i f) = restartCount f"
  "failCount (sta i f) = failCount f"
  "maxConf (sta i f) = maxConf f"
  "maxTerm (sta i f) = maxTerm f"
  "maxFail (sta i f) = maxFail f"
  "restartTime (sta i f) = restartTime f"
  "timer (sta i f) = timer f"
  "callbacks (sta i f) = callbacks f"
  "handler (sta i f) = handler f"
  "lastReqID (sta i f) = lastReqID f"
  "out (sta i f) = out f @ wire (cbSend (callbacks f)) (ASend TermAck i [])"
  by (simp_all add: sta_def)

lemma rucEvent_sel [simp]:
  "proto (rucEvent c i d f) = proto f"
  "fstate (rucEvent c i d f) = fstate f"
  "fid (rucEvent c i d f) = fid f + 1"
  "restartCount (rucEvent c i d f) = restartCount f"
  "failCount (rucEvent c i d f) = failCount f"
  "maxConf (rucEvent c i d f) = maxConf f"
  "maxTerm (rucEvent c i d f) = maxTerm f"
  "maxFail (rucEvent c i d f) = maxFail f"
  "restartTime (rucEvent c i d f) = restartTime f"
  "timer (rucEvent c i d f) = timer f"
  "callbacks (rucEvent c i d f) = callbacks f"
  "handler (rucEvent c i d f) = handler f"
  "lastReqID (rucEvent c i d f) = lastReqID f"
  "out (rucEvent c i d f) = out f @ wire (cbSend (callbacks f)) (ASend CodeRej (fid f + 1) (c # i # put16 (of_nat (4 + length d)) @ d))"
  by (simp_all add: rucEvent_def nextID_def Let_def)

lemmas event_defs = rcaEvent_def rcnEvent_def rtrEvent_def rtaEvent_def rxjEvent_def rxrEvent_def

lemmas admin_defs = Up_def Down_def Open_def Close_def Timeout_def TimerFire_def

declare event_defs [step_defs] admin_defs [step_defs] rcrEvent_def [step_defs] Input_def [step_defs]

end
