(* ===== verification/PPP_FSM_Invariants.thy ===== *)
theory PPP_FSM_Invariants
  imports PPP_FSM
begin

section \<open>Invariants and progress of the negotiation automaton\<close>

text \<open>
  Step invariants of \<open>fsm_call\<close> lifted to \<open>fsm_reach\<close>: the configuration never changes, the
  restart timer is pending in every negotiating state, and the layer callbacks alternate with the
  layer up exactly in state Opened. Then the progress of a negotiation whose peer is silent.
\<close>

text \<open>
  Case analysis on the public interface: a predicate that every event handler establishes holds
  after any call.
\<close>

lemma fsm_call_cases:
  assumes "fsm_call H c f = Some f'"
    and "P (Up H f)" "P (Down f)" "P (Open H f)" "P (Close f)" "P (TimerFire H f)" "P (Timeout H f)"
    and "\<And>i data g. rcrEvent H i data f = Some g \<Longrightarrow> P g"
    and "\<And>i data. P (rcaEvent H i data f)" "\<And>i data b. P (rcnEvent H i data b f)"
    and "\<And>i. P (rtrEvent i f)" "P (rtaEvent H f)" "P (rxjEvent f)" "P f"
    and "\<And>i data. P (rxrEvent i data f)" "\<And>code i data. P (rucEvent code i data f)"
  shows "P f'"
  using assms by (cases c) (auto simp: Input_def split: if_splits)

lemma fsm_reach_invariant:
  assumes "fsm_reach H f g" "P f"
    and "\<And>g c g'. P g \<Longrightarrow> fsm_call H c g = Some g' \<Longrightarrow> P g'"
  shows "P g"
  using assms(1,2) by (induction rule: fsm_reach.induct) (auto intro: assms(3))

subsection \<open>Configuration\<close>

definition fsm_config :: "'h FSM \<Rightarrow> u16 \<times> Callbacks \<times> int \<times> int \<times> int \<times> int" where
  "fsm_config f = (proto f, callbacks f, maxConf f, maxTerm f, maxFail f, restartTime f)"

lemma rcrEvent_config: "rcrEvent H i data f = Some g \<Longrightarrow> fsm_config g = fsm_config f"
  by (cases "fstate f";
      auto simp: fsm_config_def rcrEvent_def Let_def split: sum.splits option.splits if_splits)

lemma fsm_call_config:
  assumes "fsm_call H c f = Some f'"
  shows "fsm_config f' = fsm_config f"
  by (rule fsm_call_cases [OF assms, where P = "\<lambda>g. fsm_config g = fsm_config f"];
      (erule rcrEvent_config | (cases "fstate f"; simp add: fsm_config_def admin_defs event_defs Let_def)))

subsection \<open>The restart timer\<close>

definition timer_ok :: "'h FSM \<Rightarrow> bool" where
  "timer_ok f \<longleftrightarrow>
     (fstate f \<in> {ReqSent, AckRcvd, AckSent} \<longrightarrow> timer f = Armed) \<and>
     (fstate f \<in> {Closing, Stopping} \<and> restartCount f > 0 \<longrightarrow> timer f = Armed)"

lemma rcrEvent_timer_ok: "rcrEvent H i data f = Some g \<Longrightarrow> timer_ok f \<Longrightarrow> timer_ok g"
  by (cases "fstate f";
      auto simp: timer_ok_def rcrEvent_def Let_def split: sum.splits option.splits if_splits)

lemma fsm_call_timer_ok:
  assumes "fsm_call H c f = Some f'" "timer_ok f"
  shows "timer_ok f'"
  by (rule fsm_call_cases [OF assms(1)]; insert assms(2);
      (erule (1) rcrEvent_timer_ok | (cases "fstate f"; simp add: timer_ok_def admin_defs event_defs Let_def)))

subsection \<open>The layer callbacks\<close>

text \<open>
  \<open>layer_track up acts\<close> follows LayerUp and LayerDown through a callback trace: \<open>None\<close> when two of
  the same kind follow each other, otherwise whether the layer is up at the end.
\<close>

fun layer_track :: "bool \<Rightarrow> Action list \<Rightarrow> bool option" where
  "layer_track up [] = Some up"
| "layer_track up (ALayerUp # acts) = (if up then None else layer_track True acts)"
| "layer_track up (ALayerDown # acts) = (if up then layer_track False acts else None)"
| "layer_track up (_ # acts) = layer_track up acts"

lemma layer_track_append [simp]:
  "layer_track up (xs @ ys) = (case layer_track up xs of None \<Rightarrow> None | Some u \<Rightarrow> layer_track u ys)"
  by (induction up xs rule: layer_track.induct) auto

lemma layer_track_wire_send [simp]: "layer_track up (wire b (ASend c i d)) = Some up"
  "layer_track up (wire b ALayerStarted) = Some up"
  "layer_track up (wire b ALayerFinished) = Some up"
  by (simp_all add: wire_def)

definition layer_ok :: "'h FSM \<Rightarrow> bool" where
  "layer_ok f \<longleftrightarrow> cbLayerUp (callbacks f) \<and> cbLayerDown (callbacks f) \<longrightarrow>
     layer_track False (out f) = Some (fstate f = Opened)"

lemma rcrEvent_layer_ok: "rcrEvent H i data f = Some g \<Longrightarrow> layer_ok f \<Longrightarrow> layer_ok g"
  by (cases "fstate f";
      auto simp: layer_ok_def rcrEvent_def Let_def wire_def split: sum.splits option.splits if_splits)

lemma fsm_call_layer_ok:
  assumes "fsm_call H c f = Some f'" "layer_ok f"
  shows "layer_ok f'"
  by (rule fsm_call_cases [OF assms(1)]; insert assms(2);
      (erule (1) rcrEvent_layer_ok
       | (cases "fstate f"; simp add: layer_ok_def wire_def admin_defs event_defs Let_def)))

subsection \<open>A silent peer\<close>

text \<open>
  With no packet arriving, every firing of the timer in a negotiating state retransmits the
  Configure-Request until the restart counter is used up, then gives the layer up.
\<close>

abbreviation negotiating :: "State set" where
  "negotiating \<equiv> {ReqSent, AckRcvd, AckSent}"

lemma TimerFire_retransmit:
  assumes "timer f = Armed" "fstate f \<in> negotiating" "restartCount f > 0"
  shows "timer (TimerFire H f) = Armed \<and> fstate (TimerFire H f) \<in> negotiating
    \<and> restartCount (TimerFire H f) = restartCount f - 1
    \<and> handler (TimerFire H f) = handler f \<and> callbacks (TimerFire H f) = callbacks f
    \<and> fid (TimerFire H f) = fid f + 1
    \<and> out (TimerFire H f) = out f @ wire (cbSend (callbacks f))
        (ASend ConfReq (fid f + 1) (SerializeOptions (BuildConfReq H (handler f))))"
  using assms by (auto simp: TimerFire_def Timeout_def Let_def)

lemma TimerFire_give_up:
  assumes "timer f = Armed" "fstate f \<in> negotiating" "restartCount f \<le> 0"
  shows "fstate (TimerFire H f) = Stopped
    \<and> out (TimerFire H f) = out f @ wire (cbLayerFinished (callbacks f)) ALayerFinished"
  using assms by (auto simp: TimerFire_def Timeout_def)

lemma TimerFire_iterate:
  assumes "timer f = Armed" "fstate f \<in> negotiating" "restartCount f = int n" "cbSend (callbacks f)"
    "cbLayerFinished (callbacks f)"
  shows "fstate ((TimerFire H ^^ Suc n) f) = Stopped
    \<and> out ((TimerFire H ^^ Suc n) f) = out f
        @ map (\<lambda>k. ASend ConfReq (fid f + 1 + of_nat k) (SerializeOptions (BuildConfReq H (handler f)))) [0..<n]
        @ [ALayerFinished]"
  using assms
proof (induction n arbitrary: f)
  case 0
  then show ?case using TimerFire_give_up [of f H] by (simp add: wire_def)
next
  case (Suc n)
  let ?g = "TimerFire H f"
  have g: "timer ?g = Armed" "fstate ?g \<in> negotiating" "restartCount ?g = int n"
    "cbSend (callbacks ?g)" "cbLayerFinished (callbacks ?g)"
    and h: "handler ?g = handler f" "fid ?g = fid f + 1"
    and o: "out ?g = out f @ [ASend ConfReq (fid f + 1) (SerializeOptions (BuildConfReq H (handler f)))]"
    using TimerFire_retransmit [of f H] Suc.prems by (simp_all add: wire_def)
  have shift: "[0..<Suc n] = 0 # map Suc [0..<n]"
    by (simp add: map_Suc_upt upt_conv_Cons del: upt_Suc)
  have iter: "(TimerFire H ^^ Suc (Suc n)) f = (TimerFire H ^^ Suc n) ?g"
    by (metis funpow_Suc_right comp_apply)
  show ?case
    unfolding iter using Suc.IH [OF g] by (simp add: o h shift comp_def add.assoc del: funpow.simps upt_Suc)
qed

end
