(* ===== verification/PPP_RFC1661.thy ===== *)
theory PPP_RFC1661
  imports PPP_FSM_Invariants
begin

section \<open>Refinement of the RFC 1661 transition table\<close>

text \<open>
  The abstract specification of the automaton is the transition table of RFC 1661 section 4.1: for
  an event and a state, the messages and layer actions in order and the next state; \<open>None\<close> is an
  event the table marks as impossible. The counter actions irc and zrc leave no trace outside the
  automaton and are not part of the comparison; Configure-Nak and Configure-Reject are the one action
  scn of the table. \<open>classify\<close> says which event of the table a call of the Go interface is.
\<close>

datatype event = EUp | EDown | EOpen | EClose | TOplus | TOminus | RCRplus | RCRminus | RCA | RCN
  | RTR | RTA | RUC | RXJplus | RXJminus | RXR

datatype act = Tlu | Tld | Tls | Tlf | Scr | Sca | Scn | Str | Sta | Scj | Ser

fun rfc1661 :: "event \<Rightarrow> State \<Rightarrow> (act list \<times> State) option" where
  "rfc1661 EUp s = (case s of Initial \<Rightarrow> Some ([], Closed) | Starting \<Rightarrow> Some ([Scr], ReqSent)
     | _ \<Rightarrow> None)"
| "rfc1661 EDown s = (case s of Initial \<Rightarrow> None | Starting \<Rightarrow> None
     | Closed \<Rightarrow> Some ([], Initial) | Stopped \<Rightarrow> Some ([Tls], Starting)
     | Closing \<Rightarrow> Some ([], Initial) | Opened \<Rightarrow> Some ([Tld], Starting)
     | _ \<Rightarrow> Some ([], Starting))"
| "rfc1661 EOpen s = (case s of Initial \<Rightarrow> Some ([Tls], Starting) | Closed \<Rightarrow> Some ([Scr], ReqSent)
     | Closing \<Rightarrow> Some ([], Stopping) | _ \<Rightarrow> Some ([], s))"
| "rfc1661 EClose s = (case s of Initial \<Rightarrow> Some ([], Initial) | Starting \<Rightarrow> Some ([Tlf], Initial)
     | Closed \<Rightarrow> Some ([], Closed) | Stopped \<Rightarrow> Some ([], Closed)
     | Closing \<Rightarrow> Some ([], Closing) | Stopping \<Rightarrow> Some ([], Closing)
     | Opened \<Rightarrow> Some ([Tld, Str], Closing) | _ \<Rightarrow> Some ([Str], Closing))"
| "rfc1661 TOplus s = (case s of Closing \<Rightarrow> Some ([Str], Closing) | Stopping \<Rightarrow> Some ([Str], Stopping)
     | ReqSent \<Rightarrow> Some ([Scr], ReqSent) | AckRcvd \<Rightarrow> Some ([Scr], ReqSent)
     | AckSent \<Rightarrow> Some ([Scr], AckSent) | _ \<Rightarrow> None)"
| "rfc1661 TOminus s = (case s of Closing \<Rightarrow> Some ([Tlf], Closed) | Stopping \<Rightarrow> Some ([Tlf], Stopped)
     | ReqSent \<Rightarrow> Some ([Tlf], Stopped) | AckRcvd \<Rightarrow> Some ([Tlf], Stopped)
     | AckSent \<Rightarrow> Some ([Tlf], Stopped) | _ \<Rightarrow> None)"
| "rfc1661 RCRplus s = (case s of Initial \<Rightarrow> None | Starting \<Rightarrow> None
     | Closed \<Rightarrow> Some ([Sta], Closed) | Stopped \<Rightarrow> Some ([Scr, Sca], AckSent)
     | Closing \<Rightarrow> Some ([], Closing) | Stopping \<Rightarrow> Some ([], Stopping)
     | ReqSent \<Rightarrow> Some ([Sca], AckSent) | AckRcvd \<Rightarrow> Some ([Sca, Tlu], Opened)
     | AckSent \<Rightarrow> Some ([Sca], AckSent) | Opened \<Rightarrow> Some ([Tld, Scr, Sca], AckSent))"
| "rfc1661 RCRminus s = (case s of Initial \<Rightarrow> None | Starting \<Rightarrow> None
     | Closed \<Rightarrow> Some ([Sta], Closed) | Stopped \<Rightarrow> Some ([Scr, Scn], ReqSent)
     | Closing \<Rightarrow> Some ([], Closing) | Stopping \<Rightarrow> Some ([], Stopping)
     | ReqSent \<Rightarrow> Some ([Scn], ReqSent) | AckRcvd \<Rightarrow> Some ([Scn], AckRcvd)
     | AckSent \<Rightarrow> Some ([Scn], ReqSent) | Opened \<Rightarrow> Some ([Tld, Scr, Scn], ReqSent))"
| "rfc1661 RCA s = (case s of Initial \<Rightarrow> None | Starting \<Rightarrow> None
     | Closed \<Rightarrow> Some ([Sta], Closed) | Stopped \<Rightarrow> Some ([Sta], Stopped)
     | Closing \<Rightarrow> Some ([], Closing) | Stopping \<Rightarrow> Some ([], Stopping)
     | ReqSent \<Rightarrow> Some ([], AckRcvd) | AckRcvd \<Rightarrow> Some ([Scr], ReqSent)
     | AckSent \<Rightarrow> Some ([Tlu], Opened) | Opened \<Rightarrow> Some ([Tld, Scr], ReqSent))"
| "rfc1661 RCN s = (case s of Initial \<Rightarrow> None | Starting \<Rightarrow> None
     | Closed \<Rightarrow> Some ([Sta], Closed) | Stopped \<Rightarrow> Some ([Sta], Stopped)
     | Closing \<Rightarrow> Some ([], Closing) | Stopping \<Rightarrow> Some ([], Stopping)
     | ReqSent \<Rightarrow> Some ([Scr], ReqSent) | AckRcvd \<Rightarrow> Some ([Scr], ReqSent)
     | AckSent \<Rightarrow> Some ([Scr], AckSent) | Opened \<Rightarrow> Some ([Tld, Scr], ReqSent))"
| "rfc1661 RTR s = (case s of Initial \<Rightarrow> None | Starting \<Rightarrow> None
     | AckRcvd \<Rightarrow> Some ([Sta], ReqSent) | AckSent \<Rightarrow> Some ([Sta], ReqSent)
     | Opened \<Rightarrow> Some ([Tld, Sta], Stopping) | _ \<Rightarrow> Some ([Sta], s))"
| "rfc1661 RTA s = (case s of Initial \<Rightarrow> None | Starting \<Rightarrow> None
     | Closing \<Rightarrow> Some ([Tlf], Closed) | Stopping \<Rightarrow> Some ([Tlf], Stopped)
     | AckRcvd \<Rightarrow> Some ([], ReqSent) | Opened \<Rightarrow> Some ([Tld, Scr], ReqSent) | _ \<Rightarrow> Some ([], s))"
| "rfc1661 RUC s = (case s of Initial \<Rightarrow> None | Starting \<Rightarrow> None | _ \<Rightarrow> Some ([Scj], s))"
| "rfc1661 RXJplus s = (case s of Initial \<Rightarrow> None | Starting \<Rightarrow> None
     | AckRcvd \<Rightarrow> Some ([], ReqSent) | _ \<Rightarrow> Some ([], s))"
| "rfc1661 RXJminus s = (case s of Initial \<Rightarrow> None | Starting \<Rightarrow> None
     | Closed \<Rightarrow> Some ([Tlf], Closed) | Stopped \<Rightarrow> Some ([Tlf], Stopped)
     | Closing \<Rightarrow> Some ([Tlf], Closed) | Stopping \<Rightarrow> Some ([Tlf], Stopped)
     | Opened \<Rightarrow> Some ([Tld, Str], Stopping) | _ \<Rightarrow> Some ([Tlf], Stopped))"
| "rfc1661 RXR s = (case s of Initial \<Rightarrow> None | Starting \<Rightarrow> None
     | Opened \<Rightarrow> Some ([Ser], Opened) | _ \<Rightarrow> Some ([], s))"

fun act_of :: "Action \<Rightarrow> act option" where
  "act_of ALayerUp = Some Tlu"
| "act_of ALayerDown = Some Tld"
| "act_of ALayerStarted = Some Tls"
| "act_of ALayerFinished = Some Tlf"
| "act_of (ASend code i data) =
     (if code = ConfReq then Some Scr
      else if code = ConfAck then Some Sca
      else if code = ConfNak \<or> code = ConfRej then Some Scn
      else if code = TermReq then Some Str
      else if code = TermAck then Some Sta
      else if code = CodeRej then Some Scj
      else if code = EchoRep then Some Ser
      else None)"

definition timeout_event :: "'h FSM \<Rightarrow> event" where
  "timeout_event f = (if restartCount f > 0 then TOplus else TOminus)"

definition confreq_event :: "'h OptionHandler \<Rightarrow> bytes \<Rightarrow> 'h FSM \<Rightarrow> event option" where
  "confreq_event H data f = (case ParseOptions data of Inl _ \<Rightarrow> None | Inr opts \<Rightarrow>
     (case ProcessConfReq H (handler f) opts of None \<Rightarrow> None
      | Some (_, _, nak, rej) \<Rightarrow> Some (if nak = [] \<and> rej = [] then RCRplus else RCRminus)))"

definition packet_event :: "'h OptionHandler \<Rightarrow> byte \<Rightarrow> byte \<Rightarrow> bytes \<Rightarrow> 'h FSM \<Rightarrow> event option" where
  "packet_event H code i data f =
     (if code = ConfReq then confreq_event H data f
      else if code = ConfAck then (if i = lastReqID f then Some RCA else None)
      else if code = ConfNak \<or> code = ConfRej then (if i = lastReqID f then Some RCN else None)
      else if code = TermReq then Some RTR
      else if code = TermAck then Some RTA
      else if code = CodeRej then Some RXJminus
      else if code = ProtoRej then Some RXJplus
      else if code = EchoReq then (if 4 \<le> length data then Some RXR else None)
      else if code = EchoRep \<or> code = DiscReq then None
      else Some RUC)"

fun classify :: "'h OptionHandler \<Rightarrow> call \<Rightarrow> 'h FSM \<Rightarrow> event option" where
  "classify H CUp f = Some EUp"
| "classify H CDown f = Some EDown"
| "classify H COpen f = Some EOpen"
| "classify H CClose f = Some EClose"
| "classify H CTimer f = (if timer f = Armed then Some (timeout_event f) else None)"
| "classify H CTimeout f = Some (timeout_event f)"
| "classify H (CInput code i data) f = packet_event H code i data f"

definition all_callbacks :: Callbacks where
  "all_callbacks = \<lparr>cbSend = True, cbLayerUp = True, cbLayerDown = True, cbLayerStarted = True,
     cbLayerFinished = True\<rparr>"

text \<open>The cells of the table where the code does something else.\<close>

definition deviations :: "(event \<times> State) list" where
  "deviations = [(EOpen, Closing), (RCN, AckSent), (RTR, AckRcvd), (RTR, AckSent), (RTA, AckRcvd),
     (RTA, AckSent), (RXJplus, AckRcvd), (RXJminus, Closed), (RXJminus, Stopped),
     (RXJminus, Closing), (RXJminus, Stopping)]"

text \<open>The call \<open>c\<close> performs the actions \<open>acts\<close> in order and ends in state \<open>s\<close>.\<close>

definition performs :: "'h OptionHandler \<Rightarrow> call \<Rightarrow> 'h FSM \<Rightarrow> act list \<times> State \<Rightarrow> bool" where
  "performs H c f cell \<longleftrightarrow> (case fsm_call H c f of None \<Rightarrow> False
     | Some f' \<Rightarrow> fstate f' = snd cell \<and>
         map act_of (out f') = map act_of (out f) @ map Some (fst cell))"

lemma wire_all_callbacks [simp]:
  "wire (cbSend all_callbacks) a = [a]" "wire (cbLayerUp all_callbacks) a = [a]"
  "wire (cbLayerDown all_callbacks) a = [a]" "wire (cbLayerStarted all_callbacks) a = [a]"
  "wire (cbLayerFinished all_callbacks) a = [a]"
  by (simp_all add: all_callbacks_def wire_def)

lemma performs_confreq:
  assumes "callbacks f = all_callbacks" "confreq_event H data f = Some ev"
    "rfc1661 ev (fstate f) = Some cell"
  shows "performs H (CInput ConfReq i data) f cell \<longleftrightarrow> (ev, fstate f) \<notin> set deviations"
  using assms
  by (cases "fstate f";
      auto simp: performs_def confreq_event_def deviations_def Input_def rcrEvent_def Let_def
        split: sum.splits option.splits if_splits)

lemma performs_timeout:
  assumes "callbacks f = all_callbacks" "rfc1661 (timeout_event f) (fstate f) = Some cell"
  shows "performs H CTimeout f cell" "timer f = Armed \<Longrightarrow> performs H CTimer f cell"
    "(timeout_event f, s) \<notin> set deviations"
  using assms
  by (cases "fstate f";
      auto simp: performs_def timeout_event_def deviations_def Timeout_def TimerFire_def Let_def
        split: if_splits)+

lemma performs_admin:
  assumes "callbacks f = all_callbacks" "c \<in> {CUp, CDown, COpen, CClose}" "classify H c f = Some ev"
    "rfc1661 ev (fstate f) = Some cell"
  shows "performs H c f cell \<longleftrightarrow> (ev, fstate f) \<notin> set deviations"
  using assms
  by (cases "fstate f";
      auto simp: performs_def deviations_def Up_def Down_def Open_def Close_def Let_def)

lemma performs_packet:
  assumes "callbacks f = all_callbacks" "packet_event H code i data f = Some ev" "code \<noteq> ConfReq"
    "rfc1661 ev (fstate f) = Some cell"
  shows "performs H (CInput code i data) f cell \<longleftrightarrow> (ev, fstate f) \<notin> set deviations"
  using assms
  by (cases "fstate f";
      auto simp: performs_def packet_event_def deviations_def Input_def event_defs Let_def
        split: if_splits)

end
