(* ===== verification/PPP_Handler_Spec.thy ===== *)
theory PPP_Handler_Spec
  imports PPP_FSM_Invariants "HOL-Library.Sublist"
begin

section \<open>The contract between the automaton and its option handlers\<close>

text \<open>
  First what one call of the automaton sends, in terms of the handler it is given. Then the
  interface \<^verbatim>\<open>OptionHandler\<close> of \<^verbatim>\<open>pkg/ppp/fsm.go\<close> as the locale \<open>option_handler\<close>: \<open>hinv\<close> is the
  handler's well-formedness and \<open>refused h t\<close> says that the peer has rejected option type \<open>t\<close>.
  The laws: every option of a request goes to exactly one of the three result lists, the
  acknowledged and the rejected ones unchanged and in order; built options fit their length field;
  a rejected type stays rejected and is not built. The client lemmas say what the automaton
  acknowledges and requests over any run.
\<close>

subsection \<open>What a call sends\<close>

definition newOut :: "'h FSM \<Rightarrow> 'h FSM \<Rightarrow> Action list" where
  "newOut f g = drop (length (out f)) (out g)"

definition confreqs_built :: "'h OptionHandler \<Rightarrow> 'h FSM \<Rightarrow> 'h FSM \<Rightarrow> bool" where
  "confreqs_built H f g \<longleftrightarrow> (\<forall>j d.
     ASend ConfReq j d \<in> set (newOut f g) \<longrightarrow> d = SerializeOptions (BuildConfReq H (handler g)))"

lemma rcrEvent_confreqs_built: "rcrEvent H i data f = Some g \<Longrightarrow> confreqs_built H f g"
  by (cases "fstate f";
      auto simp: confreqs_built_def newOut_def rcrEvent_def Let_def wire_def
        split: sum.splits option.splits if_splits)

lemma fsm_call_confreqs_built:
  assumes "fsm_call H c f = Some g"
  shows "confreqs_built H f g"
  by (rule fsm_call_cases [OF assms];
      (erule rcrEvent_confreqs_built
       | (cases "fstate f";
          simp add: confreqs_built_def newOut_def wire_def admin_defs event_defs Let_def)))

definition confacks_processed :: "'h OptionHandler \<Rightarrow> byte \<Rightarrow> bytes \<Rightarrow> 'h FSM \<Rightarrow> 'h FSM \<Rightarrow> bool" where
  "confacks_processed H i data f g \<longleftrightarrow> (\<forall>j d.
     ASend ConfAck j d \<in> set (newOut f g) \<longrightarrow> j = i \<and> (\<exists>opts h' ack. ParseOptions data = Inr opts \<and>
       ProcessConfReq H (handler f) opts = Some (h', ack, [], []) \<and> d = SerializeOptions ack))"

lemma rcrEvent_confacks_processed:
  "rcrEvent H i data f = Some g \<Longrightarrow> confacks_processed H i data f g"
  by (cases "fstate f";
      auto simp: confacks_processed_def newOut_def rcrEvent_def Let_def wire_def
        split: sum.splits option.splits if_splits)

lemma fsm_call_no_confack:
  assumes "fsm_call H c f = Some g" "\<nexists>i data. c = CInput ConfReq i data"
  shows "ASend ConfAck j d \<notin> set (newOut f g)"
  using assms
  by (cases c; cases "fstate f";
      auto simp: newOut_def wire_def admin_defs event_defs Input_def Let_def split: if_splits)

lemma fsm_call_confack:
  assumes "fsm_call H c f = Some g" "ASend ConfAck j d \<in> set (newOut f g)"
  shows "\<exists>data opts h' ack. c = CInput ConfReq j data \<and> ParseOptions data = Inr opts \<and>
    ProcessConfReq H (handler f) opts = Some (h', ack, [], []) \<and> d = SerializeOptions ack"
proof -
  obtain i data where c: "c = CInput ConfReq i data"
    using fsm_call_no_confack [OF assms(1)] assms(2) by blast
  with assms(1) have "rcrEvent H i data f = Some g"
    by (simp add: Input_def)
  then have "confacks_processed H i data f g"
    by (rule rcrEvent_confacks_processed)
  with assms(2) c show ?thesis
    by (simp add: confacks_processed_def)
qed

text \<open>How a call changes the handler: not at all, or by one handler method.\<close>

inductive handler_step :: "'h OptionHandler \<Rightarrow> 'h \<Rightarrow> 'h \<Rightarrow> bool" for H h where
  hs_same: "handler_step H h h"
| hs_req: "ProcessConfReq H h opts = Some (h', ack, nak, rej) \<Longrightarrow> handler_step H h h'"
| hs_ack: "handler_step H h (ProcessConfAck H h opts)"
| hs_nak: "handler_step H h (ProcessConfNak H h opts)"
| hs_rej: "handler_step H h (ProcessConfRej H h opts)"

declare handler_step.intros [intro]

lemma rcrEvent_handler_step:
  "rcrEvent H i data f = Some g \<Longrightarrow> handler_step H (handler f) (handler g)"
  by (cases "fstate f"; auto simp: rcrEvent_def Let_def split: sum.splits option.splits if_splits)

lemma fsm_call_handler_step:
  assumes "fsm_call H c f = Some g"
  shows "handler_step H (handler f) (handler g)"
  by (rule fsm_call_cases [OF assms];
      (erule rcrEvent_handler_step
       | (cases "fstate f"; simp add: admin_defs event_defs Let_def handler_step.intros)))

subsection \<open>The interface\<close>

locale option_handler =
  fixes H :: "'h OptionHandler"
    and hinv :: "'h \<Rightarrow> bool"
    and refused :: "'h \<Rightarrow> byte \<Rightarrow> bool"
  assumes confreq_partition:
      "ProcessConfReq H h opts = Some (h', ack, nak, rej) \<Longrightarrow>
        subseq ack opts \<and> subseq rej opts \<and> length ack + length nak + length rej = length opts"
    and confreq_inv: "hinv h \<Longrightarrow> ProcessConfReq H h opts = Some (h', ack, nak, rej) \<Longrightarrow> hinv h'"
    and confack_inv: "hinv h \<Longrightarrow> hinv (ProcessConfAck H h opts)"
    and confnak_inv: "hinv h \<Longrightarrow> hinv (ProcessConfNak H h opts)"
    and confrej_inv: "hinv h \<Longrightarrow> hinv (ProcessConfRej H h opts)"
    and build_fits: "hinv h \<Longrightarrow> opt \<in> set (BuildConfReq H h) \<Longrightarrow> option_fits opt"
    and confreq_refused: "ProcessConfReq H h opts = Some (h', ack, nak, rej) \<Longrightarrow> refused h t \<Longrightarrow> refused h' t"
    and confack_refused: "refused h t \<Longrightarrow> refused (ProcessConfAck H h opts) t"
    and confnak_refused: "refused h t \<Longrightarrow> refused (ProcessConfNak H h opts) t"
    and confrej_refused: "refused (ProcessConfRej H h opts) t \<longleftrightarrow> refused h t \<or> t \<in> oType ` set opts"
    and build_refused: "refused h (oType opt) \<Longrightarrow> opt \<notin> set (BuildConfReq H h)"
begin

lemma confreq_good:
  assumes "ProcessConfReq H h opts = Some (h', ack, [], [])"
  shows "ack = opts"
  using confreq_partition [OF assms] by (simp add: subseq_same_length)

lemma confack_echoes:
  assumes "fsm_call H c f = Some g" "ASend ConfAck i d \<in> set (newOut f g)"
  shows "\<exists>data junk. c = CInput ConfReq i data \<and> data = d @ junk \<and> length junk \<le> 1"
proof -
  from fsm_call_confack [OF assms] obtain data opts h' ack where
      c: "c = CInput ConfReq i data" and p: "ParseOptions data = Inr opts"
      and r: "ProcessConfReq H (handler f) opts = Some (h', ack, [], [])"
      and d: "d = SerializeOptions ack"
    by blast
  from confreq_good [OF r] d have "d = SerializeOptions opts" by simp
  with c ParseOptions_InrD [OF p] show ?thesis by blast
qed

lemma step_inv: "handler_step H h h' \<Longrightarrow> hinv h \<Longrightarrow> hinv h'"
  by (induction rule: handler_step.induct) (simp_all add: confreq_inv confack_inv confnak_inv confrej_inv)

lemma call_inv: "fsm_call H c f = Some g \<Longrightarrow> hinv (handler f) \<Longrightarrow> hinv (handler g)"
  by (rule step_inv [OF fsm_call_handler_step])

lemma reach_inv: "fsm_reach H f g \<Longrightarrow> hinv (handler f) \<Longrightarrow> hinv (handler g)"
  by (erule fsm_reach_invariant [where P = "\<lambda>g. hinv (handler g)"]) (simp_all add: call_inv)

lemma step_refused: "handler_step H h h' \<Longrightarrow> refused h t \<Longrightarrow> refused h' t"
  by (induction rule: handler_step.induct)
    (simp_all add: confreq_refused confack_refused confnak_refused confrej_refused)

lemma call_refused: "fsm_call H c f = Some g \<Longrightarrow> refused (handler f) t \<Longrightarrow> refused (handler g) t"
  by (rule step_refused [OF fsm_call_handler_step])

lemma reach_refused: "fsm_reach H f g \<Longrightarrow> refused (handler f) t \<Longrightarrow> refused (handler g) t"
  by (erule fsm_reach_invariant [where P = "\<lambda>g. refused (handler g) t"]) (simp_all add: call_refused)

lemma confreq_wellformed:
  assumes "fsm_call H c f = Some g" "hinv (handler f)" "ASend ConfReq i d \<in> set (newOut f g)"
  shows "ParseOptions d = Inr (BuildConfReq H (handler g))"
proof -
  have d: "d = SerializeOptions (BuildConfReq H (handler g))"
    using fsm_call_confreqs_built [OF assms(1)] assms(3) by (auto simp: confreqs_built_def)
  have "hinv (handler g)"
    using call_inv [OF assms(1,2)] .
  then have "\<forall>opt \<in> set (BuildConfReq H (handler g)). option_fits opt"
    by (blast intro: build_fits)
  from ParseOptions_SerializeOptions_append [OF this, of "[]"] d show ?thesis
    by (simp add: ParseOptions_short)
qed

lemma refused_not_requested:
  assumes "fsm_reach H f g" "refused (handler f) t" "hinv (handler f)" "fsm_call H c g = Some g'"
    "ASend ConfReq i d \<in> set (newOut g g')"
  shows "\<exists>opts. ParseOptions d = Inr opts \<and> t \<notin> oType ` set opts"
proof -
  have "hinv (handler g)" using assms(1,3) by (rule reach_inv)
  with assms(4) have "ParseOptions d = Inr (BuildConfReq H (handler g'))"
    using assms(5) by (rule confreq_wellformed)
  moreover have "refused (handler g') t"
    using assms(4) reach_refused [OF assms(1,2)] by (rule call_refused)
  ultimately show ?thesis
    by (auto simp: build_refused)
qed

end

subsection \<open>Loops over a request\<close>

text \<open>
  The handlers walk a request with one step per option on their state and the three result lists.
  \<open>fold_opt\<close> is that loop where a step may not return. \<open>one_bucket\<close> says that a step appends to
  exactly one of the lists, the option itself to the acknowledged or the rejected one.
\<close>

type_synonym 'h conf_acc = "'h \<times> ppp_option list \<times> ppp_option list \<times> ppp_option list"

fun fold_opt :: "('a \<Rightarrow> 'b \<Rightarrow> 'a option) \<Rightarrow> 'a \<Rightarrow> 'b list \<Rightarrow> 'a option" where
  "fold_opt step acc [] = Some acc"
| "fold_opt step acc (x # xs) = (case step acc x of None \<Rightarrow> None | Some acc' \<Rightarrow> fold_opt step acc' xs)"

lemma fold_opt_Some: "fold_opt (\<lambda>acc x. Some (step acc x)) acc xs = Some (foldl step acc xs)"
  by (induction xs arbitrary: acc) simp_all

definition one_bucket :: "('h conf_acc \<Rightarrow> ppp_option \<Rightarrow> 'h conf_acc option) \<Rightarrow> bool" where
  "one_bucket step \<longleftrightarrow> (\<forall>h a n r opt acc'. step (h, a, n, r) opt = Some acc' \<longrightarrow>
     (\<exists>h' x. acc' \<in> {(h', a @ [opt], n, r), (h', a, n @ [x], r), (h', a, n, r @ [opt])}))"

lemma one_bucket_fold:
  assumes "one_bucket step" "fold_opt step (h, a, n, r) opts = Some (h', a', n', r')"
  shows "\<exists>xs ys zs. a' = a @ xs \<and> n' = n @ ys \<and> r' = r @ zs \<and> subseq xs opts \<and> subseq zs opts
    \<and> length xs + length ys + length zs = length opts"
  using assms(2)
proof (induction opts arbitrary: h a n r)
  case Nil
  then show ?case by simp
next
  case (Cons opt opts)
  from Cons.prems obtain acc where acc: "step (h, a, n, r) opt = Some acc"
      and rest: "fold_opt step acc opts = Some (h', a', n', r')"
    by (auto split: option.splits)
  from assms(1) acc obtain g x where
      "acc \<in> {(g, a @ [opt], n, r), (g, a, n @ [x], r), (g, a, n, r @ [opt])}"
    unfolding one_bucket_def by blast
  then consider "acc = (g, a @ [opt], n, r)" | "acc = (g, a, n @ [x], r)" | "acc = (g, a, n, r @ [opt])"
    by blast
  then show ?case
  proof cases
    case 1
    with Cons.IH rest obtain xs ys zs where "a' = (a @ [opt]) @ xs" "n' = n @ ys" "r' = r @ zs"
        "subseq xs opts" "subseq zs opts" "length xs + length ys + length zs = length opts"
      by blast
    then show ?thesis
      by (intro exI [of _ "opt # xs"] exI [of _ ys] exI [of _ zs]) auto
  next
    case 2
    with Cons.IH rest obtain xs ys zs where "a' = a @ xs" "n' = (n @ [x]) @ ys" "r' = r @ zs"
        "subseq xs opts" "subseq zs opts" "length xs + length ys + length zs = length opts"
      by blast
    then show ?thesis
      by (intro exI [of _ xs] exI [of _ "x # ys"] exI [of _ zs]) auto
  next
    case 3
    with Cons.IH rest obtain xs ys zs where "a' = a @ xs" "n' = n @ ys" "r' = (r @ [opt]) @ zs"
        "subseq xs opts" "subseq zs opts" "length xs + length ys + length zs = length opts"
      by blast
    then show ?thesis
      by (intro exI [of _ xs] exI [of _ ys] exI [of _ "opt # zs"]) auto
  qed
qed

lemma one_bucket_partition:
  assumes "one_bucket step" "fold_opt step (h, [], [], []) opts = Some (h', ack, nak, rej)"
  shows "subseq ack opts \<and> subseq rej opts \<and> length ack + length nak + length rej = length opts"
  using one_bucket_fold [OF assms] by auto

text \<open>An invariant of the handler state that every step keeps holds after the loop.\<close>

lemma fold_opt_invariant:
  assumes "fold_opt step acc xs = Some acc'" "P acc"
    and "\<And>acc x acc'. P acc \<Longrightarrow> step acc x = Some acc' \<Longrightarrow> P acc'"
  shows "P acc'"
  using assms(1,2) by (induction xs arbitrary: acc) (auto split: option.splits intro: assms(3))

lemma foldl_invariant:
  assumes "P acc" "\<And>acc x. P acc \<Longrightarrow> P (step acc x)"
  shows "P (foldl step acc xs)"
  using assms(1) by (induction xs arbitrary: acc) (simp_all add: assms(2))

end
