(* ===== verification/PPP_LCP.thy ===== *)
theory PPP_LCP
  imports PPP_Handler_Spec
begin

section \<open>LCP\<close>

text \<open>
  \<^verbatim>\<open>pkg/ppp/lcp.go\<close>. The loops over an option list are folds of a step over the handler and the
  named results. The random magic number of the default configuration is an argument.
\<close>

abbreviation (input) LCPOptMRU :: byte where "LCPOptMRU \<equiv> 1"
abbreviation (input) LCPOptAuthProto :: byte where "LCPOptAuthProto \<equiv> 3"
abbreviation (input) LCPOptMagic :: byte where "LCPOptMagic \<equiv> 5"
abbreviation (input) LCPOptPFC :: byte where "LCPOptPFC \<equiv> 7"
abbreviation (input) LCPOptACFC :: byte where "LCPOptACFC \<equiv> 8"

abbreviation (input) CHAPMD5 :: byte where "CHAPMD5 \<equiv> 5"

record LCPConfig =
  MRU :: u16
  Magic :: u32
  AuthProto :: u16
  AuthAlgo :: byte
  WantAuth :: bool

definition zeroLCPConfig :: LCPConfig where
  "zeroLCPConfig = \<lparr>MRU = 0, Magic = 0, AuthProto = 0, AuthAlgo = 0, WantAuth = False\<rparr>"

definition DefaultLCPConfig :: "u32 \<Rightarrow> LCPConfig" where
  "DefaultLCPConfig rnd = zeroLCPConfig\<lparr>MRU := DefaultPPPoEMRU, Magic := rnd\<rparr>"

record LCP =
  lcpLocal :: LCPConfig
  lcpPeer :: LCPConfig
  lcpRejected :: "byte \<Rightarrow> bool"

definition NewLCP :: "u32 \<Rightarrow> LCP" where
  "NewLCP rnd = \<lparr>lcpLocal = DefaultLCPConfig rnd, lcpPeer = zeroLCPConfig, lcpRejected = (\<lambda>_. False)\<rparr>"

definition lcp_SetMagic :: "u32 \<Rightarrow> LCP \<Rightarrow> LCP" where
  "lcp_SetMagic magic l = l\<lparr>lcpLocal := (lcpLocal l)\<lparr>Magic := magic\<rparr>\<rparr>"

definition lcp_SetMRU :: "u16 \<Rightarrow> LCP \<Rightarrow> LCP" where
  "lcp_SetMRU mru l = l\<lparr>lcpLocal := (lcpLocal l)\<lparr>MRU := mru\<rparr>\<rparr>"

definition lcp_SetAuthProto :: "u16 \<Rightarrow> byte \<Rightarrow> LCP \<Rightarrow> LCP" where
  "lcp_SetAuthProto p algo l =
     l\<lparr>lcpLocal := (lcpLocal l)\<lparr>AuthProto := p, AuthAlgo := algo, WantAuth := True\<rparr>\<rparr>"

subsection \<open>Option constructors and accessors\<close>

definition MRUOption :: "u16 \<Rightarrow> ppp_option" where
  "MRUOption mru = \<lparr>oType = LCPOptMRU, oData = put16 mru\<rparr>"

definition MagicOption :: "u32 \<Rightarrow> ppp_option" where
  "MagicOption magic = \<lparr>oType = LCPOptMagic, oData = put32 magic\<rparr>"

definition AuthOption :: "u16 \<Rightarrow> byte \<Rightarrow> ppp_option" where
  "AuthOption p algo =
     (if p = ProtoCHAP then \<lparr>oType = LCPOptAuthProto, oData = put16 p @ [algo]\<rparr>
      else \<lparr>oType = LCPOptAuthProto, oData = put16 p\<rparr>)"

definition ParseMRU :: "ppp_option \<Rightarrow> u16" where
  "ParseMRU opt = (if oType opt = LCPOptMRU \<and> length (oData opt) = 2 then get16 (oData opt) else 0)"

definition ParseMagic :: "ppp_option \<Rightarrow> u32" where
  "ParseMagic opt = (if oType opt = LCPOptMagic \<and> length (oData opt) = 4 then get32 (oData opt) else 0)"

definition ParseAuth :: "ppp_option \<Rightarrow> u16 \<times> byte" where
  "ParseAuth opt =
     (if oType opt = LCPOptAuthProto \<and> 2 \<le> length (oData opt)
      then (get16 (oData opt), if 2 < length (oData opt) then oData opt ! 2 else 0)
      else (0, 0))"

subsection \<open>The handler methods\<close>

definition lcp_BuildConfReq :: "LCP \<Rightarrow> ppp_option list" where
  "lcp_BuildConfReq l =
     (if \<not> lcpRejected l LCPOptMRU then [MRUOption (MRU (lcpLocal l))] else [])
   @ (if \<not> lcpRejected l LCPOptMagic \<and> Magic (lcpLocal l) \<noteq> 0
      then [MagicOption (Magic (lcpLocal l))] else [])
   @ (if \<not> lcpRejected l LCPOptAuthProto \<and> WantAuth (lcpLocal l)
      then [AuthOption (AuthProto (lcpLocal l)) (AuthAlgo (lcpLocal l))] else [])"

fun lcp_confreq_opt :: "LCP conf_acc \<Rightarrow> ppp_option \<Rightarrow> LCP conf_acc" where
  "lcp_confreq_opt (l, ack, nak, rej) opt =
     (if oType opt = LCPOptMRU then
        (if length (oData opt) = 2 then
           (let mru = get16 (oData opt)
            in if mru < 64 then (l, ack, nak @ [MRUOption DefaultPPPoEMRU], rej)
               else (l\<lparr>lcpPeer := (lcpPeer l)\<lparr>MRU := mru\<rparr>\<rparr>, ack @ [opt], nak, rej))
         else (l, ack, nak, rej @ [opt]))
      else if oType opt = LCPOptMagic then
        (if length (oData opt) = 4 then
           (let magic = get32 (oData opt)
            in if magic = Magic (lcpLocal l) \<and> magic \<noteq> 0 then (l, ack, nak @ [opt], rej)
               else (l\<lparr>lcpPeer := (lcpPeer l)\<lparr>Magic := magic\<rparr>\<rparr>, ack @ [opt], nak, rej))
         else (l, ack, nak, rej @ [opt]))
      else if oType opt = LCPOptAuthProto then
        (if 2 \<le> length (oData opt) then
           (let p = get16 (oData opt)
            in if p = ProtoPAP \<or> p = ProtoCHAP
               then (let l = l\<lparr>lcpPeer := (lcpPeer l)\<lparr>AuthProto := p\<rparr>\<rparr>;
                         l = (if 2 < length (oData opt)
                              then l\<lparr>lcpPeer := (lcpPeer l)\<lparr>AuthAlgo := oData opt ! 2\<rparr>\<rparr> else l)
                     in (l, ack @ [opt], nak, rej))
               else (l, ack, nak @ [AuthOption ProtoCHAP CHAPMD5], rej))
         else (l, ack, nak, rej @ [opt]))
      else if oType opt = LCPOptPFC \<or> oType opt = LCPOptACFC then (l, ack, nak, rej @ [opt])
      else (l, ack, nak, rej @ [opt]))"

definition lcp_ProcessConfReq :: "LCP \<Rightarrow> ppp_option list \<Rightarrow> LCP conf_acc" where
  "lcp_ProcessConfReq l opts = foldl lcp_confreq_opt (l, [], [], []) opts"

definition lcp_confack_opt :: "LCP \<Rightarrow> ppp_option \<Rightarrow> LCP" where
  "lcp_confack_opt l opt =
     (if oType opt = LCPOptMRU then
        (if length (oData opt) = 2 then lcp_SetMRU (get16 (oData opt)) l else l)
      else if oType opt = LCPOptMagic then
        (if length (oData opt) = 4 then lcp_SetMagic (get32 (oData opt)) l else l)
      else l)"

definition lcp_ProcessConfAck :: "LCP \<Rightarrow> ppp_option list \<Rightarrow> LCP" where
  "lcp_ProcessConfAck l opts = foldl lcp_confack_opt l opts"

definition lcp_confnak_opt :: "LCP \<Rightarrow> ppp_option \<Rightarrow> LCP" where
  "lcp_confnak_opt l opt =
     (if oType opt = LCPOptMRU then
        (if length (oData opt) = 2 then lcp_SetMRU (get16 (oData opt)) l else l)
      else if oType opt = LCPOptMagic then
        (if length (oData opt) = 4 then lcp_SetMagic (get32 (oData opt)) l else l)
      else if oType opt = LCPOptAuthProto then
        (if 2 \<le> length (oData opt) then
           (let l = l\<lparr>lcpLocal := (lcpLocal l)\<lparr>AuthProto := get16 (oData opt)\<rparr>\<rparr>
            in if 2 < length (oData opt)
               then l\<lparr>lcpLocal := (lcpLocal l)\<lparr>AuthAlgo := oData opt ! 2\<rparr>\<rparr> else l)
         else l)
      else l)"

definition lcp_ProcessConfNak :: "LCP \<Rightarrow> ppp_option list \<Rightarrow> LCP" where
  "lcp_ProcessConfNak l opts = foldl lcp_confnak_opt l opts"

definition lcp_ProcessConfRej :: "LCP \<Rightarrow> ppp_option list \<Rightarrow> LCP" where
  "lcp_ProcessConfRej l opts =
     foldl (\<lambda>l opt. l\<lparr>lcpRejected := (lcpRejected l)(oType opt := True)\<rparr>) l opts"

definition lcp_handler :: "LCP OptionHandler" where
  "lcp_handler = \<lparr>BuildConfReq = lcp_BuildConfReq,
     ProcessConfReq = (\<lambda>l opts. Some (lcp_ProcessConfReq l opts)),
     ProcessConfAck = lcp_ProcessConfAck, ProcessConfNak = lcp_ProcessConfNak,
     ProcessConfRej = lcp_ProcessConfRej\<rparr>"

subsection \<open>Echo\<close>

definition SendEchoReq :: "u32 \<Rightarrow> byte \<Rightarrow> Action" where
  "SendEchoReq magic i = ASend EchoReq i (put32 magic)"

definition HandleEchoReq :: "u32 \<Rightarrow> byte \<Rightarrow> bytes \<Rightarrow> Action option" where
  "HandleEchoReq magic i data =
     (if 4 \<le> length data then Some (ASend EchoRep i (put32 magic @ drop 4 data)) else None)"

definition ParseMAC :: "bytes \<Rightarrow> bytes option" where
  "ParseMAC b = (if length b = 6 then Some b else None)"

subsection \<open>LCP meets the handler contract\<close>

lemma lcp_confreq_one_bucket: "one_bucket (\<lambda>acc opt. Some (lcp_confreq_opt acc opt))"
  by (auto simp: one_bucket_def Let_def)

lemma lcp_ProcessConfReq_fold:
  "Some (lcp_ProcessConfReq l opts) = fold_opt (\<lambda>acc opt. Some (lcp_confreq_opt acc opt)) (l, [], [], []) opts"
  by (simp add: lcp_ProcessConfReq_def fold_opt_Some)

text \<open>A request changes only what is recorded of the peer.\<close>

lemma lcp_ProcessConfReq_local:
  assumes "lcp_ProcessConfReq l opts = (l', ack, nak, rej)"
  shows "lcpLocal l' = lcpLocal l \<and> lcpRejected l' = lcpRejected l"
proof -
  let ?P = "\<lambda>acc :: LCP conf_acc. lcpLocal (fst acc) = lcpLocal l \<and> lcpRejected (fst acc) = lcpRejected l"
  have "?P (foldl lcp_confreq_opt (l, [], [], []) opts)"
    by (rule foldl_invariant [where P = ?P]) (auto simp: Let_def)
  with assms show ?thesis by (simp add: lcp_ProcessConfReq_def)
qed

lemma lcp_confack_opt_sel [simp]:
  "lcpRejected (lcp_confack_opt l opt) = lcpRejected l"
  "WantAuth (lcpLocal (lcp_confack_opt l opt)) = WantAuth (lcpLocal l)"
  by (simp_all add: lcp_confack_opt_def lcp_SetMRU_def lcp_SetMagic_def)

lemma lcp_confnak_opt_sel [simp]:
  "lcpRejected (lcp_confnak_opt l opt) = lcpRejected l"
  "WantAuth (lcpLocal (lcp_confnak_opt l opt)) = WantAuth (lcpLocal l)"
  by (simp_all add: lcp_confnak_opt_def lcp_SetMRU_def lcp_SetMagic_def Let_def)

lemma lcp_ProcessConfAck_sel [simp]:
  "lcpRejected (lcp_ProcessConfAck l opts) = lcpRejected l"
  "WantAuth (lcpLocal (lcp_ProcessConfAck l opts)) = WantAuth (lcpLocal l)"
  unfolding lcp_ProcessConfAck_def by (induction opts arbitrary: l) simp_all

lemma lcp_ProcessConfNak_sel [simp]:
  "lcpRejected (lcp_ProcessConfNak l opts) = lcpRejected l"
  "WantAuth (lcpLocal (lcp_ProcessConfNak l opts)) = WantAuth (lcpLocal l)"
  unfolding lcp_ProcessConfNak_def by (induction opts arbitrary: l) simp_all

lemma lcp_ProcessConfRej_sel [simp]:
  "lcpRejected (lcp_ProcessConfRej l opts) t \<longleftrightarrow> lcpRejected l t \<or> t \<in> oType ` set opts"
  "lcpLocal (lcp_ProcessConfRej l opts) = lcpLocal l"
  unfolding lcp_ProcessConfRej_def by (induction opts arbitrary: l) auto

lemma lcp_options_fit [simp]:
  "option_fits (MRUOption mru)" "option_fits (MagicOption magic)" "option_fits (AuthOption p algo)"
  by (simp_all add: option_fits_def Option_Len_def MRUOption_def MagicOption_def AuthOption_def)

lemma lcp_options_type [simp]:
  "oType (MRUOption mru) = LCPOptMRU" "oType (MagicOption magic) = LCPOptMagic"
  "oType (AuthOption p algo) = LCPOptAuthProto"
  by (simp_all add: MRUOption_def MagicOption_def AuthOption_def)

lemma lcp_handler_sel [simp]:
  "BuildConfReq lcp_handler = lcp_BuildConfReq"
  "ProcessConfReq lcp_handler l opts = Some (lcp_ProcessConfReq l opts)"
  "ProcessConfAck lcp_handler = lcp_ProcessConfAck" "ProcessConfNak lcp_handler = lcp_ProcessConfNak"
  "ProcessConfRej lcp_handler = lcp_ProcessConfRej"
  by (simp_all add: lcp_handler_def)

interpretation lcp: option_handler lcp_handler "\<lambda>_. True" lcpRejected
proof unfold_locales
  fix l opts l' ack nak rej
  assume "ProcessConfReq lcp_handler l opts = Some (l', ack, nak, rej)"
  then show "subseq ack opts \<and> subseq rej opts \<and> length ack + length nak + length rej = length opts"
    using one_bucket_partition [OF lcp_confreq_one_bucket] lcp_ProcessConfReq_fold by simp
next
  fix l opts l' ack nak rej t
  assume "ProcessConfReq lcp_handler l opts = Some (l', ack, nak, rej)" "lcpRejected l t"
  then show "lcpRejected l' t"
    using lcp_ProcessConfReq_local by simp
next
  fix l :: LCP and opt :: ppp_option
  assume "lcpRejected l (oType opt)"
  then show "opt \<notin> set (BuildConfReq lcp_handler l)"
    by (auto simp: lcp_BuildConfReq_def split: if_splits)
qed (auto simp: lcp_BuildConfReq_def)

end
