(* ===== verification/Go_Net.thy ===== *)
theory Go_Net
  imports BNG_Prelude "HOL-Library.List_Lexorder" "HOL-Library.Char_ord"
begin

section \<open>Addresses of Go's standard library\<close>

text \<open>
  What the modelled code uses of \<^verbatim>\<open>net\<close> and \<^verbatim>\<open>net/netip\<close>. A \<^verbatim>\<open>net.IP\<close> is its byte slice (nil is
  \<open>[]\<close>); a \<^verbatim>\<open>netip.Addr\<close> is an invalid address (whose 128-bit value is zero except after \<^verbatim>\<open>Next\<close>), an IPv4
  address, or an IPv6 address with its zone.
\<close>

subsection \<open>net.IP\<close>

definition v4InV6Prefix :: bytes where
  "v4InV6Prefix = [0, 0, 0, 0, 0, 0, 0, 0, 0, 0, 0xff, 0xff]"

definition To4 :: "bytes \<Rightarrow> bytes" where
  "To4 ip = (if length ip = 4 then ip
     else if length ip = 16 \<and> take 12 ip = v4InV6Prefix then drop 12 ip else [])"

definition ip_Equal :: "bytes \<Rightarrow> bytes \<Rightarrow> bool" where
  "ip_Equal a b =
     (if length a = length b then a = b
      else if length a = 4 \<and> length b = 16 then take 12 b = v4InV6Prefix \<and> a = drop 12 b
      else if length a = 16 \<and> length b = 4 then take 12 a = v4InV6Prefix \<and> drop 12 a = b
      else False)"

definition IPv4zero :: bytes where
  "IPv4zero = v4InV6Prefix @ [0, 0, 0, 0]"

definition IPv6unspecified :: bytes where
  "IPv6unspecified = replicate 16 0"

definition IsUnspecified :: "bytes \<Rightarrow> bool" where
  "IsUnspecified ip \<longleftrightarrow> ip_Equal ip IPv4zero \<or> ip_Equal ip IPv6unspecified"

lemma To4_len4 [simp]: "length ip = 4 \<Longrightarrow> To4 ip = ip"
  by (simp add: To4_def)

lemma length_To4: "length (To4 ip) = 4 \<or> To4 ip = []"
  by (auto simp: To4_def)

lemma length_v4InV6Prefix [simp]: "length v4InV6Prefix = 12"
  by (simp add: v4InV6Prefix_def)

lemma ip_Equal_refl [simp]: "ip_Equal a a"
  by (simp add: ip_Equal_def)

lemma ip_Equal_len4: "length a = 4 \<Longrightarrow> length b = 4 \<Longrightarrow> ip_Equal a b \<longleftrightarrow> a = b"
  by (simp add: ip_Equal_def)

lemma ip_Equal_IPv4zero: "length a = 4 \<Longrightarrow> ip_Equal a IPv4zero \<longleftrightarrow> a = [0, 0, 0, 0]"
  by (simp add: ip_Equal_def IPv4zero_def)

lemma IsUnspecified_len4: "length a = 4 \<Longrightarrow> IsUnspecified a \<longleftrightarrow> a = [0, 0, 0, 0]"
  by (simp add: IsUnspecified_def ip_Equal_IPv4zero)
    (auto simp: ip_Equal_def IPv6unspecified_def v4InV6Prefix_def numeral_eq_Suc)

subsection \<open>netip.Addr\<close>

type_synonym u128 = "128 word"

datatype Addr = Z0 u128 | V4 u32 | V6 u128 string

text \<open>The two halves of a 128-bit value, as \<^verbatim>\<open>netip\<close> stores them and \<^verbatim>\<open>As16\<close> writes them.\<close>

definition hi64 :: "u128 \<Rightarrow> u64" where
  "hi64 w = ucast (drop_bit 64 w)"

definition lo64 :: "u128 \<Rightarrow> u64" where
  "lo64 w = ucast w"

definition join64 :: "u64 \<Rightarrow> u64 \<Rightarrow> u128" where
  "join64 hi lo = push_bit 64 (ucast hi) OR ucast lo"

lemma bit_u64_high [simp]: "\<not> bit (w :: u64) (64 + n)"
  by (auto dest: bit_imp_le_length)

lemma join64_parts [simp]: "hi64 (join64 h l) = h" "lo64 (join64 h l) = l"
  by (auto intro!: bit_word_eqI simp: hi64_def lo64_def join64_def bit_simps dest: bit_imp_le_length)

lemma parts_join64 [simp]: "join64 (hi64 w) (lo64 w) = w"
  by (rule bit_word_eqI) (auto simp: hi64_def lo64_def join64_def bit_simps)

fun BitLen :: "Addr \<Rightarrow> nat" where
  "BitLen (Z0 _) = 0"
| "BitLen (V4 _) = 32"
| "BitLen (V6 _ _) = 128"

fun addr_val :: "Addr \<Rightarrow> u128" where
  "addr_val (Z0 w) = w"
| "addr_val (V4 w) = ucast w"
| "addr_val (V6 w _) = w"

fun Zone :: "Addr \<Rightarrow> string" where
  "Zone (V6 _ z) = z"
| "Zone _ = []"

text \<open>\<^verbatim>\<open>Addr.Compare\<close> orders by bit length, value and zone; it is the order of a linear order on addresses.\<close>

instantiation Addr :: linorder
begin

definition less_eq_Addr :: "Addr \<Rightarrow> Addr \<Rightarrow> bool" where
  "less_eq_Addr a b \<longleftrightarrow> BitLen a < BitLen b \<or> BitLen a = BitLen b \<and>
     (addr_val a < addr_val b \<or> addr_val a = addr_val b \<and> Zone a \<le> Zone b)"

definition less_Addr :: "Addr \<Rightarrow> Addr \<Rightarrow> bool" where
  "less_Addr a b \<longleftrightarrow> BitLen a < BitLen b \<or> BitLen a = BitLen b \<and>
     (addr_val a < addr_val b \<or> addr_val a = addr_val b \<and> Zone a < Zone b)"

instance
proof
  fix a b c :: Addr
  show "a < b \<longleftrightarrow> a \<le> b \<and> \<not> b \<le> a" by (auto simp: less_Addr_def less_eq_Addr_def)
  show "a \<le> a" by (simp add: less_eq_Addr_def)
  show "a \<le> b \<Longrightarrow> b \<le> c \<Longrightarrow> a \<le> c" by (auto simp: less_eq_Addr_def)
  show "a \<le> b \<or> b \<le> a" by (auto simp: less_eq_Addr_def)
  assume "a \<le> b" "b \<le> a"
  then have "BitLen a = BitLen b" "addr_val a = addr_val b" "Zone a = Zone b"
    by (auto simp: less_eq_Addr_def)
  moreover have "ucast (ucast v :: u128) = v" for v :: u32
    by (rule bit_word_eqI) (simp add: bit_simps)
  then have "ucast v = (ucast w :: u128) \<Longrightarrow> v = w" for v w :: u32
    by metis
  ultimately show "a = b"
    by (cases a; cases b) simp_all
qed

end

definition Compare :: "Addr \<Rightarrow> Addr \<Rightarrow> int" where
  "Compare a b = (if a < b then - 1 else if a = b then 0 else 1)"

lemma Compare_le_0 [simp]: "Compare a b \<le> 0 \<longleftrightarrow> a \<le> b"
  by (auto simp: Compare_def)

lemma Compare_ge_0 [simp]: "0 \<le> Compare a b \<longleftrightarrow> b \<le> a"
  by (auto simp: Compare_def)

fun Next :: "Addr \<Rightarrow> Addr" where
  "Next (Z0 w) = Z0 (w + 1)"
| "Next (V4 w) = (if w + 1 = 0 then Z0 0 else V4 (w + 1))"
| "Next (V6 w z) = (if w + 1 = 0 then Z0 0 else V6 (w + 1) z)"

definition Is4In6 :: "u128 \<Rightarrow> bool" where
  "Is4In6 w \<longleftrightarrow> hi64 w = 0 \<and> drop_bit 32 (lo64 w) = 0xffff"

fun Unmap :: "Addr \<Rightarrow> Addr" where
  "Unmap (V6 w z) = (if Is4In6 w then V4 (ucast w) else V6 w z)"
| "Unmap a = a"

definition bytes_of_128 :: "u128 \<Rightarrow> bytes" where
  "bytes_of_128 w = put64 (hi64 w) @ put64 (lo64 w)"

definition word_of_16 :: "bytes \<Rightarrow> u128" where
  "word_of_16 bs = join64 (get64 bs) (get64 (drop 8 bs))"

definition AddrFromSlice :: "bytes \<Rightarrow> Addr option" where
  "AddrFromSlice ip = (if length ip = 4 then Some (V4 (get32 ip))
     else if length ip = 16 then Some (V6 (word_of_16 ip) []) else None)"

fun AsSlice :: "Addr \<Rightarrow> bytes" where
  "AsSlice (Z0 _) = []"
| "AsSlice (V4 w) = put32 w"
| "AsSlice (V6 w _) = bytes_of_128 w"

text \<open>\<^verbatim>\<open>As16\<close>: an IPv4 address in its IPv6-mapped form.\<close>

fun As16 :: "Addr \<Rightarrow> bytes" where
  "As16 (Z0 w) = bytes_of_128 w"
| "As16 (V4 w) = v4InV6Prefix @ put32 w"
| "As16 (V6 w _) = bytes_of_128 w"

text \<open>Canonical addresses: what \<^verbatim>\<open>AddrFromSlice(...).Unmap()\<close> returns.\<close>

fun canonical :: "Addr \<Rightarrow> bool" where
  "canonical (Z0 _) = False"
| "canonical (V4 _) = True"
| "canonical (V6 w z) = (\<not> Is4In6 w \<and> z = [])"

lemma length_bytes_of_128 [simp]: "length (bytes_of_128 w) = 16"
  by (simp add: bytes_of_128_def)

lemma get64_put64_nil [simp, codec]: "get64 (put64 w) = w"
  using get64_put64 [of w "[]"] by simp

lemma word_of_16_bytes [simp]: "word_of_16 (bytes_of_128 w) = w"
  by (simp add: word_of_16_def bytes_of_128_def)

lemma AddrFromSlice_AsSlice: "canonical a \<Longrightarrow> map_option Unmap (AddrFromSlice (AsSlice a)) = Some a"
  by (cases a) (simp_all add: AddrFromSlice_def)

lemma canonical_Unmap: "AddrFromSlice ip = Some a \<Longrightarrow> canonical (Unmap a)"
  by (auto simp: AddrFromSlice_def split: if_splits)

lemma put64_0: "put64 0 = [0, 0, 0, 0, 0, 0, 0, 0]"
  by (simp add: put64_def put32_def put16_def)

lemma Is4In6_bytes:
  assumes "Is4In6 w"
  shows "v4InV6Prefix @ put32 (ucast w) = bytes_of_128 w"
proof -
  have "put32 (ucast (drop_bit 32 (lo64 w))) = [0, 0, 0xff, 0xff]"
    using assms by (simp add: Is4In6_def put32_def put16_def)
  moreover have "ucast (lo64 w) = (ucast w :: u32)"
    by (rule bit_word_eqI) (auto simp: lo64_def bit_simps)
  ultimately have "put64 (lo64 w) = [0, 0, 0xff, 0xff] @ put32 (ucast w)"
    by (simp add: put64_def)
  then show ?thesis
    using assms by (simp add: bytes_of_128_def Is4In6_def v4InV6Prefix_def put64_0)
qed

lemma As16_Unmap [simp]: "As16 (Unmap a) = As16 a"
  by (cases a) (simp_all add: Is4In6_bytes)

end
