(* ===== verification/PPP_IPCP.thy ===== *)
theory PPP_IPCP
  imports PPP_Handler_Spec Go_Net
begin

section \<open>IPCP\<close>

text \<open>
  \<^verbatim>\<open>pkg/ppp/ipcp.go\<close>. The peer's authoritative address (from AAA or a pool) is the field
  \<open>PeerAddress\<close> of the peer configuration, as in the source.
\<close>

abbreviation (input) IPCPOptAddresses :: byte where "IPCPOptAddresses \<equiv> 1"
abbreviation (input) IPCPOptCompression :: byte where "IPCPOptCompression \<equiv> 2"
abbreviation (input) IPCPOptAddress :: byte where "IPCPOptAddress \<equiv> 3"
abbreviation (input) IPCPOptPrimaryDNS :: byte where "IPCPOptPrimaryDNS \<equiv> 129"
abbreviation (input) IPCPOptPrimaryNBNS :: byte where "IPCPOptPrimaryNBNS \<equiv> 130"
abbreviation (input) IPCPOptSecondaryDNS :: byte where "IPCPOptSecondaryDNS \<equiv> 131"
abbreviation (input) IPCPOptSecondaryNBNS :: byte where "IPCPOptSecondaryNBNS \<equiv> 132"

record IPCPConfig =
  Address :: bytes
  PrimaryDNS :: bytes
  SecondaryDNS :: bytes
  PeerAddress :: bytes

definition DefaultIPCPConfig :: IPCPConfig where
  "DefaultIPCPConfig = \<lparr>Address = IPv4zero, PrimaryDNS = IPv4zero, SecondaryDNS = IPv4zero,
     PeerAddress = []\<rparr>"

definition zeroIPCPConfig :: IPCPConfig where
  "zeroIPCPConfig = \<lparr>Address = [], PrimaryDNS = [], SecondaryDNS = [], PeerAddress = []\<rparr>"

record IPCP =
  ipcpLocal :: IPCPConfig
  ipcpPeer :: IPCPConfig
  ipcpRejected :: "byte \<Rightarrow> bool"

definition NewIPCP :: IPCP where
  "NewIPCP = \<lparr>ipcpLocal = DefaultIPCPConfig, ipcpPeer = zeroIPCPConfig, ipcpRejected = (\<lambda>_. False)\<rparr>"

definition ipcp_SetAddress :: "bytes \<Rightarrow> IPCP \<Rightarrow> IPCP" where
  "ipcp_SetAddress addr i = i\<lparr>ipcpLocal := (ipcpLocal i)\<lparr>Address := To4 addr\<rparr>\<rparr>"

definition ipcp_SetPeerAddress :: "bytes \<Rightarrow> IPCP \<Rightarrow> IPCP" where
  "ipcp_SetPeerAddress addr i = i\<lparr>ipcpPeer := (ipcpPeer i)\<lparr>PeerAddress := To4 addr\<rparr>\<rparr>"

definition ipcp_SetDNS :: "bytes \<Rightarrow> bytes \<Rightarrow> IPCP \<Rightarrow> IPCP" where
  "ipcp_SetDNS primary secondary i =
     i\<lparr>ipcpLocal := (ipcpLocal i)\<lparr>PrimaryDNS := To4 primary, SecondaryDNS := To4 secondary\<rparr>\<rparr>"

definition isUsableIPv4 :: "bytes \<Rightarrow> bool" where
  "isUsableIPv4 ip = (if ip = [] then False else (let v4 = To4 ip in v4 \<noteq> [] \<and> \<not> IsUnspecified v4))"

definition IPAddressOption :: "bytes \<Rightarrow> ppp_option" where
  "IPAddressOption addr =
     (let ip = To4 addr; ip = (if ip = [] then [0, 0, 0, 0] else ip)
      in \<lparr>oType = IPCPOptAddress, oData = ip\<rparr>)"

definition DNSOption :: "byte \<Rightarrow> bytes \<Rightarrow> ppp_option" where
  "DNSOption optType addr =
     (let ip = To4 addr; ip = (if ip = [] then [0, 0, 0, 0] else ip)
      in \<lparr>oType = optType, oData = ip\<rparr>)"

definition ParseIPAddress :: "ppp_option \<Rightarrow> bytes" where
  "ParseIPAddress opt = (if oType opt = IPCPOptAddress \<and> length (oData opt) = 4 then oData opt else [])"

definition ParseDNS :: "ppp_option \<Rightarrow> bytes" where
  "ParseDNS opt =
     (if (oType opt = IPCPOptPrimaryDNS \<or> oType opt = IPCPOptSecondaryDNS) \<and> length (oData opt) = 4
      then oData opt else [])"

definition ParseCompression :: "ppp_option \<Rightarrow> u16 \<times> bytes" where
  "ParseCompression opt =
     (if oType opt = IPCPOptCompression \<and> 2 \<le> length (oData opt)
      then (get16 (take 2 (oData opt)), drop 2 (oData opt)) else (0, []))"

subsection \<open>The handler methods\<close>

definition ipcp_BuildConfReq :: "IPCP \<Rightarrow> ppp_option list" where
  "ipcp_BuildConfReq i =
     (if \<not> ipcpRejected i IPCPOptAddress \<and> isUsableIPv4 (Address (ipcpLocal i))
      then [IPAddressOption (Address (ipcpLocal i))] else [])
   @ (if \<not> ipcpRejected i IPCPOptPrimaryDNS \<and> isUsableIPv4 (PrimaryDNS (ipcpLocal i))
      then [DNSOption IPCPOptPrimaryDNS (PrimaryDNS (ipcpLocal i))] else [])
   @ (if \<not> ipcpRejected i IPCPOptSecondaryDNS \<and> isUsableIPv4 (SecondaryDNS (ipcpLocal i))
      then [DNSOption IPCPOptSecondaryDNS (SecondaryDNS (ipcpLocal i))] else [])"

fun ipcp_confreq_opt :: "IPCP conf_acc \<Rightarrow> ppp_option \<Rightarrow> IPCP conf_acc" where
  "ipcp_confreq_opt (i, ack, nak, rej) opt =
     (if oType opt = IPCPOptAddress then
        (if length (oData opt) = 4 then
           (let addr = oData opt in
            if isUsableIPv4 (PeerAddress (ipcpPeer i)) \<and> \<not> ip_Equal addr (To4 (PeerAddress (ipcpPeer i)))
            then (i, ack, nak @ [IPAddressOption (PeerAddress (ipcpPeer i))], rej)
            else if ip_Equal addr IPv4zero then (i, ack, nak, rej @ [opt])
            else (i\<lparr>ipcpPeer := (ipcpPeer i)\<lparr>Address := addr\<rparr>\<rparr>, ack @ [opt], nak, rej))
         else (i, ack, nak, rej @ [opt]))
      else if oType opt = IPCPOptPrimaryDNS then
        (if length (oData opt) = 4 then
           (let addr = oData opt in
            if ip_Equal addr IPv4zero \<and> PrimaryDNS (ipcpLocal i) \<noteq> []
               \<and> \<not> ip_Equal (PrimaryDNS (ipcpLocal i)) IPv4zero
            then (i, ack, nak @ [DNSOption IPCPOptPrimaryDNS (PrimaryDNS (ipcpLocal i))], rej)
            else (i\<lparr>ipcpPeer := (ipcpPeer i)\<lparr>PrimaryDNS := addr\<rparr>\<rparr>, ack @ [opt], nak, rej))
         else (i, ack, nak, rej @ [opt]))
      else if oType opt = IPCPOptSecondaryDNS then
        (if length (oData opt) = 4 then
           (let addr = oData opt in
            if ip_Equal addr IPv4zero \<and> SecondaryDNS (ipcpLocal i) \<noteq> []
               \<and> \<not> ip_Equal (SecondaryDNS (ipcpLocal i)) IPv4zero
            then (i, ack, nak @ [DNSOption IPCPOptSecondaryDNS (SecondaryDNS (ipcpLocal i))], rej)
            else (i\<lparr>ipcpPeer := (ipcpPeer i)\<lparr>SecondaryDNS := addr\<rparr>\<rparr>, ack @ [opt], nak, rej))
         else (i, ack, nak, rej @ [opt]))
      else if oType opt = IPCPOptCompression then (i, ack, nak, rej @ [opt])
      else if oType opt = IPCPOptAddresses then (i, ack, nak, rej @ [opt])
      else if oType opt = IPCPOptPrimaryNBNS \<or> oType opt = IPCPOptSecondaryNBNS
      then (i, ack, nak, rej @ [opt])
      else (i, ack, nak, rej @ [opt]))"

definition ipcp_ProcessConfReq :: "IPCP \<Rightarrow> ppp_option list \<Rightarrow> IPCP conf_acc" where
  "ipcp_ProcessConfReq i opts = foldl ipcp_confreq_opt (i, [], [], []) opts"

text \<open>\<^verbatim>\<open>ProcessConfAck\<close> and \<^verbatim>\<open>ProcessConfNak\<close> have the same body in the source.\<close>

definition ipcp_adopt_opt :: "IPCP \<Rightarrow> ppp_option \<Rightarrow> IPCP" where
  "ipcp_adopt_opt i opt =
     (if oType opt = IPCPOptAddress then
        (if length (oData opt) = 4 then i\<lparr>ipcpLocal := (ipcpLocal i)\<lparr>Address := oData opt\<rparr>\<rparr> else i)
      else if oType opt = IPCPOptPrimaryDNS then
        (if length (oData opt) = 4 then i\<lparr>ipcpLocal := (ipcpLocal i)\<lparr>PrimaryDNS := oData opt\<rparr>\<rparr> else i)
      else if oType opt = IPCPOptSecondaryDNS then
        (if length (oData opt) = 4 then i\<lparr>ipcpLocal := (ipcpLocal i)\<lparr>SecondaryDNS := oData opt\<rparr>\<rparr> else i)
      else i)"

definition ipcp_ProcessConfAck :: "IPCP \<Rightarrow> ppp_option list \<Rightarrow> IPCP" where
  "ipcp_ProcessConfAck i opts = foldl ipcp_adopt_opt i opts"

definition ipcp_ProcessConfNak :: "IPCP \<Rightarrow> ppp_option list \<Rightarrow> IPCP" where
  "ipcp_ProcessConfNak i opts = foldl ipcp_adopt_opt i opts"

definition ipcp_ProcessConfRej :: "IPCP \<Rightarrow> ppp_option list \<Rightarrow> IPCP" where
  "ipcp_ProcessConfRej i opts =
     foldl (\<lambda>i opt. i\<lparr>ipcpRejected := (ipcpRejected i)(oType opt := True)\<rparr>) i opts"

definition ipcp_handler :: "IPCP OptionHandler" where
  "ipcp_handler = \<lparr>BuildConfReq = ipcp_BuildConfReq,
     ProcessConfReq = (\<lambda>i opts. Some (ipcp_ProcessConfReq i opts)),
     ProcessConfAck = ipcp_ProcessConfAck, ProcessConfNak = ipcp_ProcessConfNak,
     ProcessConfRej = ipcp_ProcessConfRej\<rparr>"

subsection \<open>IPCP meets the handler contract\<close>

lemma ipcp_confreq_one_bucket: "one_bucket (\<lambda>acc opt. Some (ipcp_confreq_opt acc opt))"
  by (auto simp: one_bucket_def Let_def)

lemma ipcp_ProcessConfReq_fold:
  "Some (ipcp_ProcessConfReq i opts) = fold_opt (\<lambda>acc opt. Some (ipcp_confreq_opt acc opt)) (i, [], [], []) opts"
  by (simp add: ipcp_ProcessConfReq_def fold_opt_Some)

lemma ipcp_ProcessConfReq_local:
  assumes "ipcp_ProcessConfReq i opts = (i', ack, nak, rej)"
  shows "ipcpLocal i' = ipcpLocal i \<and> ipcpRejected i' = ipcpRejected i
    \<and> PeerAddress (ipcpPeer i') = PeerAddress (ipcpPeer i)"
proof -
  let ?P = "\<lambda>acc :: IPCP conf_acc. ipcpLocal (fst acc) = ipcpLocal i \<and>
    ipcpRejected (fst acc) = ipcpRejected i \<and> PeerAddress (ipcpPeer (fst acc)) = PeerAddress (ipcpPeer i)"
  have "?P (foldl ipcp_confreq_opt (i, [], [], []) opts)"
    by (rule foldl_invariant [where P = ?P]) (auto simp: Let_def)
  with assms show ?thesis by (simp add: ipcp_ProcessConfReq_def)
qed

lemma ipcp_adopt_opt_sel [simp]:
  "ipcpRejected (ipcp_adopt_opt i opt) = ipcpRejected i"
  "ipcpPeer (ipcp_adopt_opt i opt) = ipcpPeer i"
  by (simp_all add: ipcp_adopt_opt_def)

lemma ipcp_adopt_sel [simp]:
  "ipcpRejected (foldl ipcp_adopt_opt i opts) = ipcpRejected i"
  "ipcpPeer (foldl ipcp_adopt_opt i opts) = ipcpPeer i"
  by (induction opts arbitrary: i) simp_all

lemma ipcp_ProcessConfRej_sel [simp]:
  "ipcpRejected (ipcp_ProcessConfRej i opts) t \<longleftrightarrow> ipcpRejected i t \<or> t \<in> oType ` set opts"
  "ipcpLocal (ipcp_ProcessConfRej i opts) = ipcpLocal i"
  "ipcpPeer (ipcp_ProcessConfRej i opts) = ipcpPeer i"
  unfolding ipcp_ProcessConfRej_def by (induction opts arbitrary: i) auto

lemma ipcp_options_type [simp]:
  "oType (IPAddressOption addr) = IPCPOptAddress" "oType (DNSOption t addr) = t"
  by (simp_all add: IPAddressOption_def DNSOption_def Let_def)

lemma ipcp_options_fit [simp]: "option_fits (IPAddressOption addr)" "option_fits (DNSOption t addr)"
  using length_To4 [of addr]
  by (auto simp: option_fits_def Option_Len_def IPAddressOption_def DNSOption_def Let_def)

lemma ipcp_handler_sel [simp]:
  "BuildConfReq ipcp_handler = ipcp_BuildConfReq"
  "ProcessConfReq ipcp_handler i opts = Some (ipcp_ProcessConfReq i opts)"
  "ProcessConfAck ipcp_handler = ipcp_ProcessConfAck" "ProcessConfNak ipcp_handler = ipcp_ProcessConfNak"
  "ProcessConfRej ipcp_handler = ipcp_ProcessConfRej"
  by (simp_all add: ipcp_handler_def)

interpretation ipcp: option_handler ipcp_handler "\<lambda>_. True" ipcpRejected
proof unfold_locales
  fix i opts i' ack nak rej
  assume "ProcessConfReq ipcp_handler i opts = Some (i', ack, nak, rej)"
  then show "subseq ack opts \<and> subseq rej opts \<and> length ack + length nak + length rej = length opts"
    using one_bucket_partition [OF ipcp_confreq_one_bucket] ipcp_ProcessConfReq_fold by simp
next
  fix i opts i' ack nak rej t
  assume "ProcessConfReq ipcp_handler i opts = Some (i', ack, nak, rej)" "ipcpRejected i t"
  then show "ipcpRejected i' t"
    using ipcp_ProcessConfReq_local by simp
next
  fix i :: IPCP and opt :: ppp_option
  assume "ipcpRejected i (oType opt)"
  then show "opt \<notin> set (BuildConfReq ipcp_handler i)"
    by (auto simp: ipcp_BuildConfReq_def split: if_splits)
qed (auto simp: ipcp_BuildConfReq_def ipcp_ProcessConfAck_def ipcp_ProcessConfNak_def)

subsection \<open>Address assignment\<close>

text \<open>
  With an authoritative address for the peer, the only address option IPCP acknowledges is that
  address, and it records no other address for the peer.
\<close>

definition addr_invariant :: "bytes \<Rightarrow> bytes \<Rightarrow> IPCP conf_acc \<Rightarrow> bool" where
  "addr_invariant pa old acc = (case acc of (i, ack, _, _) \<Rightarrow>
     PeerAddress (ipcpPeer i) = pa \<and> Address (ipcpPeer i) \<in> {old, To4 pa} \<and>
     (\<forall>opt \<in> set ack. oType opt = IPCPOptAddress \<longrightarrow> oData opt = To4 pa))"

lemma isUsable_To4: "isUsableIPv4 pa \<Longrightarrow> length (To4 pa) = 4"
  using length_To4 [of pa] by (auto simp: isUsableIPv4_def split: if_splits)

lemma ipcp_confreq_addr_step:
  assumes "isUsableIPv4 pa" "addr_invariant pa old acc"
  shows "addr_invariant pa old (ipcp_confreq_opt acc opt)"
  using assms isUsable_To4 [OF assms(1)]
  by (cases acc) (auto simp: addr_invariant_def Let_def ip_Equal_len4)

lemma ipcp_ProcessConfReq_addr:
  assumes "isUsableIPv4 (PeerAddress (ipcpPeer i))" "ipcp_ProcessConfReq i opts = (i', ack, nak, rej)"
  shows "Address (ipcpPeer i') \<in> {Address (ipcpPeer i), To4 (PeerAddress (ipcpPeer i))}
    \<and> (\<forall>opt \<in> set ack. oType opt = IPCPOptAddress \<longrightarrow> oData opt = To4 (PeerAddress (ipcpPeer i)))"
proof -
  let ?P = "addr_invariant (PeerAddress (ipcpPeer i)) (Address (ipcpPeer i))"
  have "?P (i, [], [], [])"
    by (simp add: addr_invariant_def)
  then have "?P (foldl ipcp_confreq_opt (i, [], [], []) opts)"
    by (rule foldl_invariant [where P = ?P]) (rule ipcp_confreq_addr_step [OF assms(1)])
  with assms(2) show ?thesis
    by (simp add: ipcp_ProcessConfReq_def addr_invariant_def)
qed

end
