(* ===== verification/PPP_IPv6CP.thy ===== *)
theory PPP_IPv6CP
  imports PPP_Handler_Spec
begin

section \<open>IPv6CP\<close>

text \<open>
  \<^verbatim>\<open>pkg/ppp/ipv6cp.go\<close>. An interface identifier is a list of eight bytes. The random source is part
  of the handler state: \<open>rng n\<close> is the n-th eight-byte read of \<^verbatim>\<open>crypto/rand\<close> and \<open>rpos\<close> the
  number of reads so far. \<open>generatePeerInterfaceID\<close> draws until the draw differs from the local
  identifier, so it returns \<open>None\<close> exactly when that never happens.
\<close>

abbreviation (input) IPv6CPOptInterfaceID :: byte where "IPv6CPOptInterfaceID \<equiv> 1"

record IPv6CP =
  localID :: bytes
  peerID :: bytes
  v6Rejected :: "byte \<Rightarrow> bool"
  rng :: "nat \<Rightarrow> bytes"
  rpos :: nat

text \<open>\<^verbatim>\<open>id[0] &= 0xFD\<close>\<close>

fun clearUL :: "bytes \<Rightarrow> bytes" where
  "clearUL [] = []"
| "clearUL (b # bs) = (b AND 0xFD) # bs"

definition IPv6CPConfigFromMAC :: "bytes \<Rightarrow> bytes" where
  "IPv6CPConfigFromMAC mac =
     (if length mac = 6
      then [(mac ! 0) XOR 2, mac ! 1, mac ! 2, 0xFF, 0xFE, mac ! 3, mac ! 4, mac ! 5]
      else replicate 8 0)"

definition NewIPv6CP :: "(nat \<Rightarrow> bytes) \<Rightarrow> IPv6CP" where
  "NewIPv6CP rnd = \<lparr>localID = clearUL (rnd 0), peerID = replicate 8 0, v6Rejected = (\<lambda>_. False),
     rng = rnd, rpos = 1\<rparr>"

definition SetInterfaceID :: "bytes \<Rightarrow> IPv6CP \<Rightarrow> IPv6CP" where
  "SetInterfaceID iid i = i\<lparr>localID := iid\<rparr>"

definition InterfaceIDOption :: "bytes \<Rightarrow> ppp_option" where
  "InterfaceIDOption iid = \<lparr>oType = IPv6CPOptInterfaceID, oData = iid\<rparr>"

definition ParseInterfaceID :: "ppp_option \<Rightarrow> bytes" where
  "ParseInterfaceID opt =
     (if oType opt = IPv6CPOptInterfaceID \<and> length (oData opt) = 8 then oData opt else replicate 8 0)"

definition MakeLinkLocalAddress :: "bytes \<Rightarrow> bytes" where
  "MakeLinkLocalAddress iid = [0xFE, 0x80, 0, 0, 0, 0, 0, 0] @ iid"

definition ParseIPv6CPPacket :: "bytes \<Rightarrow> ppp_error + byte \<times> byte \<times> bytes" where
  "ParseIPv6CPPacket data =
     (if length data < 4 then Inl ErrShortPacket
      else (let len = unat (get16 (drop 2 data)) in
        if length data < len then Inl ErrShortPacket
        else if len < 4 then Inl PanicSliceBounds
        else Inr (data ! 0, data ! 1, drop 4 (take len data))))"

partial_function (option) generatePeerInterfaceID :: "(nat \<Rightarrow> bytes) \<Rightarrow> nat \<Rightarrow> bytes \<Rightarrow> (bytes \<times> nat) option" where
  "generatePeerInterfaceID rnd pos loc =
     (let peer = clearUL (rnd pos)
      in if peer = loc then generatePeerInterfaceID rnd (Suc pos) loc else Some (peer, Suc pos))"

subsection \<open>The handler methods\<close>

definition v6_BuildConfReq :: "IPv6CP \<Rightarrow> ppp_option list" where
  "v6_BuildConfReq i = (if \<not> v6Rejected i IPv6CPOptInterfaceID then [InterfaceIDOption (localID i)] else [])"

definition nak_generated :: "IPv6CP conf_acc \<Rightarrow> IPv6CP conf_acc option" where
  "nak_generated acc = (case acc of (i, ack, nak, rej) \<Rightarrow>
     (case generatePeerInterfaceID (rng i) (rpos i) (localID i) of None \<Rightarrow> None
      | Some (suggested, pos) \<Rightarrow> Some (i\<lparr>rpos := pos\<rparr>, ack, nak @ [InterfaceIDOption suggested], rej)))"

definition v6_confreq_opt :: "IPv6CP conf_acc \<Rightarrow> ppp_option \<Rightarrow> IPv6CP conf_acc option" where
  "v6_confreq_opt acc opt = (case acc of (i, ack, nak, rej) \<Rightarrow>
     (if oType opt = IPv6CPOptInterfaceID then
        (if length (oData opt) = 8 then
           (let iid = oData opt;
                isZero = list_all (\<lambda>b. b = 0) iid;
                localZero = list_all (\<lambda>b. b = 0) (localID i)
            in if isZero \<and> localZero then Some (i, ack, nak, rej @ [opt])
               else if isZero then nak_generated acc
               else if iid = localID i then nak_generated acc
               else Some (i\<lparr>peerID := iid\<rparr>, ack @ [opt], nak, rej))
         else Some (i, ack, nak, rej @ [opt]))
      else Some (i, ack, nak, rej @ [opt])))"

definition v6_ProcessConfReq :: "IPv6CP \<Rightarrow> ppp_option list \<Rightarrow> IPv6CP conf_acc option" where
  "v6_ProcessConfReq i opts = fold_opt v6_confreq_opt (i, [], [], []) opts"

text \<open>\<^verbatim>\<open>ProcessConfAck\<close> and \<^verbatim>\<open>ProcessConfNak\<close> have the same body in the source.\<close>

definition v6_adopt_opt :: "IPv6CP \<Rightarrow> ppp_option \<Rightarrow> IPv6CP" where
  "v6_adopt_opt i opt =
     (if oType opt = IPv6CPOptInterfaceID then
        (if length (oData opt) = 8 then i\<lparr>localID := oData opt\<rparr> else i)
      else i)"

definition v6_ProcessConfAck :: "IPv6CP \<Rightarrow> ppp_option list \<Rightarrow> IPv6CP" where
  "v6_ProcessConfAck i opts = foldl v6_adopt_opt i opts"

definition v6_ProcessConfNak :: "IPv6CP \<Rightarrow> ppp_option list \<Rightarrow> IPv6CP" where
  "v6_ProcessConfNak i opts = foldl v6_adopt_opt i opts"

definition v6_ProcessConfRej :: "IPv6CP \<Rightarrow> ppp_option list \<Rightarrow> IPv6CP" where
  "v6_ProcessConfRej i opts =
     foldl (\<lambda>i opt. i\<lparr>v6Rejected := (v6Rejected i)(oType opt := True)\<rparr>) i opts"

definition ipv6cp_handler :: "IPv6CP OptionHandler" where
  "ipv6cp_handler = \<lparr>BuildConfReq = v6_BuildConfReq, ProcessConfReq = v6_ProcessConfReq,
     ProcessConfAck = v6_ProcessConfAck, ProcessConfNak = v6_ProcessConfNak,
     ProcessConfRej = v6_ProcessConfRej\<rparr>"

definition v6_inv :: "IPv6CP \<Rightarrow> bool" where
  "v6_inv i \<longleftrightarrow> length (localID i) = 8 \<and> length (peerID i) = 8"

subsection \<open>The random identifier loop\<close>

lemma generatePeerInterfaceID_Some:
  assumes "generatePeerInterfaceID rnd pos loc = Some r"
  shows "fst r \<noteq> loc \<and> pos < snd r \<and> fst r = clearUL (rnd (snd r - 1))"
  using assms
proof (rule generatePeerInterfaceID.raw_induct
    [where P = "\<lambda>rnd pos loc r. fst r \<noteq> loc \<and> pos < snd r \<and> fst r = clearUL (rnd (snd r - 1))", rotated])
  fix f :: "(nat \<Rightarrow> bytes) \<Rightarrow> nat \<Rightarrow> bytes \<Rightarrow> (bytes \<times> nat) option"
    and rnd :: "nat \<Rightarrow> bytes" and pos loc r
  assume IH: "\<And>rnd pos loc r. f rnd pos loc = Some r \<Longrightarrow>
      fst r \<noteq> loc \<and> pos < snd r \<and> fst r = clearUL (rnd (snd r - 1))"
    and eq: "(let peer = clearUL (rnd pos) in
      if peer = loc then f rnd (Suc pos) loc else Some (peer, Suc pos)) = Some r"
  show "fst r \<noteq> loc \<and> pos < snd r \<and> fst r = clearUL (rnd (snd r - 1))"
    using eq IH [of rnd "Suc pos" loc r] by (auto simp: Let_def split: if_splits)
qed

lemma generatePeerInterfaceID_returns:
  assumes "pos \<le> n" "clearUL (rnd n) \<noteq> loc"
  shows "\<exists>r. generatePeerInterfaceID rnd pos loc = Some r"
  using assms(1)
proof (induction "n - pos" arbitrary: pos)
  case 0
  with assms(2) show ?case
    by (simp add: generatePeerInterfaceID.simps [of rnd pos])
next
  case (Suc k)
  then have "\<exists>r. generatePeerInterfaceID rnd (Suc pos) loc = Some r"
    by simp
  then show ?case
    by (simp add: generatePeerInterfaceID.simps [of rnd pos] Let_def)
qed

subsection \<open>IPv6CP meets the handler contract\<close>

lemma v6_confreq_one_bucket: "one_bucket v6_confreq_opt"
  by (auto simp: one_bucket_def v6_confreq_opt_def nak_generated_def Let_def
      split: option.splits if_splits)

lemma v6_confreq_opt_keeps:
  assumes "v6_confreq_opt (i, ack, nak, rej) opt = Some (i', acc)"
  shows "v6Rejected i' = v6Rejected i \<and> localID i' = localID i \<and> rng i' = rng i \<and> (v6_inv i \<longrightarrow> v6_inv i')"
  using assms
  by (auto simp: v6_confreq_opt_def nak_generated_def v6_inv_def Let_def split: option.splits if_splits)

lemma v6_ProcessConfReq_keeps:
  assumes "v6_ProcessConfReq i opts = Some (i', ack, nak, rej)"
  shows "v6Rejected i' = v6Rejected i \<and> localID i' = localID i \<and> rng i' = rng i \<and> (v6_inv i \<longrightarrow> v6_inv i')"
proof -
  let ?P = "\<lambda>acc :: IPv6CP conf_acc. v6Rejected (fst acc) = v6Rejected i \<and> localID (fst acc) = localID i
    \<and> rng (fst acc) = rng i \<and> (v6_inv i \<longrightarrow> v6_inv (fst acc))"
  have "?P (i', ack, nak, rej)"
    using assms unfolding v6_ProcessConfReq_def
  proof (rule fold_opt_invariant [where P = ?P])
    fix acc opt acc'
    assume "?P acc" "v6_confreq_opt acc opt = Some acc'"
    then show "?P acc'"
      by (cases acc; cases acc') (auto dest: v6_confreq_opt_keeps)
  qed simp
  then show ?thesis by simp
qed

lemma v6_adopt_opt_sel [simp]:
  "v6Rejected (v6_adopt_opt i opt) = v6Rejected i" "v6_inv i \<Longrightarrow> v6_inv (v6_adopt_opt i opt)"
  by (simp_all add: v6_adopt_opt_def v6_inv_def)

lemma v6_adopt_sel [simp]:
  "v6Rejected (foldl v6_adopt_opt i opts) = v6Rejected i"
  "v6_inv i \<Longrightarrow> v6_inv (foldl v6_adopt_opt i opts)"
  by (induction opts arbitrary: i) simp_all

lemma v6_ProcessConfRej_sel [simp]:
  "v6Rejected (v6_ProcessConfRej i opts) t \<longleftrightarrow> v6Rejected i t \<or> t \<in> oType ` set opts"
  "v6_inv (v6_ProcessConfRej i opts) = v6_inv i"
  unfolding v6_ProcessConfRej_def v6_inv_def by (induction opts arbitrary: i) auto

lemma ipv6cp_handler_sel [simp]:
  "BuildConfReq ipv6cp_handler = v6_BuildConfReq"
  "ProcessConfReq ipv6cp_handler = v6_ProcessConfReq"
  "ProcessConfAck ipv6cp_handler = v6_ProcessConfAck" "ProcessConfNak ipv6cp_handler = v6_ProcessConfNak"
  "ProcessConfRej ipv6cp_handler = v6_ProcessConfRej"
  by (simp_all add: ipv6cp_handler_def)

interpretation ipv6cp: option_handler ipv6cp_handler v6_inv v6Rejected
proof unfold_locales
  fix i opts i' ack nak rej
  assume "ProcessConfReq ipv6cp_handler i opts = Some (i', ack, nak, rej)"
  then show "subseq ack opts \<and> subseq rej opts \<and> length ack + length nak + length rej = length opts"
    using one_bucket_partition [OF v6_confreq_one_bucket] by (simp add: v6_ProcessConfReq_def)
next
  fix i opts i' ack nak rej
  assume "v6_inv i" "ProcessConfReq ipv6cp_handler i opts = Some (i', ack, nak, rej)"
  then show "v6_inv i'" using v6_ProcessConfReq_keeps by simp
next
  fix i opts i' ack nak rej t
  assume "ProcessConfReq ipv6cp_handler i opts = Some (i', ack, nak, rej)" "v6Rejected i t"
  then show "v6Rejected i' t" using v6_ProcessConfReq_keeps by simp
next
  fix i and opt :: ppp_option
  assume "v6_inv i" "opt \<in> set (BuildConfReq ipv6cp_handler i)"
  then show "option_fits opt"
    by (auto simp: v6_BuildConfReq_def v6_inv_def InterfaceIDOption_def option_fits_def Option_Len_def
        split: if_splits)
next
  fix i :: IPv6CP and opt :: ppp_option
  assume "v6Rejected i (oType opt)"
  then show "opt \<notin> set (BuildConfReq ipv6cp_handler i)"
    by (auto simp: v6_BuildConfReq_def InterfaceIDOption_def)
qed (simp_all add: v6_ProcessConfAck_def v6_ProcessConfNak_def)

text \<open>
  A request is answered whenever the random source ever yields an identifier other than the local
  one, whatever the request.
\<close>

definition source_varies :: "IPv6CP \<Rightarrow> bool" where
  "source_varies i \<longleftrightarrow> (\<forall>pos. \<exists>n \<ge> pos. clearUL (rng i n) \<noteq> localID i)"

lemma v6_confreq_opt_returns:
  assumes "source_varies (fst acc)"
  shows "\<exists>acc'. v6_confreq_opt acc opt = Some acc' \<and> source_varies (fst acc')"
proof -
  obtain i ack nak rej where acc: "acc = (i, ack, nak, rej)" by (rule prod_cases4)
  from assms acc obtain n where "rpos i \<le> n" "clearUL (rng i n) \<noteq> localID i"
    by (auto simp: source_varies_def)
  then obtain r where "generatePeerInterfaceID (rng i) (rpos i) (localID i) = Some r"
    using generatePeerInterfaceID_returns by blast
  then have "\<exists>acc'. v6_confreq_opt acc opt = Some acc'"
    by (cases r) (auto simp: acc v6_confreq_opt_def nak_generated_def Let_def)
  then obtain i' ack' nak' rej' where s: "v6_confreq_opt acc opt = Some (i', ack', nak', rej')"
    by (metis prod_cases4)
  with v6_confreq_opt_keeps [of i ack nak rej opt i'] acc assms
  have "source_varies i'" by (simp add: source_varies_def)
  with s show ?thesis by auto
qed

lemma v6_ProcessConfReq_returns:
  assumes "source_varies i"
  shows "v6_ProcessConfReq i opts \<noteq> None"
proof -
  have "fold_opt v6_confreq_opt acc opts \<noteq> None" if "source_varies (fst acc)" for acc
    using that
  proof (induction opts arbitrary: acc)
    case (Cons opt opts)
    from v6_confreq_opt_returns [OF Cons.prems, of opt] obtain acc' where
      "v6_confreq_opt acc opt = Some acc'" "source_varies (fst acc')" by blast
    with Cons.IH show ?case by simp
  qed simp
  with assms show ?thesis by (simp add: v6_ProcessConfReq_def)
qed

end
