(* ===== verification/MD5.thy ===== *)
theory MD5
  imports BNG_Prelude
begin

section \<open>MD5\<close>

text \<open>
  \<^verbatim>\<open>crypto/md5\<close> of the Go standard library, as RFC 1321 defines it: the compression function with its
  table of 64 constants, the padding, and the digest of a byte string. CHAP responses, L2TP tunnel
  authentication and L2TP hidden attributes are computed with it. One digest of the RFC's test
  suite is evaluated at the end.
\<close>

definition md5_K :: "u32 list" where
  "md5_K =
     [0xd76aa478, 0xe8c7b756, 0x242070db, 0xc1bdceee, 0xf57c0faf, 0x4787c62a,
      0xa8304613, 0xfd469501, 0x698098d8, 0x8b44f7af, 0xffff5bb1, 0x895cd7be,
      0x6b901122, 0xfd987193, 0xa679438e, 0x49b40821, 0xf61e2562, 0xc040b340,
      0x265e5a51, 0xe9b6c7aa, 0xd62f105d, 0x02441453, 0xd8a1e681, 0xe7d3fbc8,
      0x21e1cde6, 0xc33707d6, 0xf4d50d87, 0x455a14ed, 0xa9e3e905, 0xfcefa3f8,
      0x676f02d9, 0x8d2a4c8a, 0xfffa3942, 0x8771f681, 0x6d9d6122, 0xfde5380c,
      0xa4beea44, 0x4bdecfa9, 0xf6bb4b60, 0xbebfbc70, 0x289b7ec6, 0xeaa127fa,
      0xd4ef3085, 0x04881d05, 0xd9d4d039, 0xe6db99e5, 0x1fa27cf8, 0xc4ac5665,
      0xf4292244, 0x432aff97, 0xab9423a7, 0xfc93a039, 0x655b59c3, 0x8f0ccc92,
      0xffeff47d, 0x85845dd1, 0x6fa87e4f, 0xfe2ce6e0, 0xa3014314, 0x4e0811a1,
      0xf7537e82, 0xbd3af235, 0x2ad7d2bb, 0xeb86d391]"

definition md5_S :: "nat list" where
  "md5_S = concat (replicate 4 [7, 12, 17, 22]) @ concat (replicate 4 [5, 9, 14, 20])
     @ concat (replicate 4 [4, 11, 16, 23]) @ concat (replicate 4 [6, 10, 15, 21])"

type_synonym md5_state = "u32 \<times> u32 \<times> u32 \<times> u32"

definition rotl32 :: "nat \<Rightarrow> u32 \<Rightarrow> u32" where
  "rotl32 n w = push_bit n w OR drop_bit (32 - n) w"

definition md5_round :: "u32 list \<Rightarrow> md5_state \<Rightarrow> nat \<Rightarrow> md5_state" where
  "md5_round m s i = (case s of (a, b, c, d) \<Rightarrow>
     let (f, g) =
       (if i < 16 then ((b AND c) OR (NOT b AND d), i)
        else if i < 32 then ((d AND b) OR (NOT d AND c), (5 * i + 1) mod 16)
        else if i < 48 then (b XOR c XOR d, (3 * i + 5) mod 16)
        else (c XOR (b OR NOT d), (7 * i) mod 16))
     in (d, b + rotl32 (md5_S ! i) (a + f + md5_K ! i + m ! g), b, c))"

definition le_bytes32 :: "u32 \<Rightarrow> bytes" where
  "le_bytes32 w = [ucast w, ucast (drop_bit 8 w), ucast (drop_bit 16 w), ucast (drop_bit 24 w)]"

definition le_bytes64 :: "u64 \<Rightarrow> bytes" where
  "le_bytes64 w = le_bytes32 (ucast w) @ le_bytes32 (ucast (drop_bit 32 w))"

definition le_word :: "bytes \<Rightarrow> u32" where
  "le_word bs = foldr (\<lambda>b acc. push_bit 8 acc OR ucast b) bs 0"

definition md5_words :: "bytes \<Rightarrow> u32 list" where
  "md5_words blk = map (\<lambda>i. le_word (take 4 (drop (4 * i) blk))) [0..<16]"

definition md5_compress :: "md5_state \<Rightarrow> bytes \<Rightarrow> md5_state" where
  "md5_compress s blk =
     (case (s, foldl (md5_round (md5_words blk)) s [0..<64]) of
        ((a, b, c, d), (a', b', c', d')) \<Rightarrow> (a + a', b + b', c + c', d + d'))"

definition md5_pad :: "bytes \<Rightarrow> bytes" where
  "md5_pad msg = msg @ [0x80] @ replicate ((119 - length msg mod 64) mod 64) 0
     @ le_bytes64 (8 * of_nat (length msg))"

function md5_blocks :: "bytes \<Rightarrow> bytes list" where
  "md5_blocks msg = (if msg = [] then [] else take 64 msg # md5_blocks (drop 64 msg))"
  by pat_completeness auto
termination
  by (relation "measure length") auto

declare md5_blocks.simps [simp del]

definition md5 :: "bytes \<Rightarrow> bytes" where
  "md5 msg =
     (case foldl md5_compress (0x67452301, 0xefcdab89, 0x98badcfe, 0x10325476) (md5_blocks (md5_pad msg)) of
        (a, b, c, d) \<Rightarrow> le_bytes32 a @ le_bytes32 b @ le_bytes32 c @ le_bytes32 d)"

lemma length_le_bytes [simp]: "length (le_bytes32 w) = 4" "length (le_bytes64 w') = 8"
  by (simp_all add: le_bytes32_def le_bytes64_def)

lemma length_md5 [simp]: "length (md5 msg) = 16"
  by (simp add: md5_def split: prod.split)

text \<open>The padded message is a whole number of blocks.\<close>

lemma md5_pad_blocks: "64 dvd length (md5_pad msg)"
proof -
  define r where "r = length msg mod 64"
  have "r < 64" by (simp add: r_def)
  then have "r + 1 + (119 - r) mod 64 + 8 = (if r \<le> 55 then 64 else 128)"
    by (auto simp: mod_if)
  moreover have "length msg = 64 * (length msg div 64) + r" by (simp add: r_def)
  ultimately have "length (md5_pad msg) = 64 * (length msg div 64) + (if r \<le> 55 then 64 else 128)"
    unfolding md5_pad_def r_def [symmetric] by simp
  then show ?thesis by simp
qed

lemma md5_abc:
  "md5 [0x61, 0x62, 0x63] =
     [0x90, 0x01, 0x50, 0x98, 0x3c, 0xd2, 0x4f, 0xb0, 0xd6, 0x96, 0x3f, 0x7d, 0x28, 0xe1, 0x7f, 0x72]"
  by code_simp

end
