(* ===== verification/PPP_Auth.thy ===== *)
theory PPP_Auth
  imports PPP_Options MD5
begin

section \<open>PAP and CHAP\<close>

text \<open>
  \<^verbatim>\<open>pkg/ppp/auth.go\<close>. Go strings are byte strings, so names, passwords and messages are \<open>bytes\<close>; the
  literal messages are written with \<open>go_string\<close>. A handler's callbacks are part of its record: a
  nil \<^verbatim>\<open>Validate\<close> or \<^verbatim>\<open>GetSecret\<close> is \<open>None\<close>, \<^verbatim>\<open>OnResult\<close> only matters in whether it is set, and a
  method returns the calls it makes in order.
\<close>

definition go_string :: "string \<Rightarrow> bytes" where
  "go_string s = map of_char s"

datatype auth_call = AuthSend byte byte bytes | AuthResult bool bytes

abbreviation (input) PAPAuthReq :: byte where "PAPAuthReq \<equiv> 1"
abbreviation (input) PAPAuthAck :: byte where "PAPAuthAck \<equiv> 2"
abbreviation (input) PAPAuthNak :: byte where "PAPAuthNak \<equiv> 3"
abbreviation (input) CHAPChallenge :: byte where "CHAPChallenge \<equiv> 1"
abbreviation (input) CHAPResponse :: byte where "CHAPResponse \<equiv> 2"
abbreviation (input) CHAPSuccess :: byte where "CHAPSuccess \<equiv> 3"
abbreviation (input) CHAPFailure :: byte where "CHAPFailure \<equiv> 4"

subsection \<open>PAP\<close>

record PAPHandler =
  Validate :: "(bytes \<Rightarrow> bytes \<Rightarrow> bool) option"
  papOnResult :: bool

definition SendAuthReq :: "byte \<Rightarrow> bytes \<Rightarrow> bytes \<Rightarrow> auth_call list" where
  "SendAuthReq i username password =
     [AuthSend PAPAuthReq i
        ([of_nat (length username)] @ username @ [of_nat (length password)] @ password)]"

definition sendAuthAck :: "byte \<Rightarrow> bytes \<Rightarrow> auth_call list" where
  "sendAuthAck i msg = [AuthSend PAPAuthAck i (of_nat (length msg) # msg)]"

definition sendAuthNak :: "byte \<Rightarrow> bytes \<Rightarrow> auth_call list" where
  "sendAuthNak i msg = [AuthSend PAPAuthNak i (of_nat (length msg) # msg)]"

definition HandleAuthReq :: "PAPHandler \<Rightarrow> byte \<Rightarrow> bytes \<Rightarrow> auth_call list" where
  "HandleAuthReq p i data =
     (if length data < 2 then sendAuthNak i (go_string ''malformed request'')
      else (let userLen = unat (data ! 0) in
        if length data < 1 + userLen + 1 then sendAuthNak i (go_string ''malformed request'')
        else (let username = drop 1 (take (1 + userLen) data); passLen = unat (data ! (1 + userLen)) in
          if length data < 2 + userLen + passLen then sendAuthNak i (go_string ''malformed request'')
          else (let password = drop (2 + userLen) (take (2 + userLen + passLen) data) in
            if (case Validate p of None \<Rightarrow> False | Some valid \<Rightarrow> valid username password)
            then sendAuthAck i (go_string ''authentication successful'')
            else sendAuthNak i (go_string ''authentication failed'')))))"

definition papMessage :: "bytes \<Rightarrow> bytes" where
  "papMessage data =
     (if 0 < length data then
        (let msgLen = unat (data ! 0) in
         if msgLen < length data then drop 1 (take (1 + msgLen) data) else [])
      else [])"

definition HandleAuthAck :: "PAPHandler \<Rightarrow> byte \<Rightarrow> bytes \<Rightarrow> auth_call list" where
  "HandleAuthAck p i data = (if papOnResult p then [AuthResult True (papMessage data)] else [])"

definition HandleAuthNak :: "PAPHandler \<Rightarrow> byte \<Rightarrow> bytes \<Rightarrow> auth_call list" where
  "HandleAuthNak p i data = (if papOnResult p then [AuthResult False (papMessage data)] else [])"

subsection \<open>CHAP\<close>

record CHAPHandler =
  GetSecret :: "(bytes \<Rightarrow> bytes) option"
  chapOnResult :: bool
  LocalName :: bytes
  LocalSecret :: bytes

definition SendChallenge :: "byte \<Rightarrow> bytes \<Rightarrow> bytes \<Rightarrow> auth_call list" where
  "SendChallenge i challenge name =
     [AuthSend CHAPChallenge i ([of_nat (length challenge)] @ challenge @ name)]"

definition computeMD5Response :: "byte \<Rightarrow> bytes \<Rightarrow> bytes \<Rightarrow> bytes" where
  "computeMD5Response i challenge secret = md5 ([i] @ secret @ challenge)"

definition HandleChallenge :: "CHAPHandler \<Rightarrow> byte \<Rightarrow> bytes \<Rightarrow> auth_call list" where
  "HandleChallenge c i data =
     (if length data < 1 then []
      else (let valueLen = unat (data ! 0) in
        if length data < 1 + valueLen then []
        else (let challenge = drop 1 (take (1 + valueLen) data);
                  response = computeMD5Response i challenge (LocalSecret c)
              in [AuthSend CHAPResponse i ([of_nat (length response)] @ response @ LocalName c)])))"

fun constantTimeCompare_loop :: "byte \<Rightarrow> bytes \<Rightarrow> bytes \<Rightarrow> byte" where
  "constantTimeCompare_loop result (a # as) (b # bs) =
     constantTimeCompare_loop (result OR (a XOR b)) as bs"
| "constantTimeCompare_loop result _ _ = result"

definition constantTimeCompare :: "bytes \<Rightarrow> bytes \<Rightarrow> bool" where
  "constantTimeCompare a b =
     (if length a \<noteq> length b then False else constantTimeCompare_loop 0 a b = 0)"

definition chapResult :: "CHAPHandler \<Rightarrow> bool \<Rightarrow> bytes \<Rightarrow> auth_call list" where
  "chapResult c ok msg = (if chapOnResult c then [AuthResult ok msg] else [])"

definition sendSuccess :: "byte \<Rightarrow> bytes \<Rightarrow> auth_call list" where
  "sendSuccess i msg = [AuthSend CHAPSuccess i msg]"

definition sendFailure :: "byte \<Rightarrow> bytes \<Rightarrow> auth_call list" where
  "sendFailure i msg = [AuthSend CHAPFailure i msg]"

definition HandleResponse :: "CHAPHandler \<Rightarrow> byte \<Rightarrow> bytes \<Rightarrow> bytes \<Rightarrow> auth_call list" where
  "HandleResponse c i data challenge =
     (if length data < 1 then sendFailure i (go_string ''malformed response'')
      else (let valueLen = unat (data ! 0) in
        if length data < 1 + valueLen then sendFailure i (go_string ''malformed response'')
        else (let response = drop 1 (take (1 + valueLen) data);
                  name = drop (1 + valueLen) data;
                  secret = (case GetSecret c of None \<Rightarrow> [] | Some get \<Rightarrow> get name);
                  expected = computeMD5Response i challenge secret
              in if length response = length expected \<and> constantTimeCompare response expected
                 then sendSuccess i (go_string ''authentication successful'')
                   @ chapResult c True (go_string ''authentication successful'')
                 else sendFailure i (go_string ''authentication failed'')
                   @ chapResult c False (go_string ''authentication failed''))))"

definition HandleSuccess :: "CHAPHandler \<Rightarrow> byte \<Rightarrow> bytes \<Rightarrow> auth_call list" where
  "HandleSuccess c i data = chapResult c True data"

definition HandleFailure :: "CHAPHandler \<Rightarrow> byte \<Rightarrow> bytes \<Rightarrow> auth_call list" where
  "HandleFailure c i data = chapResult c False data"

subsection \<open>Packet framing\<close>

definition ParsePAPPacket :: "bytes \<Rightarrow> ppp_error + byte \<times> byte \<times> bytes" where
  "ParsePAPPacket data =
     (if length data < 4 then Inl ErrShortPacket
      else (let len = unat (get16 (drop 2 data)) in
        if length data < len then Inl ErrShortPacket
        else if len < 4 then Inl PanicSliceBounds
        else Inr (data ! 0, data ! 1, drop 4 (take len data))))"

definition ParseCHAPPacket :: "bytes \<Rightarrow> ppp_error + byte \<times> byte \<times> bytes" where
  "ParseCHAPPacket data =
     (if length data < 4 then Inl ErrShortPacket
      else (let len = unat (get16 (drop 2 data)) in
        if length data < len then Inl ErrShortPacket
        else if len < 4 then Inl PanicSliceBounds
        else Inr (data ! 0, data ! 1, drop 4 (take len data))))"

subsection \<open>The comparison\<close>

lemma constantTimeCompare_loop_zero:
  "length a = length b \<Longrightarrow> constantTimeCompare_loop r a b = 0 \<longleftrightarrow> r = 0 \<and> a = b"
  by (induction r a b rule: constantTimeCompare_loop.induct)
    (auto simp: word_or_eq_0 word_xor_eq_0)

lemma constantTimeCompare_eq [simp]: "constantTimeCompare a b \<longleftrightarrow> a = b"
  by (auto simp: constantTimeCompare_def constantTimeCompare_loop_zero)

lemma length_computeMD5Response [simp]: "length (computeMD5Response i ch s) = 16"
  by (simp add: computeMD5Response_def)

subsection \<open>Which inputs authenticate\<close>

text \<open>The wire form of a PAP request and of a CHAP response; both are accepted with trailing bytes.\<close>

definition pap_request :: "bytes \<Rightarrow> bytes \<Rightarrow> bytes" where
  "pap_request u p = [of_nat (length u)] @ u @ [of_nat (length p)] @ p"

definition chap_response :: "bytes \<Rightarrow> bytes \<Rightarrow> bytes" where
  "chap_response value name = [of_nat (length value)] @ value @ name"

lemma counted_split:
  assumes "unat n \<le> length xs"
  obtains us vs where "xs = us @ vs" "n = of_nat (length us)" "length us < 256" "unat (n :: byte) = length us"
proof
  show "xs = take (unat n) xs @ drop (unat n) xs" by simp
  show "n = of_nat (length (take (unat n) xs))" using assms by simp
  show "length (take (unat n) xs) < 256" using assms unat_byte_less [of n] by simp
  show "unat n = length (take (unat n) xs)" using assms by simp
qed

lemma HandleAuthReq_request:
  assumes "length u < 256" "length pw < 256"
  shows "HandleAuthReq p i (pap_request u pw @ rest) =
    (if (case Validate p of None \<Rightarrow> False | Some valid \<Rightarrow> valid u pw)
     then sendAuthAck i (go_string ''authentication successful'')
     else sendAuthNak i (go_string ''authentication failed''))"
  using assms
  by (simp add: HandleAuthReq_def pap_request_def Let_def unat_of_nat_byte nth_append)

lemma pap_request_cases:
  obtains (malformed) "HandleAuthReq p i data = sendAuthNak i (go_string ''malformed request'')"
  | (request) u pw rest where "data = pap_request u pw @ rest" "length u < 256" "length pw < 256"
proof (cases data)
  case (Cons n xs)
  show ?thesis
  proof (cases "length xs < unat n + 1")
    case True
    then show ?thesis by (intro malformed) (simp add: HandleAuthReq_def Cons Let_def)
  next
    case False
    then obtain us vs where u: "xs = us @ vs" "n = of_nat (length us)" "length us < 256" "unat n = length us"
      using counted_split [of n xs] by auto
    with False obtain m ys where v: "vs = m # ys" by (cases vs) auto
    show ?thesis
    proof (cases "length ys < unat m")
      case True
      then show ?thesis
        by (intro malformed) (simp add: HandleAuthReq_def Cons Let_def u(1,4) v nth_append)
    next
      case False
      then obtain ws rest where "ys = ws @ rest" "m = of_nat (length ws)" "length ws < 256"
        by (metis counted_split not_less)
      with u v Cons show ?thesis by (intro request [of us ws rest]) (simp_all add: pap_request_def)
    qed
  qed
qed (simp add: malformed HandleAuthReq_def)

lemma HandleResponse_response:
  assumes "length r < 256"
  shows "HandleResponse c i (chap_response r name) ch =
    (if r = computeMD5Response i ch (case GetSecret c of None \<Rightarrow> [] | Some get \<Rightarrow> get name)
     then sendSuccess i (go_string ''authentication successful'')
       @ chapResult c True (go_string ''authentication successful'')
     else sendFailure i (go_string ''authentication failed'')
       @ chapResult c False (go_string ''authentication failed''))"
  using assms
  by (simp add: HandleResponse_def chap_response_def Let_def unat_of_nat_byte)

lemma chap_response_cases:
  obtains (malformed) "HandleResponse c i data ch = sendFailure i (go_string ''malformed response'')"
  | (response) r name where "data = chap_response r name" "length r < 256"
proof (cases data)
  case (Cons n xs)
  show ?thesis
  proof (cases "length xs < unat n")
    case True
    then show ?thesis by (intro malformed) (simp add: HandleResponse_def Cons Let_def)
  next
    case False
    then obtain us vs where "xs = us @ vs" "n = of_nat (length us)" "length us < 256"
      by (metis counted_split not_less)
    with Cons show ?thesis by (intro response [of us vs]) (simp_all add: chap_response_def)
  qed
qed (simp add: malformed HandleResponse_def)

lemma HandleChallenge_reply:
  assumes "length ch < 256"
  shows "HandleChallenge c i (chap_response ch name) =
    [AuthSend CHAPResponse i (chap_response (computeMD5Response i ch (LocalSecret c)) (LocalName c))]"
  using assms by (simp add: HandleChallenge_def chap_response_def Let_def unat_of_nat_byte)

end
