(* ===== verification/PPP_TimeWheel.thy ===== *)
theory PPP_TimeWheel
  imports BNG_Prelude "HOL-Library.AList" "HOL-Library.Multiset"
begin

section \<open>The echo time wheel\<close>

text \<open>
  \<^verbatim>\<open>pkg/ppp/timewheel.go\<close>. The buckets hold pointers to echo states, and \<^verbatim>\<open>UpdateLastSeen\<close> writes
  through them, so the states live in a store \<open>heap\<close> from addresses to \<open>EchoState\<close>. A Go map is an
  association list with distinct keys; \<^verbatim>\<open>Tick\<close> returns the states in some order, and the statements
  below only use the set of what it returns. An operation that would panic (a division by zero or an
  index out of range) returns \<open>None\<close>. The clock reading of \<^verbatim>\<open>time.Now()\<close> is an argument.
\<close>

record EchoState =
  SessionID :: u16
  Magic :: u32
  LastEchoID :: byte
  MissCount :: int
  LastSeen :: int
  DstMAC :: bytes
  SrcMAC :: bytes
  OuterVLAN :: u16
  InnerVLAN :: u16

type_synonym addr = nat

record TimeWheel =
  buckets :: "(u16 \<times> addr) list list"
  current :: nat
  numBuckets :: nat
  stopped :: bool
  heap :: "addr \<Rightarrow> EchoState"

text \<open>\<^verbatim>\<open>fnv.New32a\<close> over the two bytes of the session id, low byte first.\<close>

definition fnv32a :: "bytes \<Rightarrow> u32" where
  "fnv32a bs = foldl (\<lambda>h b. (h XOR ucast b) * 16777619) 2166136261 bs"

definition hashSessionID :: "u16 \<Rightarrow> nat \<Rightarrow> nat option" where
  "hashSessionID sid n =
     (if n = 0 then None
      else Some (nat (uint (fnv32a [ucast sid, ucast (drop_bit 8 sid)]) mod int n)))"

definition NewTimeWheel :: "nat \<Rightarrow> (addr \<Rightarrow> EchoState) \<Rightarrow> TimeWheel" where
  "NewTimeWheel n h = \<lparr>buckets = replicate n [], current = 0, numBuckets = n, stopped = False, heap = h\<rparr>"

definition tw_Add :: "u16 \<Rightarrow> addr \<Rightarrow> TimeWheel \<Rightarrow> TimeWheel option" where
  "tw_Add sid p tw = (case hashSessionID sid (numBuckets tw) of None \<Rightarrow> None
     | Some b \<Rightarrow> Some (tw\<lparr>buckets := (buckets tw)[b := AList.update sid p (buckets tw ! b)]\<rparr>))"

definition AddToBucket :: "int \<Rightarrow> addr \<Rightarrow> TimeWheel \<Rightarrow> TimeWheel option" where
  "AddToBucket bucket p tw =
     (if int (numBuckets tw) \<le> bucket \<and> numBuckets tw = 0 then None
      else (let b = (if int (numBuckets tw) \<le> bucket then bucket mod int (numBuckets tw) else bucket) in
        if b < 0 then None
        else Some (tw\<lparr>buckets := (buckets tw)
               [nat b := AList.update (SessionID (heap tw p)) p (buckets tw ! nat b)]\<rparr>)))"

definition tw_Remove :: "u16 \<Rightarrow> TimeWheel \<Rightarrow> TimeWheel option" where
  "tw_Remove sid tw = (case hashSessionID sid (numBuckets tw) of None \<Rightarrow> None
     | Some b \<Rightarrow> Some (tw\<lparr>buckets := (buckets tw)[b := AList.delete sid (buckets tw ! b)]\<rparr>))"

text \<open>The inner option of \<open>tw_Get\<close> is Go's nil pointer for an absent key.\<close>

definition tw_Get :: "u16 \<Rightarrow> TimeWheel \<Rightarrow> addr option option" where
  "tw_Get sid tw = (case hashSessionID sid (numBuckets tw) of None \<Rightarrow> None
     | Some b \<Rightarrow> Some (map_of (buckets tw ! b) sid))"

definition UpdateLastSeen :: "int \<Rightarrow> u16 \<Rightarrow> TimeWheel \<Rightarrow> TimeWheel option" where
  "UpdateLastSeen now sid tw = (case hashSessionID sid (numBuckets tw) of None \<Rightarrow> None
     | Some b \<Rightarrow> (case map_of (buckets tw ! b) sid of None \<Rightarrow> Some tw
         | Some p \<Rightarrow> Some (tw\<lparr>heap := (heap tw)(p := (heap tw p)\<lparr>LastSeen := now, MissCount := 0\<rparr>)\<rparr>)))"

definition tw_Tick :: "TimeWheel \<Rightarrow> (addr list \<times> TimeWheel) option" where
  "tw_Tick tw =
     (if length (buckets tw) \<le> current tw \<or> numBuckets tw = 0 then None
      else Some (map snd (buckets tw ! current tw), tw\<lparr>current := (current tw + 1) mod numBuckets tw\<rparr>))"

text \<open>\<^verbatim>\<open>Stop\<close> also says whether it closed the stop channel, which a second close would panic on.\<close>

definition tw_Stop :: "TimeWheel \<Rightarrow> bool \<times> TimeWheel" where
  "tw_Stop tw = (if stopped tw then (False, tw) else (True, tw\<lparr>stopped := True\<rparr>))"

definition tw_Count :: "TimeWheel \<Rightarrow> nat" where
  "tw_Count tw = sum_list (map length (buckets tw))"

fun ticks :: "nat \<Rightarrow> TimeWheel \<Rightarrow> (addr list list \<times> TimeWheel) option" where
  "ticks 0 tw = Some ([], tw)"
| "ticks (Suc n) tw = (case tw_Tick tw of None \<Rightarrow> None
     | Some (ps, tw') \<Rightarrow> (case ticks n tw' of None \<Rightarrow> None | Some (pss, tw'') \<Rightarrow> Some (ps # pss, tw'')))"

subsection \<open>Well-formed wheels\<close>

definition wheel_ok :: "TimeWheel \<Rightarrow> bool" where
  "wheel_ok tw \<longleftrightarrow> 0 < numBuckets tw \<and> length (buckets tw) = numBuckets tw \<and> current tw < numBuckets tw
     \<and> (\<forall>b \<in> set (buckets tw). distinct (map fst b))"

text \<open>Every entry is in the bucket its session id hashes to; \<open>AddToBucket\<close> does not keep this.\<close>

definition wheel_hashed :: "TimeWheel \<Rightarrow> bool" where
  "wheel_hashed tw \<longleftrightarrow> (\<forall>b < numBuckets tw. \<forall>sid \<in> fst ` set (buckets tw ! b).
     hashSessionID sid (numBuckets tw) = Some b)"

lemma hashSessionID_total:
  assumes "0 < n"
  obtains b where "hashSessionID sid n = Some b" "b < n"
  using assms by (auto simp: hashSessionID_def nat_less_iff)

lemma NewTimeWheel_ok: "0 < n \<Longrightarrow> wheel_ok (NewTimeWheel n h) \<and> wheel_hashed (NewTimeWheel n h)"
  by (auto simp: wheel_ok_def wheel_hashed_def NewTimeWheel_def)

lemma wheel_ok_upd:
  assumes "wheel_ok tw" "distinct (map fst bk)"
  shows "wheel_ok (tw\<lparr>buckets := (buckets tw)[b := bk]\<rparr>)"
  using assms set_update_subset_insert [of "buckets tw" b bk] by (auto simp: wheel_ok_def)

lemma wheel_hashed_upd:
  assumes "wheel_ok tw" "wheel_hashed tw"
    and "\<And>sid. sid \<in> fst ` set bk \<Longrightarrow> hashSessionID sid (numBuckets tw) = Some b"
  shows "wheel_hashed (tw\<lparr>buckets := (buckets tw)[b := bk]\<rparr>)"
  unfolding wheel_hashed_def
proof (intro allI impI ballI)
  fix c sid
  let ?tw = "tw\<lparr>buckets := (buckets tw)[b := bk]\<rparr>"
  assume "c < numBuckets ?tw" "sid \<in> fst ` set (buckets ?tw ! c)"
  with assms show "hashSessionID sid (numBuckets ?tw) = Some c"
    unfolding wheel_hashed_def wheel_ok_def by (cases "c = b") auto
qed

text \<open>What \<open>tw_Get\<close> finds, on a wheel with at least one bucket.\<close>

definition tw_lookup :: "TimeWheel \<Rightarrow> u16 \<Rightarrow> addr option" where
  "tw_lookup tw sid = Option.bind (tw_Get sid tw) id"

definition wheel_inv :: "TimeWheel \<Rightarrow> bool" where
  "wheel_inv tw \<longleftrightarrow> wheel_ok tw \<and> wheel_hashed tw"

lemma tw_lookup_eq:
  "hashSessionID sid (numBuckets tw) = Some b \<Longrightarrow> tw_lookup tw sid = map_of (buckets tw ! b) sid"
  by (simp add: tw_lookup_def tw_Get_def)

lemma tw_upd_lookup:
  assumes inv: "wheel_inv tw" and b: "hashSessionID sid (numBuckets tw) = Some b" "b < numBuckets tw"
    and bk: "map_of bk = (map_of (buckets tw ! b))(sid := v)" "distinct (map fst bk)"
      "fst ` set bk \<subseteq> insert sid (fst ` set (buckets tw ! b))"
  shows "wheel_inv (tw\<lparr>buckets := (buckets tw)[b := bk]\<rparr>) \<and>
    tw_lookup (tw\<lparr>buckets := (buckets tw)[b := bk]\<rparr>) = (tw_lookup tw)(sid := v)"
proof
  have ok: "wheel_ok tw" and hs: "wheel_hashed tw" using inv by (simp_all add: wheel_inv_def)
  have "hashSessionID s (numBuckets tw) = Some b" if "s \<in> fst ` set bk" for s
    using that bk(3) b hs unfolding wheel_hashed_def by blast
  then show "wheel_inv (tw\<lparr>buckets := (buckets tw)[b := bk]\<rparr>)"
    using ok hs bk(2) by (simp add: wheel_inv_def wheel_ok_upd wheel_hashed_upd)
  show "tw_lookup (tw\<lparr>buckets := (buckets tw)[b := bk]\<rparr>) = (tw_lookup tw)(sid := v)"
  proof
    fix s
    have "0 < numBuckets tw" using ok by (simp add: wheel_ok_def)
    then obtain c where "hashSessionID s (numBuckets tw) = Some c" "c < numBuckets tw"
      by (rule hashSessionID_total)
    with ok b bk(1) show "tw_lookup (tw\<lparr>buckets := (buckets tw)[b := bk]\<rparr>) s = ((tw_lookup tw)(sid := v)) s"
      by (auto simp: tw_lookup_eq wheel_ok_def nth_list_update)
  qed
qed

lemma wheel_inv_hash:
  assumes "wheel_inv tw"
  obtains b where "hashSessionID sid (numBuckets tw) = Some b" "b < numBuckets tw"
    "distinct (map fst (buckets tw ! b))"
proof -
  from assms have "0 < numBuckets tw" by (simp add: wheel_inv_def wheel_ok_def)
  then obtain b where "hashSessionID sid (numBuckets tw) = Some b" "b < numBuckets tw"
    by (rule hashSessionID_total)
  with assms that show ?thesis by (auto simp: wheel_inv_def wheel_ok_def)
qed

lemma tw_Add_lookup:
  assumes "wheel_inv tw"
  shows "\<exists>tw'. tw_Add sid p tw = Some tw' \<and> wheel_inv tw' \<and> tw_lookup tw' = (tw_lookup tw)(sid \<mapsto> p)"
proof -
  from assms obtain b where b: "hashSessionID sid (numBuckets tw) = Some b" "b < numBuckets tw"
    "distinct (map fst (buckets tw ! b))" by (rule wheel_inv_hash)
  then show ?thesis
    using tw_upd_lookup [OF assms b(1,2), of "AList.update sid p (buckets tw ! b)" "Some p"]
    by (simp add: tw_Add_def update_conv' distinct_update dom_update)
qed

lemma tw_Remove_lookup:
  assumes "wheel_inv tw"
  shows "\<exists>tw'. tw_Remove sid tw = Some tw' \<and> wheel_inv tw' \<and> tw_lookup tw' = (tw_lookup tw)(sid := None)"
proof -
  from assms obtain b where b: "hashSessionID sid (numBuckets tw) = Some b" "b < numBuckets tw"
    "distinct (map fst (buckets tw ! b))" by (rule wheel_inv_hash)
  then show ?thesis
    using tw_upd_lookup [OF assms b(1,2), of "AList.delete sid (buckets tw ! b)" None]
      dom_delete_subset [of sid "buckets tw ! b"]
    by (auto simp: tw_Remove_def delete_conv' distinct_delete)
qed

subsection \<open>The wheel is a map from session ids to states\<close>

text \<open>
  A store with the usual operations, each of which may fail; under the store's invariant none does,
  and any sequence of operations acts on \<open>lookup\<close> as on a plain map.
\<close>

datatype ('k, 'v) map_op = Put 'k 'v | Del 'k

fun abs_op :: "('k \<rightharpoonup> 'v) \<Rightarrow> ('k, 'v) map_op \<Rightarrow> ('k \<rightharpoonup> 'v)" where
  "abs_op m (Put k v) = m(k \<mapsto> v)"
| "abs_op m (Del k) = m(k := None)"

primrec run_ops :: "('k \<Rightarrow> 'v \<Rightarrow> 's \<Rightarrow> 's option) \<Rightarrow> ('k \<Rightarrow> 's \<Rightarrow> 's option) \<Rightarrow> ('k, 'v) map_op list \<Rightarrow> 's \<Rightarrow> 's option" where
  "run_ops put del [] s = Some s"
| "run_ops put del (op # ops) s =
     Option.bind (case op of Put k v \<Rightarrow> put k v s | Del k \<Rightarrow> del k s) (run_ops put del ops)"

locale keyed_store =
  fixes inv :: "'s \<Rightarrow> bool" and lookup :: "'s \<Rightarrow> 'k \<rightharpoonup> 'v"
    and put :: "'k \<Rightarrow> 'v \<Rightarrow> 's \<Rightarrow> 's option" and del :: "'k \<Rightarrow> 's \<Rightarrow> 's option"
  assumes put_law: "inv s \<Longrightarrow> \<exists>s'. put k v s = Some s' \<and> inv s' \<and> lookup s' = (lookup s)(k \<mapsto> v)"
    and del_law: "inv s \<Longrightarrow> \<exists>s'. del k s = Some s' \<and> inv s' \<and> lookup s' = (lookup s)(k := None)"
begin

lemma run_refines:
  "inv s \<Longrightarrow> \<exists>s'. run_ops put del ops s = Some s' \<and> inv s' \<and> lookup s' = foldl abs_op (lookup s) ops"
proof (induction ops arbitrary: s)
  case (Cons op ops)
  have "\<exists>t. (case op of Put k v \<Rightarrow> put k v s | Del k \<Rightarrow> del k s) = Some t \<and> inv t \<and> lookup t = abs_op (lookup s) op"
    using put_law [OF Cons.prems] del_law [OF Cons.prems] by (cases op) simp_all
  then obtain t where "(case op of Put k v \<Rightarrow> put k v s | Del k \<Rightarrow> del k s) = Some t" "inv t"
    "lookup t = abs_op (lookup s) op" by blast
  with Cons.IH [of t] show ?case by simp
qed simp

end

interpretation wheel: keyed_store wheel_inv tw_lookup tw_Add tw_Remove
  by unfold_locales (rule tw_Add_lookup, assumption, rule tw_Remove_lookup, assumption)

subsection \<open>One revolution\<close>

lemma ticks_step:
  assumes "wheel_ok tw"
  shows "tw_Tick tw = Some (map snd (buckets tw ! current tw), tw\<lparr>current := (current tw + 1) mod numBuckets tw\<rparr>)
    \<and> wheel_ok (tw\<lparr>current := (current tw + 1) mod numBuckets tw\<rparr>)"
  using assms by (auto simp: wheel_ok_def tw_Tick_def)

lemma ticks_eq:
  "wheel_ok tw \<Longrightarrow> ticks n tw =
     Some (map (\<lambda>i. map snd (buckets tw ! ((current tw + i) mod numBuckets tw))) [0..<n],
       tw\<lparr>current := (current tw + n) mod numBuckets tw\<rparr>)"
proof (induction n arbitrary: tw)
  case 0
  then show ?case by (simp add: wheel_ok_def)
next
  case (Suc n)
  let ?tw = "tw\<lparr>current := (current tw + 1) mod numBuckets tw\<rparr>"
  have c: "(current ?tw + i) mod numBuckets tw = (current tw + Suc i) mod numBuckets tw" for i
    by (simp add: mod_add_left_eq)
  have z: "(current tw + 0) mod numBuckets tw = current tw"
    using Suc.prems by (simp add: wheel_ok_def)
  show ?case
    using Suc.IH [of ?tw] ticks_step [OF Suc.prems] c z
    by (simp add: upt_conv_Cons map_Suc_upt [symmetric] del: upt_Suc)
qed

lemma ticks_revolution:
  assumes "wheel_ok tw"
  shows "ticks (numBuckets tw) tw = Some (rotate (current tw) (map (map snd) (buckets tw)), tw)"
proof -
  have n: "length (buckets tw) = numBuckets tw" "current tw < numBuckets tw"
    using assms by (simp_all add: wheel_ok_def)
  have "map (\<lambda>i. map snd (buckets tw ! ((current tw + i) mod numBuckets tw))) [0..<numBuckets tw]
      = rotate (current tw) (map (map snd) (buckets tw))"
    using n by (intro nth_equalityI) (simp_all add: nth_rotate add.commute)
  with n show ?thesis by (simp add: ticks_eq [OF assms])
qed

end
