(* ===== verification/PPP_Dispatcher.thy ===== *)
theory PPP_Dispatcher
  imports PPP_LCP PPP_IPCP PPP_IPv6CP
begin

section \<open>The PPP frame dispatcher\<close>

text \<open>
  \<^verbatim>\<open>internal/ppp/dispatcher.go\<close>. A nil pointer or callback is \<open>None\<close> (or \<open>False\<close> for a callback of
  which only the call matters), the host's callbacks are recorded in the order they are made, and the
  error a host callback returns is its own type \<open>'e\<close>. \<open>FramePanic\<close> is Go's runtime panic for a slice
  expression whose bounds cross, \<open>FrameLoops\<close> an FSM call that does not return.
\<close>

abbreviation (input) ProtoIPv6 :: u16 where "ProtoIPv6 \<equiv> 0x0057"

record 'e Dispatcher =
  dLCP :: "LCP FSM option"
  dIPCP :: "IPCP FSM option"
  dIPv6CP :: "IPv6CP FSM option"
  PhaseFn :: "Phase option"
  HandlePAP :: "(byte \<Rightarrow> byte \<Rightarrow> bytes \<Rightarrow> 'e option) option"
  HandleCHAP :: "(byte \<Rightarrow> byte \<Rightarrow> bytes \<Rightarrow> 'e option) option"
  OnEchoReq :: bool
  OnEchoRep :: bool
  OnProtocolReject :: bool
  SendProtocolReject :: bool
  HandleIPv6 :: "(bytes \<Rightarrow> 'e option) option"

datatype host_call = HPAP byte byte bytes | HCHAP byte byte bytes | HEchoReq byte bytes | HEchoRep byte bytes
  | HProtocolReject u16 | HSendProtocolReject u16 bytes | HIPv6 bytes

datatype 'e frame_result = ErrFrameShort | ErrFrameLengthMismatch | FramePanic | FrameLoops
  | FrameDone "'e Dispatcher" "host_call list" "'e option"

definition inNetworkPhase :: "'e Dispatcher \<Rightarrow> bool" where
  "inNetworkPhase d = (case PhaseFn d of None \<Rightarrow> True | Some p \<Rightarrow> p = PhaseNetwork \<or> p = PhaseOpen)"

definition handleLCP :: "'e Dispatcher \<Rightarrow> byte \<Rightarrow> byte \<Rightarrow> bytes \<Rightarrow> 'e frame_result" where
  "handleLCP d code i data =
     (if code = EchoReq then FrameDone d (if OnEchoReq d then [HEchoReq i data] else []) None
      else if code = EchoRep then FrameDone d (if OnEchoRep d then [HEchoRep i data] else []) None
      else if code = ProtoRej then
        FrameDone d (if 2 \<le> length data \<and> OnProtocolReject d then [HProtocolReject (get16 data)] else []) None
      else (case dLCP d of None \<Rightarrow> FrameDone d [] None
        | Some f \<Rightarrow> (case Input lcp_handler code i data f of None \<Rightarrow> FrameLoops
            | Some f' \<Rightarrow> FrameDone (d\<lparr>dLCP := Some f'\<rparr>) [] None)))"

text \<open>The \<^verbatim>\<open>switch proto\<close> of \<^verbatim>\<open>HandleFrame\<close>.\<close>

definition routeFrame :: "'e Dispatcher \<Rightarrow> u16 \<Rightarrow> byte \<Rightarrow> byte \<Rightarrow> bytes \<Rightarrow> bytes \<Rightarrow> 'e frame_result" where
  "routeFrame d pr code i data payload =
     (if pr = ProtoLCP then handleLCP d code i data
      else if pr = ProtoPAP then
        (case HandlePAP d of None \<Rightarrow> FrameDone d [] None
         | Some h \<Rightarrow> FrameDone d [HPAP code i data] (h code i data))
      else if pr = ProtoCHAP then
        (case HandleCHAP d of None \<Rightarrow> FrameDone d [] None
         | Some h \<Rightarrow> FrameDone d [HCHAP code i data] (h code i data))
      else if pr = ProtoIPCP then
        (case dIPCP d of None \<Rightarrow> FrameDone d [] None
         | Some f \<Rightarrow> (if \<not> inNetworkPhase d then FrameDone d [] None
             else (case Input ipcp_handler code i data f of None \<Rightarrow> FrameLoops
               | Some f' \<Rightarrow> FrameDone (d\<lparr>dIPCP := Some f'\<rparr>) [] None)))
      else if pr = ProtoIPv6CP then
        (case dIPv6CP d of None \<Rightarrow> FrameDone d [] None
         | Some f \<Rightarrow> (if \<not> inNetworkPhase d then FrameDone d [] None
             else (case Input ipv6cp_handler code i data f of None \<Rightarrow> FrameLoops
               | Some f' \<Rightarrow> FrameDone (d\<lparr>dIPv6CP := Some f'\<rparr>) [] None)))
      else FrameDone d (if SendProtocolReject d then [HSendProtocolReject pr payload] else []) None)"

definition HandleFrame :: "'e Dispatcher \<Rightarrow> u16 \<Rightarrow> bytes \<Rightarrow> 'e frame_result" where
  "HandleFrame d pr payload =
     (if pr = ProtoIPv6 then
        (case (HandleIPv6 d, dIPv6CP d) of
           (Some h, Some f) \<Rightarrow>
             (if inNetworkPhase d \<and> fstate f = Opened then FrameDone d [HIPv6 payload] (h payload)
              else FrameDone d [] None)
         | _ \<Rightarrow> FrameDone d [] None)
      else if length payload < 4 then ErrFrameShort
      else (let code = payload ! 0; i = payload ! 1; len = unat (get16 (drop 2 payload)) in
        if length payload < len then ErrFrameLengthMismatch
        else if len < 4 then FramePanic
        else routeFrame d pr code i (drop 4 (take len payload)) payload))"

subsection \<open>Panic freedom and routing\<close>

text \<open>The frames on which the header parse goes through.\<close>

definition frame_wellformed :: "bytes \<Rightarrow> bool" where
  "frame_wellformed payload \<longleftrightarrow> 4 \<le> length payload \<and> 4 \<le> unat (get16 (drop 2 payload))
     \<and> unat (get16 (drop 2 payload)) \<le> length payload"

lemma handleLCP_no_panic: "handleLCP d code i data \<noteq> FramePanic"
  by (simp add: handleLCP_def split: option.split)

lemma routeFrame_no_panic: "routeFrame d pr code i data payload \<noteq> FramePanic"
  by (simp add: routeFrame_def handleLCP_no_panic split: option.split)

lemma HandleFrame_panic_iff:
  "HandleFrame d pr payload = FramePanic \<longleftrightarrow>
     pr \<noteq> ProtoIPv6 \<and> 4 \<le> length payload \<and> unat (get16 (drop 2 payload)) < 4"
  by (simp add: HandleFrame_def Let_def routeFrame_no_panic not_less split: option.split)

lemma lcp_Input_total: "Input lcp_handler code i data f \<noteq> None"
  by (simp add: Input_def rcrEvent_def lcp_ProcessConfReq_def Let_def split: sum.split prod.split)

lemma handleLCP_returns:
  "\<exists>d' calls. handleLCP d code i data = FrameDone d' calls None \<and> dIPCP d' = dIPCP d \<and> dIPv6CP d' = dIPv6CP d"
proof (cases "dLCP d")
  case (Some f)
  obtain g where "Input lcp_handler code i data f = Some g" using lcp_Input_total by blast
  with Some show ?thesis by (simp add: handleLCP_def)
qed (simp add: handleLCP_def)

text \<open>Outside the network phase the network control protocols are untouched, whatever arrives.\<close>

lemma handleLCP_gated:
  assumes "handleLCP d code i data = FrameDone d' calls err"
  shows "dIPCP d' = dIPCP d \<and> dIPv6CP d' = dIPv6CP d \<and> (\<forall>p. HIPv6 p \<notin> set calls)"
  using assms by (auto simp: handleLCP_def split: if_splits option.splits)

lemma routeFrame_gated:
  assumes "routeFrame d pr code i data payload = FrameDone d' calls err" "\<not> inNetworkPhase d"
  shows "dIPCP d' = dIPCP d \<and> dIPv6CP d' = dIPv6CP d \<and> (\<forall>p. HIPv6 p \<notin> set calls)"
proof (cases "pr = ProtoLCP")
  case True
  with assms(1) show ?thesis by (intro handleLCP_gated) (simp add: routeFrame_def)
next
  case False
  with assms show ?thesis by (auto simp: routeFrame_def split: if_splits option.splits)
qed

lemma HandleFrame_gated:
  assumes "HandleFrame d pr payload = FrameDone d' calls err" "\<not> inNetworkPhase d"
  shows "dIPCP d' = dIPCP d \<and> dIPv6CP d' = dIPv6CP d \<and> (\<forall>p. HIPv6 p \<notin> set calls)"
proof (cases "pr = ProtoIPv6")
  case True
  with assms show ?thesis by (auto simp: HandleFrame_def split: option.splits)
next
  case False
  with assms(1) have "\<exists>code i data. routeFrame d pr code i data payload = FrameDone d' calls err"
    by (auto simp: HandleFrame_def Let_def split: if_splits)
  with assms(2) show ?thesis using routeFrame_gated by blast
qed

end
