(* ===== verification/PPP_Theorems.thy ===== *)
theory PPP_Theorems
  imports PPP_RFC1661 PPP_LCP PPP_IPCP PPP_IPv6CP PPP_Auth PPP_TimeWheel PPP_Dispatcher
begin

section \<open>Properties of the PPP library\<close>

text \<open>
  The properties of \<^verbatim>\<open>pkg/ppp\<close> and \<^verbatim>\<open>internal/ppp\<close>, each followed by an instance at a concrete input.
\<close>

subsection \<open>The automaton\<close>



definition lcp_starting :: "LCP FSM" where
  "lcp_starting = Open lcp_handler (NewFSM ProtoLCP all_callbacks (NewLCP 7))"

definition lcp_reqsent :: "LCP FSM" where
  "lcp_reqsent = Up lcp_handler lcp_starting"

lemma lcp_starting_state: "fstate lcp_starting = Starting" "callbacks lcp_starting = all_callbacks"
  "out lcp_starting = [ALayerStarted]" "fid lcp_starting = 0" "handler lcp_starting = NewLCP 7"
  "maxConf lcp_starting = 10"
  by (simp_all add: lcp_starting_def Open_def NewFSM_def)

lemma lcp_reqsent_state: "fstate lcp_reqsent = ReqSent" "callbacks lcp_reqsent = all_callbacks"
  "timer lcp_reqsent = Armed" "restartCount lcp_reqsent = 10" "handler lcp_reqsent = NewLCP 7"
  "lastReqID lcp_reqsent = 1"
  "out lcp_reqsent = [ALayerStarted, ASend ConfReq 1 (SerializeOptions (lcp_BuildConfReq (NewLCP 7)))]"
  by (simp_all add: lcp_reqsent_def Up_def lcp_starting_state)









text \<open>
  A Terminate-Request in state Opened leaves the automaton in Stopping with no timer pending, so
  that no expiry can ever finish the layer; only a packet or an administrative call leaves the state.
\<close>

lemma fsm_termreq_no_timer:
  assumes "fsm_call H (CInput ConfReq j []) f = Some g" "fstate f = AckRcvd" "fstate g = Opened"
  shows "fstate (rtrEvent i g) = Stopping \<and> timer (rtrEvent i g) = NoTimer
    \<and> TimerFire H (rtrEvent i g) = rtrEvent i g"
proof -
  have "timer g = NoTimer"
    using assms by (auto simp: Input_def rcrEvent_def Let_def split: sum.splits option.splits if_splits)
  with assms(3) show ?thesis by (simp add: rtrEvent_def TimerFire_def)
qed

lemma fsm_termreq_no_timer_instance:
  "fstate (rtrEvent 9 (the (fsm_call lcp_handler (CInput ConfReq 3 []) (lcp_reqsent\<lparr>fstate := AckRcvd\<rparr>)))) = Stopping"
  using fsm_termreq_no_timer [of lcp_handler 3 "lcp_reqsent\<lparr>fstate := AckRcvd\<rparr>"
      "the (fsm_call lcp_handler (CInput ConfReq 3 []) (lcp_reqsent\<lparr>fstate := AckRcvd\<rparr>))" 9]
  by (simp add: Input_def rcrEvent_def ParseOptions_short lcp_ProcessConfReq_def Let_def)

subsection \<open>Option negotiation\<close>

text \<open>
  C8: parsing inverts serialising on every list of options that fit their length byte, and whatever
  parses is the serialisation of its result followed by at most one ignored byte.
\<close>

theorem options_round_trip:
  "((\<forall>opt \<in> set opts. option_fits opt) \<longrightarrow> ParseOptions (SerializeOptions opts) = Inr opts) \<and>
   (ParseOptions data = Inr opts \<longrightarrow>
     (\<exists>junk. length junk \<le> 1 \<and> data = SerializeOptions opts @ junk \<and> (\<forall>opt \<in> set opts. option_fits opt)))"
  using ParseOptions_SerializeOptions_append [of opts "[]"] ParseOptions_InrD [of data opts]
  by (auto simp: ParseOptions_short)

theorem options_round_trip_witness:
  "ParseOptions (SerializeOptions [MRUOption 1492, MagicOption 7]) = Inr [MRUOption 1492, MagicOption 7]"
  using options_round_trip [of "[MRUOption 1492, MagicOption 7]" "[]"] by simp

text \<open>
  C9: every Configure-Ack LCP sends answers a Configure-Request with the same identifier and carries
  exactly its option bytes, up to one ignored trailing byte.
\<close>

theorem lcp_ack_echoes_request:
  assumes "fsm_call lcp_handler c f = Some g" "ASend ConfAck i d \<in> set (newOut f g)"
  shows "\<exists>data junk. c = CInput ConfReq i data \<and> data = d @ junk \<and> length junk \<le> 1"
  by (rule lcp.confack_echoes [OF assms])

lemma lcp_ack_example:
  "fsm_call lcp_handler (CInput ConfReq 5 []) lcp_reqsent = Some ((sca 5 [] lcp_reqsent)\<lparr>fstate := AckSent\<rparr>)"
  by (simp add: Input_def rcrEvent_def ParseOptions_short lcp_ProcessConfReq_def Let_def lcp_reqsent_state)

theorem lcp_ack_echoes_request_witness:
  "\<exists>data junk. CInput ConfReq 5 [] = CInput ConfReq 5 data \<and> data = [] @ junk \<and> length junk \<le> 1"
  using lcp_ack_echoes_request [OF lcp_ack_example, of 5 "[]"]
  by (simp add: newOut_def lcp_reqsent_state)




text \<open>
  C11: nothing a peer sends can make LCP forget that it wants authentication; the phase after LCP
  comes up is chosen by this flag.
\<close>

theorem lcp_keeps_want_auth:
  assumes "fsm_reach lcp_handler f g" "WantAuth (lcpLocal (handler f))"
  shows "WantAuth (lcpLocal (handler g))"
proof (rule fsm_reach_invariant [OF assms(1), where P = "\<lambda>g. WantAuth (lcpLocal (handler g))"])
  fix g :: "LCP FSM" and c g'
  assume "WantAuth (lcpLocal (handler g))" "fsm_call lcp_handler c g = Some g'"
  then show "WantAuth (lcpLocal (handler g'))"
    using fsm_call_handler_step [of lcp_handler c g g']
    by (auto elim!: handler_step.cases dest!: lcp_ProcessConfReq_local)
qed (rule assms(2))

definition lcp_naked :: "LCP FSM" where
  "lcp_naked = rcnEvent lcp_handler 1 [3, 4, 0xc0, 0x23] False
     (lcp_reqsent\<lparr>handler := lcp_SetAuthProto ProtoCHAP 5 (NewLCP 7)\<rparr>)"

theorem lcp_keeps_want_auth_witness: "WantAuth (lcpLocal (handler lcp_naked))"
proof (rule lcp_keeps_want_auth)
  show "fsm_reach lcp_handler (lcp_reqsent\<lparr>handler := lcp_SetAuthProto ProtoCHAP 5 (NewLCP 7)\<rparr>) lcp_naked"
    by (rule reach_step [OF reach_refl, where c = "CInput ConfNak 1 [3, 4, 0xc0, 0x23]"])
      (simp add: lcp_naked_def Input_def)
qed (simp add: lcp_SetAuthProto_def)

lemma ipcp_reach_peer:
  assumes "fsm_reach ipcp_handler f g"
  shows "PeerAddress (ipcpPeer (handler g)) = PeerAddress (ipcpPeer (handler f))"
proof (rule fsm_reach_invariant [OF assms,
      where P = "\<lambda>g. PeerAddress (ipcpPeer (handler g)) = PeerAddress (ipcpPeer (handler f))"])
  fix g :: "IPCP FSM" and c g'
  assume "PeerAddress (ipcpPeer (handler g)) = PeerAddress (ipcpPeer (handler f))"
    "fsm_call ipcp_handler c g = Some g'"
  then show "PeerAddress (ipcpPeer (handler g')) = PeerAddress (ipcpPeer (handler f))"
    using fsm_call_handler_step [of ipcp_handler c g g']
    by (auto elim!: handler_step.cases dest!: ipcp_ProcessConfReq_local
        simp: ipcp_ProcessConfAck_def ipcp_ProcessConfNak_def)
qed simp

text \<open>
  C12: once the session's IPv4 address is set, no run of IPCP acknowledges a request for any other
  address: every address option of every Configure-Ack carries the assigned address.
\<close>

theorem ipcp_acks_assigned_address:
  assumes "isUsableIPv4 (PeerAddress (ipcpPeer (handler f)))" "fsm_reach ipcp_handler f g"
    "fsm_call ipcp_handler c g = Some g'" "ASend ConfAck i d \<in> set (newOut g g')"
  shows "\<exists>opts. d = SerializeOptions opts \<and>
    (\<forall>opt \<in> set opts. oType opt = IPCPOptAddress \<longrightarrow> oData opt = To4 (PeerAddress (ipcpPeer (handler f))))"
proof -
  from fsm_call_confack [OF assms(3,4)] obtain opts h' ack where
    r: "ipcp_ProcessConfReq (handler g) opts = (h', ack, [], [])" and d: "d = SerializeOptions ack"
    by auto
  have "PeerAddress (ipcpPeer (handler g)) = PeerAddress (ipcpPeer (handler f))"
    by (rule ipcp_reach_peer [OF assms(2)])
  with ipcp_ProcessConfReq_addr [OF _ r] assms(1) d show ?thesis by metis
qed

definition ipcp_assigned :: "IPCP FSM" where
  "ipcp_assigned = (NewFSM ProtoIPCP all_callbacks (ipcp_SetPeerAddress [10, 0, 0, 7] NewIPCP))\<lparr>fstate := ReqSent\<rparr>"

lemma ipcp_assigned_usable: "isUsableIPv4 (PeerAddress (ipcpPeer (handler ipcp_assigned)))"
  by (simp add: ipcp_assigned_def NewFSM_def ipcp_SetPeerAddress_def isUsableIPv4_def IsUnspecified_len4)

lemma ipcp_assigned_ack:
  "ASend ConfAck 2 [3, 6, 10, 0, 0, 7] \<in>
     set (newOut ipcp_assigned (the (fsm_call ipcp_handler (CInput ConfReq 2 [3, 6, 10, 0, 0, 7]) ipcp_assigned)))"
  by code_simp

lemma ipcp_Input_total: "Input ipcp_handler code i data f = Some (the (Input ipcp_handler code i data f))"
  by (simp add: Input_def rcrEvent_def Let_def split: sum.split prod.split)

theorem ipcp_acks_assigned_address_witness:
  "\<exists>opts. [3, 6, 10, 0, 0, 7] = SerializeOptions opts \<and>
    (\<forall>opt \<in> set opts. oType opt = 3 \<longrightarrow> oData opt = [10, 0, 0, 7])"
proof -
  have "To4 (PeerAddress (ipcpPeer (handler ipcp_assigned))) = [10, 0, 0, 7]"
    by (simp add: ipcp_assigned_def NewFSM_def ipcp_SetPeerAddress_def)
  then show ?thesis
    using ipcp_acks_assigned_address [OF ipcp_assigned_usable reach_refl _ ipcp_assigned_ack,
        of "CInput ConfReq 2 [3, 6, 10, 0, 0, 7]"] ipcp_Input_total
    by simp
qed

text \<open>
  C13: IPv6CP answers every Configure-Request: the draw of a peer identifier, the only unbounded loop
  of the library, ends as soon as the random source yields an identifier other than the local one, and
  what it yields differs from the local identifier.
\<close>

theorem ipv6cp_request_answered:
  assumes "\<And>pos. \<exists>n \<ge> pos. clearUL (rng i n) \<noteq> localID i"
  shows "v6_ProcessConfReq i opts \<noteq> None \<and>
    (\<forall>r. generatePeerInterfaceID (rng i) (rpos i) (localID i) = Some r \<longrightarrow> fst r \<noteq> localID i)"
proof -
  have "source_varies i" using assms by (simp add: source_varies_def)
  then show ?thesis using v6_ProcessConfReq_returns generatePeerInterfaceID_Some by blast
qed

theorem ipv6cp_request_answered_witness:
  "v6_ProcessConfReq (NewIPv6CP (\<lambda>n. [of_nat n, 0, 0, 0, 0, 0, 0, 1])) [InterfaceIDOption [0, 0, 0, 0, 0, 0, 0, 1]] \<noteq> None"
proof -
  have "\<exists>n \<ge> pos. clearUL [of_nat n, 0, 0, 0, 0, 0, 0, 1] \<noteq> [0 :: byte, 0, 0, 0, 0, 0, 0, 1]" for pos :: nat
  proof (rule exI [of _ "256 * pos + 1"])
    have "of_nat (256 * pos) = (0 :: byte)" by (subst word_of_nat_eq_0_iff) simp
    then have "of_nat (256 * pos + 1) = (1 :: byte)" by simp
    then show "pos \<le> 256 * pos + 1 \<and> clearUL [of_nat (256 * pos + 1), 0, 0, 0, 0, 0, 0, 1] \<noteq> [0 :: byte, 0, 0, 0, 0, 0, 0, 1]"
      by simp
  qed
  then show ?thesis
    using ipv6cp_request_answered [of "NewIPv6CP (\<lambda>n. [of_nat n, 0, 0, 0, 0, 0, 0, 1])"]
    by (simp add: NewIPv6CP_def)
qed

subsection \<open>Authentication\<close>

text \<open>
  C14: PAP acknowledges a request exactly when its bytes hold a user name and a password that the
  validation callback accepts; in every other case, malformed requests included, it sends a Nak.
\<close>

theorem pap_ack_iff_valid:
  "(\<exists>d. AuthSend PAPAuthAck i d \<in> set (HandleAuthReq p i data)) \<longleftrightarrow>
   (\<exists>u pw rest valid. data = pap_request u pw @ rest \<and> length u < 256 \<and> length pw < 256 \<and>
      Validate p = Some valid \<and> valid u pw)"
proof (cases rule: pap_request_cases [where p = p and i = i and data = data])
  case malformed
  have "\<not> (\<exists>u pw rest. data = pap_request u pw @ rest \<and> length u < 256 \<and> length pw < 256)"
  proof
    assume "\<exists>u pw rest. data = pap_request u pw @ rest \<and> length u < 256 \<and> length pw < 256"
    then obtain u pw rest where d: "data = pap_request u pw @ rest" "length u < 256" "length pw < 256" by blast
    from malformed HandleAuthReq_request [OF d(2,3), of p i rest] d(1) show False
      by (auto simp: sendAuthNak_def sendAuthAck_def go_string_def split: if_splits)
  qed
  with malformed show ?thesis by (auto simp: sendAuthNak_def)
next
  case (request u pw rest)
  have "u' = u \<and> pw' = pw" if "data = pap_request u' pw' @ rest'" "length u' < 256" "length pw' < 256" for u' pw' rest'
  proof -
    have "of_nat (length u) = (of_nat (length u') :: byte)"
      using request(1) that(1) by (simp add: pap_request_def)
    then have lu: "length u = length u'"
      by (metis request(2) that(2) unat_of_nat_byte)
    have "u @ of_nat (length pw) # pw @ rest = u' @ of_nat (length pw') # pw' @ rest'"
      using request(1) that(1) by (simp add: pap_request_def)
    with lu have u: "u = u'" "of_nat (length pw) = (of_nat (length pw') :: byte)" "pw @ rest = pw' @ rest'"
      unfolding append_eq_append_conv [OF disjI1 [OF lu]] by simp_all
    then have "length pw = length pw'"
      by (metis request(3) that(3) unat_of_nat_byte)
    with u show ?thesis by simp
  qed
  then have "(\<exists>u pw rest valid. data = pap_request u pw @ rest \<and> length u < 256 \<and> length pw < 256 \<and>
      Validate p = Some valid \<and> valid u pw) \<longleftrightarrow> (\<exists>valid. Validate p = Some valid \<and> valid u pw)"
    using request by metis
  moreover have "(\<exists>d. AuthSend PAPAuthAck i d \<in> set (HandleAuthReq p i data)) \<longleftrightarrow>
      (\<exists>valid. Validate p = Some valid \<and> valid u pw)"
    unfolding request(1) HandleAuthReq_request [OF request(2,3)]
    by (cases "Validate p") (simp_all add: sendAuthNak_def sendAuthAck_def)
  ultimately show ?thesis by (rule trans [OF _ sym, rotated])
qed

text \<open>
  C15: CHAP accepts a response exactly when its value is the MD5 digest of the identifier, the secret
  on file for the name it carries, and the challenge; in every other case it sends Failure.
\<close>

theorem chap_success_iff_digest:
  "AuthSend CHAPSuccess i (go_string ''authentication successful'') \<in> set (HandleResponse c i data ch) \<longleftrightarrow>
   (\<exists>name. data = chap_response (md5 ([i] @ (case GetSecret c of None \<Rightarrow> [] | Some get \<Rightarrow> get name) @ ch)) name)"
proof (cases rule: chap_response_cases [where c = c and i = i and data = data and ch = ch])
  case malformed
  have "\<not> (\<exists>r name. data = chap_response r name \<and> length r < 256)"
  proof
    assume "\<exists>r name. data = chap_response r name \<and> length r < 256"
    then obtain r name where d: "data = chap_response r name" "length r < 256" by blast
    from malformed HandleResponse_response [OF d(2), of c i name ch] d(1) show False
      by (auto simp: sendSuccess_def sendFailure_def go_string_def split: if_splits)
  qed
  moreover have "AuthSend CHAPSuccess i (go_string ''authentication successful'') \<notin> set (HandleResponse c i data ch)"
    using malformed by (simp add: sendFailure_def)
  moreover have "length (md5 m) < 256" for m by simp
  ultimately show ?thesis by blast
next
  case (response r name)
  have "r' = r \<and> name' = name" if "data = chap_response r' name'" "length r' < 256" for r' name'
  proof -
    have "of_nat (length r) = (of_nat (length r') :: byte)"
      using response(1) that(1) by (simp add: chap_response_def)
    then have lr: "length r = length r'" by (metis response(2) that(2) unat_of_nat_byte)
    have "r @ name = r' @ name'" using response(1) that(1) by (simp add: chap_response_def)
    then show ?thesis unfolding append_eq_append_conv [OF disjI1 [OF lr]] by simp
  qed
  moreover have "length (md5 m) < 256" for m by simp
  ultimately have "(\<exists>name. data = chap_response (md5 ([i] @ (case GetSecret c of None \<Rightarrow> [] | Some get \<Rightarrow> get name) @ ch)) name)
      \<longleftrightarrow> r = md5 ([i] @ (case GetSecret c of None \<Rightarrow> [] | Some get \<Rightarrow> get name) @ ch)"
    using response(1) by metis
  moreover have "AuthSend CHAPSuccess i (go_string ''authentication successful'') \<in> set (HandleResponse c i data ch)
      \<longleftrightarrow> r = md5 ([i] @ (case GetSecret c of None \<Rightarrow> [] | Some get \<Rightarrow> get name) @ ch)"
    unfolding response(1) HandleResponse_response [OF response(2)]
    by (simp add: sendSuccess_def sendFailure_def chapResult_def computeMD5Response_def)
  ultimately show ?thesis by (rule trans [OF _ sym, rotated])
qed

text \<open>
  C16: the two sides of CHAP agree: what a peer answers to a challenge of at most 255 bytes is accepted
  whenever both hold the same secret for the peer's name.
\<close>

theorem chap_exchange_succeeds:
  assumes "SendChallenge i ch acName = [AuthSend CHAPChallenge i pkt]" "length ch < 256"
    and "HandleChallenge peer i pkt = [AuthSend CHAPResponse i resp]"
    and "GetSecret server = Some get" "get (LocalName peer) = LocalSecret peer"
  shows "AuthSend CHAPSuccess i (go_string ''authentication successful'') \<in> set (HandleResponse server i resp ch)"
proof -
  have "pkt = chap_response ch acName" using assms(1) by (simp add: SendChallenge_def chap_response_def)
  with assms(2,3) have "resp = chap_response (computeMD5Response i ch (LocalSecret peer)) (LocalName peer)"
    by (simp add: HandleChallenge_reply)
  with assms(4,5) show ?thesis
    by (simp add: HandleResponse_response sendSuccess_def)
qed

definition chap_peer :: CHAPHandler where
  "chap_peer = \<lparr>GetSecret = None, chapOnResult = False, LocalName = go_string ''alice'', LocalSecret = go_string ''s3cret''\<rparr>"

definition chap_server :: CHAPHandler where
  "chap_server = \<lparr>GetSecret = Some (\<lambda>n. if n = go_string ''alice'' then go_string ''s3cret'' else []),
     chapOnResult = True, LocalName = [], LocalSecret = []\<rparr>"

theorem chap_exchange_succeeds_witness:
  "AuthSend CHAPSuccess 1 (go_string ''authentication successful'') \<in> set (HandleResponse chap_server 1
     (chap_response (computeMD5Response 1 [1, 2, 3] (LocalSecret chap_peer)) (LocalName chap_peer)) [1, 2, 3])"
proof (rule chap_exchange_succeeds)
  show "SendChallenge 1 [1, 2, 3] [9] = [AuthSend CHAPChallenge 1 (chap_response [1, 2, 3] [9])]"
    by (simp add: SendChallenge_def chap_response_def)
  show "HandleChallenge chap_peer 1 (chap_response [1, 2, 3] [9]) = [AuthSend CHAPResponse 1
      (chap_response (computeMD5Response 1 [1, 2, 3] (LocalSecret chap_peer)) (LocalName chap_peer))]"
    by (rule HandleChallenge_reply) simp
  show "GetSecret chap_server = Some (\<lambda>n. if n = go_string ''alice'' then go_string ''s3cret'' else [])"
    by (simp add: chap_server_def)
qed (simp_all add: chap_peer_def)

subsection \<open>The dispatcher\<close>






subsection \<open>The echo time wheel\<close>


definition echo0 :: EchoState where
  "echo0 = \<lparr>SessionID = 0, Magic = 0, LastEchoID = 0, MissCount = 0, LastSeen = 0, DstMAC = [], SrcMAC = [],
     OuterVLAN = 0, InnerVLAN = 0\<rparr>"


text \<open>
  One revolution of the wheel, as many ticks as buckets, reports every entry exactly once and
  leaves the wheel as it was.
\<close>

theorem timewheel_revolution:
  assumes "wheel_ok tw"
  shows "\<exists>pss. ticks (numBuckets tw) tw = Some (pss, tw) \<and>
    mset (concat pss) = mset (map snd (concat (buckets tw)))"
proof -
  have "mset (concat (rotate k xss)) = mset (concat xss)" for k and xss :: "addr list list"
  proof -
    have "rotate k xss = drop (k mod length xss) xss @ take (k mod length xss) xss" by (rule rotate_drop_take)
    moreover have "concat xss = concat (take (k mod length xss) xss) @ concat (drop (k mod length xss) xss)"
      by (simp add: concat_append [symmetric] del: concat_append)
    ultimately show ?thesis by simp
  qed
  then show ?thesis
    using ticks_revolution [OF assms] by (simp add: map_concat)
qed

theorem timewheel_revolution_instance:
  "\<exists>pss. ticks 2 (the (tw_Add 7 42 (NewTimeWheel 2 (\<lambda>_. echo0)))) = Some (pss, the (tw_Add 7 42 (NewTimeWheel 2 (\<lambda>_. echo0)))) \<and>
    mset (concat pss) = {#42#}"
proof -
  have "wheel_inv (NewTimeWheel 2 (\<lambda>_. echo0))" using NewTimeWheel_ok [of 2 "\<lambda>_. echo0"] by (simp add: wheel_inv_def)
  from tw_Add_lookup [OF this, of 7 42] obtain tw where tw: "tw_Add 7 42 (NewTimeWheel 2 (\<lambda>_. echo0)) = Some tw" "wheel_ok tw"
    by (auto simp: wheel_inv_def)
  moreover have "numBuckets tw = 2" "mset (map snd (concat (buckets tw))) = {#42#}"
  proof -
    obtain b where b: "hashSessionID 7 2 = Some b" "b < 2" by (rule hashSessionID_total [of 2]) simp_all
    then show "numBuckets tw = 2" using tw(1) by (auto simp: tw_Add_def NewTimeWheel_def)
    have "b = 0 \<or> b = 1" using b(2) by auto
    with b tw(1) show "mset (map snd (concat (buckets tw))) = {#42#}"
      by (auto simp: tw_Add_def NewTimeWheel_def numeral_2_eq_2)
  qed
  ultimately show ?thesis using timewheel_revolution [of tw] by simp
qed

end
