(* ===== verification/Alloc_Pool.thy ===== *)
theory Alloc_Pool
  imports Go_Net
begin

section \<open>Address pools\<close>

text \<open>
  \<^verbatim>\<open>pkg/allocator/allocator.go\<close> and \<^verbatim>\<open>pkg/allocator/pool.go\<close>. The first part is the contract of the
  \<^verbatim>\<open>Allocator\<close> interface as a locale: which keys are free, who holds which key, and what each
  operation does to both. The second is \<^verbatim>\<open>PoolAllocator\<close>, with an interpretation of the contract on it.
  The loop that builds the free list advances by \<open>Next\<close>, which wraps at the end of an address family;
  it is a partial function, and \<open>None\<close> is a loop that never ends.
\<close>

datatype alloc_error = ErrPoolExhausted | ErrAlreadyReserved

type_synonym session_id = string

subsection \<open>The contract of an allocator\<close>

text \<open>
  \<open>'k\<close> is the internal key (an address, a prefix index), \<open>'ip\<close> what the caller passes, \<open>key s ip\<close> the
  key it denotes, if any. \<open>Available\<close> counts the free keys.
\<close>

datatype ('ip) alloc_op = OpAllocate session_id | OpRelease 'ip | OpReserve 'ip session_id

definition alloc_step ::
  "(session_id \<Rightarrow> 's \<Rightarrow> (alloc_error + 'ip) \<times> 's) \<Rightarrow> ('ip \<Rightarrow> 's \<Rightarrow> 's)
    \<Rightarrow> ('ip \<Rightarrow> session_id \<Rightarrow> 's \<Rightarrow> alloc_error option \<times> 's) \<Rightarrow> 's \<Rightarrow> 'ip alloc_op \<Rightarrow> 's" where
  "alloc_step allocate release reserve s c =
     (case c of OpAllocate sid \<Rightarrow> snd (allocate sid s) | OpRelease ip \<Rightarrow> release ip s
      | OpReserve ip sid \<Rightarrow> snd (reserve ip sid s))"

locale lease_allocator =
  fixes inv :: "'s \<Rightarrow> bool"
    and key :: "'s \<Rightarrow> 'ip \<Rightarrow> 'k option"
    and holder :: "'s \<Rightarrow> 'k \<rightharpoonup> session_id"
    and free_keys :: "'s \<Rightarrow> 'k set"
    and allocate :: "session_id \<Rightarrow> 's \<Rightarrow> (alloc_error + 'ip) \<times> 's"
    and release :: "'ip \<Rightarrow> 's \<Rightarrow> 's"
    and reserve :: "'ip \<Rightarrow> session_id \<Rightarrow> 's \<Rightarrow> alloc_error option \<times> 's"
    and available :: "'s \<Rightarrow> nat"
  assumes free_not_held: "inv s \<Longrightarrow> k \<in> free_keys s \<Longrightarrow> holder s k = None"
    and available_card: "inv s \<Longrightarrow> finite (free_keys s) \<and> available s = card (free_keys s)"
    and allocate_law: "inv s \<Longrightarrow> allocate sid s = (r, s') \<Longrightarrow> inv s' \<and> key s' = key s \<and>
        (case r of Inl e \<Rightarrow> e = ErrPoolExhausted \<and> free_keys s = {} \<and> s' = s
         | Inr ip \<Rightarrow> (\<exists>k. key s ip = Some k \<and> k \<in> free_keys s \<and> holder s' = (holder s)(k \<mapsto> sid)
             \<and> free_keys s' = free_keys s - {k}))"
    and release_law: "inv s \<Longrightarrow> inv (release ip s) \<and> key (release ip s) = key s \<and>
        (case key s ip of None \<Rightarrow> release ip s = s
         | Some k \<Rightarrow> holder (release ip s) = (holder s)(k := None) \<and>
             free_keys (release ip s) = (if holder s k = None then free_keys s else insert k (free_keys s)))"
    and reserve_law: "inv s \<Longrightarrow> reserve ip sid s = (e, s') \<Longrightarrow> inv s' \<and> key s' = key s \<and>
        (case key s ip of None \<Rightarrow> e = None \<and> s' = s
         | Some k \<Rightarrow> (if holder s k \<noteq> None \<and> holder s k \<noteq> Some sid
             then e = Some ErrAlreadyReserved \<and> s' = s
             else e = None \<and> holder s' = (holder s)(k \<mapsto> sid) \<and> free_keys s' = free_keys s - {k}))"
begin

abbreviation op_step :: "'s \<Rightarrow> 'ip alloc_op \<Rightarrow> 's" where
  "op_step \<equiv> alloc_step allocate release reserve"

lemma op_step_inv:
  assumes "inv s"
  shows "inv (op_step s c) \<and> key (op_step s c) = key s"
  using allocate_law [OF assms surjective_pairing] release_law [OF assms]
    reserve_law [OF assms surjective_pairing]
  by (cases c) (simp_all add: alloc_step_def)

text \<open>A key that is held stays with its session until it is released, whatever else happens.\<close>

lemma op_step_holder:
  assumes "inv s" "holder s k = Some sid"
    and "\<And>ip. c = OpRelease ip \<Longrightarrow> key s ip \<noteq> Some k"
  shows "holder (op_step s c) k = Some sid"
proof (cases c)
  case (OpAllocate sid')
  obtain r s' where a: "allocate sid' s = (r, s')" by (rule prod.exhaust)
  have "k \<notin> free_keys s" using free_not_held [OF assms(1), of k] assms(2) by auto
  then have "holder s' k = Some sid"
  proof (cases r)
    case (Inl e)
    with allocate_law [OF assms(1) a] assms(2) show ?thesis by simp
  next
    case (Inr ip)
    with allocate_law [OF assms(1) a] obtain k' where "k' \<in> free_keys s" "holder s' = (holder s)(k' \<mapsto> sid')"
      by auto
    with \<open>k \<notin> free_keys s\<close> assms(2) show ?thesis by auto
  qed
  then show ?thesis by (simp add: alloc_step_def OpAllocate a)
next
  case (OpRelease ip)
  then show ?thesis
    using release_law [OF assms(1), of ip] assms(2,3) by (cases "key s ip") (auto simp: alloc_step_def)
next
  case (OpReserve ip sid')
  obtain e s' where a: "reserve ip sid' s = (e, s')" by (rule prod.exhaust)
  have "holder s' k = Some sid"
  proof (cases "s' = s")
    case False
    with reserve_law [OF assms(1) a] obtain k' where
      "holder s k' = None \<or> holder s k' = Some sid'" "holder s' = (holder s)(k' \<mapsto> sid')"
      by (cases "key s ip") (simp_all split: if_splits)
    with assms(2) show ?thesis by (cases "k' = k") simp_all
  qed (simp add: assms(2))
  then show ?thesis by (simp add: alloc_step_def OpReserve a)
qed

lemma run_inv: "inv s \<Longrightarrow> inv (foldl op_step s cs) \<and> key (foldl op_step s cs) = key s"
proof (induction cs arbitrary: s)
  case (Cons c cs)
  then show ?case using op_step_inv [OF Cons.prems, of c] by simp
qed simp

lemma run_holder:
  assumes "inv s" "holder s k = Some sid"
    and "\<And>ip. OpRelease ip \<in> set cs \<Longrightarrow> key s ip \<noteq> Some k"
  shows "holder (foldl op_step s cs) k = Some sid"
  using assms
proof (induction cs arbitrary: s)
  case (Cons c cs)
  have i: "inv (op_step s c)" "key (op_step s c) = key s"
    using op_step_inv [OF Cons.prems(1)] by blast+
  moreover have "holder (op_step s c) k = Some sid"
    using Cons.prems by (intro op_step_holder) auto
  moreover have "key (op_step s c) ip \<noteq> Some k" if "OpRelease ip \<in> set cs" for ip
    using that Cons.prems(3) [of ip] i(2) by simp
  ultimately show ?case using Cons.IH [of "op_step s c"] by simp
qed simp

text \<open>No address is handed to two sessions: what \<open>allocate\<close> returns later is another key.\<close>

lemma no_double_allocation:
  assumes "inv s" "allocate sid s = (Inr ip, s')"
    and "\<And>x. OpRelease x \<in> set cs \<Longrightarrow> key s x \<noteq> key s ip"
    and "allocate sid' (foldl op_step s' cs) = (Inr ip', s'')"
  shows "key s ip' \<noteq> key s ip"
proof
  assume same: "key s ip' = key s ip"
  obtain k where k: "key s ip = Some k" "holder s' = (holder s)(k \<mapsto> sid)" and i: "inv s'" "key s' = key s"
    using allocate_law [OF assms(1,2)] by auto
  have "holder (foldl op_step s' cs) k = Some sid"
    using run_holder [OF i(1), of k sid cs] k i assms(3) by simp
  moreover have "inv (foldl op_step s' cs)" "key (foldl op_step s' cs) = key s"
    using run_inv [OF i(1)] i(2) by simp_all
  moreover obtain k' where "key (foldl op_step s' cs) ip' = Some k'" "k' \<in> free_keys (foldl op_step s' cs)"
    using allocate_law [OF calculation(2) assms(4)] by auto
  ultimately show False
    using free_not_held [of "foldl op_step s' cs" k'] same k(1) by simp
qed

text \<open>\<open>allocate\<close> succeeds exactly while \<open>available\<close> is positive.\<close>

lemma allocate_iff_available:
  assumes "inv s"
  shows "(\<exists>ip. fst (allocate sid s) = Inr ip) \<longleftrightarrow> 0 < available s"
proof -
  obtain r s' where a: "allocate sid s = (r, s')" by (rule prod.exhaust)
  have c: "finite (free_keys s)" "available s = card (free_keys s)"
    using available_card [OF assms] by simp_all
  then show ?thesis
    using allocate_law [OF assms a] by (cases r) (auto simp: a card_gt_0_iff)
qed

end

subsection \<open>Free-list allocators\<close>

text \<open>
  Both allocators of the package keep a stack of free keys and a map of leases. This locale states
  what their operations do to those two fields; it gives the contract above. \<open>good\<close> is what the
  constructor establishes of the configuration, \<open>ok\<close> holds of the keys a caller can name.
\<close>

definition free_list_inv :: "('s \<Rightarrow> bool) \<Rightarrow> ('s \<Rightarrow> 'k \<Rightarrow> bool) \<Rightarrow> ('s \<Rightarrow> 'k list) \<Rightarrow> ('s \<Rightarrow> 'k \<rightharpoonup> session_id) \<Rightarrow> 's \<Rightarrow> bool" where
  "free_list_inv good ok free_of leases_of s \<longleftrightarrow>
     good s \<and> distinct (free_of s) \<and> (\<forall>k \<in> set (free_of s). ok s k \<and> leases_of s k = None)"

locale free_list_allocator =
  fixes good :: "'s \<Rightarrow> bool"
    and ok :: "'s \<Rightarrow> 'k \<Rightarrow> bool"
    and key :: "'s \<Rightarrow> 'ip \<Rightarrow> 'k option"
    and render :: "'s \<Rightarrow> 'k \<Rightarrow> 'ip"
    and leases_of :: "'s \<Rightarrow> 'k \<rightharpoonup> session_id"
    and free_of :: "'s \<Rightarrow> 'k list"
    and allocate :: "session_id \<Rightarrow> 's \<Rightarrow> (alloc_error + 'ip) \<times> 's"
    and release :: "'ip \<Rightarrow> 's \<Rightarrow> 's"
    and reserve :: "'ip \<Rightarrow> session_id \<Rightarrow> 's \<Rightarrow> alloc_error option \<times> 's"
    and available :: "'s \<Rightarrow> nat"
  assumes key_render: "good s \<Longrightarrow> ok s k \<Longrightarrow> key s (render s k) = Some k"
    and key_ok: "key s ip = Some k \<Longrightarrow> ok s k"
    and allocate_empty: "free_of s = [] \<Longrightarrow> allocate sid s = (Inl ErrPoolExhausted, s)"
    and allocate_last: "free_of s = xs @ [k] \<Longrightarrow>
        fst (allocate sid s) = Inr (render s k) \<and> free_of (snd (allocate sid s)) = xs \<and>
        leases_of (snd (allocate sid s)) = (leases_of s)(k \<mapsto> sid)"
    and release_other: "(\<And>k. key s ip = Some k \<Longrightarrow> leases_of s k = None) \<Longrightarrow> release ip s = s"
    and release_held: "key s ip = Some k \<Longrightarrow> leases_of s k \<noteq> None \<Longrightarrow>
        free_of (release ip s) = free_of s @ [k] \<and> leases_of (release ip s) = (leases_of s)(k := None)"
    and reserve_other: "key s ip = None \<Longrightarrow> reserve ip sid s = (None, s)"
    and reserve_taken: "key s ip = Some k \<Longrightarrow> leases_of s k \<noteq> None \<Longrightarrow> leases_of s k \<noteq> Some sid \<Longrightarrow>
        reserve ip sid s = (Some ErrAlreadyReserved, s)"
    and reserve_ok: "key s ip = Some k \<Longrightarrow> leases_of s k = None \<or> leases_of s k = Some sid \<Longrightarrow>
        fst (reserve ip sid s) = None \<and>
        free_of (snd (reserve ip sid s)) = (if leases_of s k = None then remove1 k (free_of s) else free_of s) \<and>
        leases_of (snd (reserve ip sid s)) = (leases_of s)(k \<mapsto> sid)"
    and available_length: "available s = length (free_of s)"
    and same_keys: "key (snd (allocate sid s)) = key s" "key (release ip s) = key s"
        "key (snd (reserve ip sid s)) = key s" "ok (snd (allocate sid s)) = ok s" "ok (release ip s) = ok s"
        "ok (snd (reserve ip sid s)) = ok s" "good (snd (allocate sid s)) = good s"
        "good (release ip s) = good s" "good (snd (reserve ip sid s)) = good s"
begin

abbreviation inv where "inv \<equiv> free_list_inv good ok free_of leases_of"

lemma allocate_contract:
  assumes "inv s" "allocate sid s = (r, s')"
  shows "inv s' \<and> key s' = key s \<and>
    (case r of Inl e \<Rightarrow> e = ErrPoolExhausted \<and> set (free_of s) = {} \<and> s' = s
     | Inr ip \<Rightarrow> (\<exists>k. key s ip = Some k \<and> k \<in> set (free_of s) \<and> leases_of s' = (leases_of s)(k \<mapsto> sid)
         \<and> set (free_of s') = set (free_of s) - {k}))"
proof (cases "free_of s" rule: rev_cases)
  case Nil
  with assms allocate_empty [OF Nil, of sid] show ?thesis by auto
next
  case (snoc xs k)
  note law = allocate_last [OF snoc, of sid] same_keys(1,4,7) [of sid s]
  from snoc assms(1) have k: "k \<notin> set xs" "ok s k" "good s" by (auto simp: free_list_inv_def)
  from snoc assms law have "inv s'" by (auto simp: free_list_inv_def)
  with snoc assms(2) law k key_render [OF k(3,2)] show ?thesis by simp
qed

lemma release_contract:
  assumes "inv s"
  shows "inv (release ip s) \<and> key (release ip s) = key s \<and>
    (case key s ip of None \<Rightarrow> release ip s = s
     | Some k \<Rightarrow> leases_of (release ip s) = (leases_of s)(k := None) \<and>
         set (free_of (release ip s)) = (if leases_of s k = None then set (free_of s) else insert k (set (free_of s))))"
proof (cases "\<exists>k. key s ip = Some k \<and> leases_of s k \<noteq> None")
  case True
  then obtain k where k: "key s ip = Some k" "leases_of s k \<noteq> None" by blast
  note law = release_held [OF k] same_keys(2,5,8) [of ip s]
  have "k \<notin> set (free_of s)" "ok s k"
    using assms k key_ok by (auto simp: free_list_inv_def)
  with assms law have "inv (release ip s)" by (auto simp: free_list_inv_def)
  with k law show ?thesis by auto
next
  case False
  then have "release ip s = s" using release_other [of s ip] by auto
  with False assms show ?thesis by (cases "key s ip") (auto simp: fun_upd_idem)
qed

lemma reserve_contract:
  assumes "inv s" "reserve ip sid s = (e, s')"
  shows "inv s' \<and> key s' = key s \<and>
    (case key s ip of None \<Rightarrow> e = None \<and> s' = s
     | Some k \<Rightarrow> (if leases_of s k \<noteq> None \<and> leases_of s k \<noteq> Some sid
         then e = Some ErrAlreadyReserved \<and> s' = s
         else e = None \<and> leases_of s' = (leases_of s)(k \<mapsto> sid) \<and> set (free_of s') = set (free_of s) - {k}))"
proof (cases "key s ip")
  case None
  with assms reserve_other [OF None, of sid] show ?thesis by auto
next
  case (Some k)
  show ?thesis
  proof (cases "leases_of s k = None \<or> leases_of s k = Some sid")
    case True
    note law = reserve_ok [OF Some True] same_keys(3,6,9) [of ip sid s]
    have "k \<notin> set (free_of s)" if "leases_of s k \<noteq> None"
      using assms(1) that by (auto simp: free_list_inv_def)
    then have "set (free_of s') = set (free_of s) - {k}"
      using assms law by (auto simp: free_list_inv_def)
    moreover have "inv s'" using assms law by (auto simp: free_list_inv_def)
    ultimately show ?thesis using Some True assms(2) law by auto
  next
    case False
    then have "reserve ip sid s = (Some ErrAlreadyReserved, s)" using reserve_taken [OF Some] by auto
    with False assms Some show ?thesis by auto
  qed
qed

end

sublocale free_list_allocator \<subseteq> lease_allocator inv key leases_of "\<lambda>s. set (free_of s)"
  allocate release reserve available
proof unfold_locales
  show "\<And>s k. inv s \<Longrightarrow> k \<in> set (free_of s) \<Longrightarrow> leases_of s k = None"
    by (simp add: free_list_inv_def)
  show "\<And>s. inv s \<Longrightarrow> finite (set (free_of s)) \<and> available s = card (set (free_of s))"
    by (simp add: free_list_inv_def available_length distinct_card)
qed (fact allocate_contract release_contract reserve_contract)+

subsection \<open>PoolAllocator\<close>

record PoolAllocator =
  rangeStart :: Addr
  rangeEnd :: Addr
  excluded :: "Addr \<Rightarrow> bool"
  leases :: "Addr \<rightharpoonup> session_id"
  free :: "Addr list"
  ascending :: bool

text \<open>The scan of \<^verbatim>\<open>buildFreeList\<close> from one address to the last, both included.\<close>

partial_function (option) addrLoop :: "(Addr \<Rightarrow> bool) \<Rightarrow> Addr \<Rightarrow> Addr \<Rightarrow> Addr list option" where
  "addrLoop skip addr final =
     (if Compare addr final \<le> 0
      then Option.bind (addrLoop skip (Next addr) final) (\<lambda>xs. Some (if skip addr then xs else addr # xs))
      else Some [])"

definition buildFreeList :: "PoolAllocator \<Rightarrow> PoolAllocator option" where
  "buildFreeList a =
     map_option (\<lambda>addrs. a\<lparr>free := (if ascending a then rev addrs else addrs)\<rparr>)
       (addrLoop (\<lambda>x. excluded a x \<or> leases a x \<noteq> None) (rangeStart a) (rangeEnd a))"

definition NewPoolAllocator :: "Addr \<Rightarrow> Addr \<Rightarrow> Addr list \<Rightarrow> PoolAllocator option" where
  "NewPoolAllocator rs re excludeAddrs =
     buildFreeList \<lparr>rangeStart = Unmap rs, rangeEnd = Unmap re,
       excluded = (\<lambda>x. x \<in> set (map Unmap excludeAddrs)), leases = Map.empty, free = [], ascending = True\<rparr>"

definition pool_SetDirection :: "bool \<Rightarrow> PoolAllocator \<Rightarrow> PoolAllocator option" where
  "pool_SetDirection asc a =
     (if ascending a = asc then Some a else buildFreeList (a\<lparr>ascending := asc\<rparr>))"

definition pool_Allocate :: "session_id \<Rightarrow> PoolAllocator \<Rightarrow> (alloc_error + bytes) \<times> PoolAllocator" where
  "pool_Allocate sid a =
     (if free a = [] then (Inl ErrPoolExhausted, a)
      else (let addr = last (free a) in
        (Inr (AsSlice addr), a\<lparr>free := butlast (free a), leases := (leases a)(addr \<mapsto> sid)\<rparr>)))"

definition pool_Release :: "bytes \<Rightarrow> PoolAllocator \<Rightarrow> PoolAllocator" where
  "pool_Release ip a = (case AddrFromSlice ip of None \<Rightarrow> a
     | Some x \<Rightarrow> (let addr = Unmap x in
         if leases a addr \<noteq> None then a\<lparr>leases := (leases a)(addr := None), free := free a @ [addr]\<rparr> else a))"

definition pool_Reserve :: "bytes \<Rightarrow> session_id \<Rightarrow> PoolAllocator \<Rightarrow> alloc_error option \<times> PoolAllocator" where
  "pool_Reserve ip sid a = (case AddrFromSlice ip of None \<Rightarrow> (None, a)
     | Some x \<Rightarrow> (let addr = Unmap x in
         if (case leases a addr of None \<Rightarrow> False | Some existing \<Rightarrow> existing \<noteq> sid)
         then (Some ErrAlreadyReserved, a)
         else (None, a\<lparr>free := (if leases a addr = None then remove1 addr (free a) else free a),
                       leases := (leases a)(addr \<mapsto> sid)\<rparr>)))"

definition pool_Contains :: "PoolAllocator \<Rightarrow> bytes \<Rightarrow> bool" where
  "pool_Contains a ip = (case AddrFromSlice ip of None \<Rightarrow> False
     | Some x \<Rightarrow> (let addr = Unmap x in 0 \<le> Compare addr (rangeStart a) \<and> Compare addr (rangeEnd a) \<le> 0))"

definition pool_Available :: "PoolAllocator \<Rightarrow> nat" where
  "pool_Available a = length (free a)"

subsection \<open>The free-list scan\<close>

lemma addrLoop_range:
  assumes "\<And>n. lo \<le> n \<Longrightarrow> n \<le> m \<Longrightarrow> Next (e n) = e (Suc n)"
    and "\<And>n. lo \<le> n \<Longrightarrow> n \<le> Suc m \<Longrightarrow> e n \<le> e m \<longleftrightarrow> n \<le> m"
    and "lo \<le> Suc m"
  shows "addrLoop skip (e lo) (e m) = Some (filter (\<lambda>x. \<not> skip x) (map e [lo..<Suc m]))"
  using assms
proof (induction "Suc m - lo" arbitrary: lo)
  case 0
  then show ?case by (simp add: addrLoop.simps [of skip "e lo"])
next
  case (Suc k)
  then have "lo \<le> m" by linarith
  have "addrLoop skip (e (Suc lo)) (e m) = Some (filter (\<lambda>x. \<not> skip x) (map e [Suc lo..<Suc m]))"
    using Suc by (intro Suc.hyps) auto
  with Suc \<open>lo \<le> m\<close> show ?case
    by (simp add: addrLoop.simps [of skip "e lo"] upt_conv_Cons del: upt_Suc)
qed

lemma word_Suc_nonzero:
  assumes "Suc n < 2 ^ LENGTH('a)"
  shows "of_nat n + (1 :: 'a :: len word) \<noteq> 0"
proof
  assume "of_nat n + (1 :: 'a word) = 0"
  then have "unat (of_nat (Suc n) :: 'a word) = 0" by (simp add: add.commute)
  with assms show False by (simp add: unat_of_nat take_bit_nat_eq_self del: of_nat_Suc)
qed

lemma V4_of_nat_le:
  "n < 2 ^ 32 \<Longrightarrow> m < 2 ^ 32 \<Longrightarrow> V4 (of_nat n) \<le> V4 (of_nat m) \<longleftrightarrow> n \<le> m"
  by (auto simp: less_eq_Addr_def word_less_nat_alt unsigned_ucast_eq unat_of_nat take_bit_nat_eq_self
      word_unat_eq_iff)

lemma V4_le_iff: "V4 x \<le> V4 y \<longleftrightarrow> x \<le> y"
  using V4_of_nat_le [of "unat x" "unat y"] unsigned_less [of x, where 'a = nat] unsigned_less [of y, where 'a = nat]
  by (simp add: word_le_nat_alt)

lemma V6_of_nat_le:
  "n < 2 ^ 128 \<Longrightarrow> m < 2 ^ 128 \<Longrightarrow> V6 (of_nat n) z \<le> V6 (of_nat m) z \<longleftrightarrow> n \<le> m"
  by (auto simp: less_eq_Addr_def word_less_nat_alt unat_of_nat take_bit_nat_eq_self word_unat_eq_iff)

lemma addrLoop_V4:
  assumes "unat b < 2 ^ 32 - 1" "a \<le> b"
  shows "addrLoop skip (V4 a) (V4 b) =
    Some (filter (\<lambda>x. \<not> skip x) (map (\<lambda>n. V4 (of_nat n)) [unat a..<Suc (unat b)]))"
proof -
  have "addrLoop skip (V4 (of_nat (unat a))) (V4 (of_nat (unat b))) =
    Some (filter (\<lambda>x. \<not> skip x) (map (\<lambda>n. V4 (of_nat n)) [unat a..<Suc (unat b)]))"
  proof (rule addrLoop_range [where e = "\<lambda>n. V4 (of_nat n)"])
    fix n assume "unat a \<le> n" "n \<le> unat b"
    then have "of_nat n + (1 :: u32) \<noteq> 0"
      using assms(1) by (intro word_Suc_nonzero) simp
    then show "Next (V4 (of_nat n)) = V4 (of_nat (Suc n))"
      by (simp add: add.commute)
  next
    fix n assume "unat a \<le> n" "n \<le> Suc (unat b)"
    then show "V4 (of_nat n) \<le> V4 (of_nat (unat b)) \<longleftrightarrow> n \<le> unat b"
      using assms(1) by (intro V4_of_nat_le) auto
  next
    show "unat a \<le> Suc (unat b)" using assms(2) by (simp add: word_le_nat_alt)
  qed
  then show ?thesis by simp
qed

lemma addrLoop_V6:
  assumes "unat b < 2 ^ 128 - 1" "a \<le> b"
  shows "addrLoop skip (V6 a z) (V6 b z) =
    Some (filter (\<lambda>x. \<not> skip x) (map (\<lambda>n. V6 (of_nat n) z) [unat a..<Suc (unat b)]))"
proof -
  have "addrLoop skip (V6 (of_nat (unat a)) z) (V6 (of_nat (unat b)) z) =
    Some (filter (\<lambda>x. \<not> skip x) (map (\<lambda>n. V6 (of_nat n) z) [unat a..<Suc (unat b)]))"
  proof (rule addrLoop_range [where e = "\<lambda>n. V6 (of_nat n) z"])
    fix n assume "unat a \<le> n" "n \<le> unat b"
    then have "of_nat n + (1 :: u128) \<noteq> 0"
      using assms(1) by (intro word_Suc_nonzero) simp
    then show "Next (V6 (of_nat n) z) = V6 (of_nat (Suc n)) z"
      by (simp add: add.commute)
  next
    fix n assume "unat a \<le> n" "n \<le> Suc (unat b)"
    then show "V6 (of_nat n) z \<le> V6 (of_nat (unat b)) z \<longleftrightarrow> n \<le> unat b"
      using assms(1) by (intro V6_of_nat_le) auto
  next
    show "unat a \<le> Suc (unat b)" using assms(2) by (simp add: word_le_nat_alt)
  qed
  then show ?thesis by simp
qed

text \<open>
  A range that ends at the last address of its family is never left: \<open>Next\<close> wraps to the invalid
  address, which orders below every address.
\<close>

lemma addrLoop_wraps:
  assumes "addrLoop skip addr final = Some xs" "final = V4 (- 1)" "BitLen addr \<le> 32"
  shows False
  using assms(1)
proof -
  have "final = V4 (- 1) \<longrightarrow> BitLen addr \<le> 32 \<longrightarrow> False"
    using assms(1)
  proof (rule addrLoop.raw_induct [where P = "\<lambda>_ addr final _. final = V4 (- 1) \<longrightarrow> BitLen addr \<le> 32 \<longrightarrow> False", rotated])
    fix loop :: "(Addr \<Rightarrow> bool) \<Rightarrow> Addr \<Rightarrow> Addr \<Rightarrow> Addr list option" and skip addr final xs
    assume IH: "\<And>skip addr final xs. loop skip addr final = Some xs \<Longrightarrow>
        final = V4 (- 1) \<longrightarrow> BitLen addr \<le> 32 \<longrightarrow> False"
      and eq: "(if Compare addr final \<le> 0
        then Option.bind (loop skip (Next addr) final) (\<lambda>xs. Some (if skip addr then xs else addr # xs))
        else Some []) = Some xs"
    have "addr \<le> V4 (- 1) \<and> BitLen (Next addr) \<le> 32" if "BitLen addr \<le> 32"
      using that by (cases addr) (simp_all add: V4_le_iff less_eq_Addr_def [of "Z0 _"])
    with eq IH [of skip "Next addr" final] show "final = V4 (- 1) \<longrightarrow> BitLen addr \<le> 32 \<longrightarrow> False"
      by (auto split: if_splits simp: bind_eq_Some_conv)
  qed
  with assms(2,3) show False by simp
qed

subsection \<open>PoolAllocator meets the contract\<close>

definition pool_key :: "bytes \<Rightarrow> Addr option" where
  "pool_key ip = map_option Unmap (AddrFromSlice ip)"

abbreviation pool_inv :: "PoolAllocator \<Rightarrow> bool" where
  "pool_inv \<equiv> free_list_inv (\<lambda>_. True) (\<lambda>_. canonical) free leases"

text \<open>The operations in terms of the key.\<close>

lemma pool_Release_key:
  "pool_Release ip a = (case pool_key ip of None \<Rightarrow> a
     | Some x \<Rightarrow> if leases a x \<noteq> None then a\<lparr>leases := (leases a)(x := None), free := free a @ [x]\<rparr> else a)"
  by (simp add: pool_Release_def pool_key_def Let_def split: option.split)

lemma pool_Reserve_key:
  "pool_Reserve ip sid a = (case pool_key ip of None \<Rightarrow> (None, a)
     | Some x \<Rightarrow> if leases a x \<noteq> None \<and> leases a x \<noteq> Some sid then (Some ErrAlreadyReserved, a)
         else (None, a\<lparr>free := (if leases a x = None then remove1 x (free a) else free a),
           leases := (leases a)(x \<mapsto> sid)\<rparr>))"
  by (auto simp: pool_Reserve_def pool_key_def Let_def split: option.split)

interpretation pool: free_list_allocator "\<lambda>_. True" "\<lambda>_. canonical" "\<lambda>_. pool_key" "\<lambda>_. AsSlice" leases free
  pool_Allocate pool_Release pool_Reserve pool_Available
proof unfold_locales
  show "\<And>k. canonical k \<Longrightarrow> pool_key (AsSlice k) = Some k"
    by (simp add: pool_key_def AddrFromSlice_AsSlice)
  show "\<And>ip k. pool_key ip = Some k \<Longrightarrow> canonical k"
    by (auto simp: pool_key_def canonical_Unmap)
  show "\<And>s ip. (\<And>k. pool_key ip = Some k \<Longrightarrow> leases s k = None) \<Longrightarrow> pool_Release ip s = s"
    by (simp add: pool_Release_key split: option.split)
qed (auto simp: pool_Allocate_def pool_Release_key pool_Reserve_key pool_Available_def Let_def)

subsection \<open>Scope of a pool\<close>

text \<open>
  The addresses a pool is configured to serve. A freshly built free list is exactly the part of the
  scope that is not leased, in the order of the configured direction (the last element is served
  first); allocating and releasing keep every free and leased address in scope.
\<close>

definition pool_scope :: "PoolAllocator \<Rightarrow> Addr \<Rightarrow> bool" where
  "pool_scope a x \<longleftrightarrow> rangeStart a \<le> x \<and> x \<le> rangeEnd a \<and> \<not> excluded a x"

definition pool_scoped :: "PoolAllocator \<Rightarrow> bool" where
  "pool_scoped a \<longleftrightarrow> (\<forall>x. x \<in> set (free a) \<or> leases a x \<noteq> None \<longrightarrow> pool_scope a x)"

lemma between_V4: "V4 lo \<le> x \<Longrightarrow> x \<le> V4 hi \<Longrightarrow> \<exists>w. x = V4 w \<and> lo \<le> w \<and> w \<le> hi"
  by (cases x) (auto simp: V4_le_iff less_eq_Addr_def [of "V4 _" "V6 _ _"] less_eq_Addr_def [of "V6 _ _"]
      less_eq_Addr_def [of _ "Z0 _"])

lemma V4_range_set:
  "(\<lambda>n. V4 (of_nat n)) ` {unat lo..unat hi} = {x. V4 lo \<le> x \<and> x \<le> V4 hi}" (is "?l = ?r")
proof
  show "?l \<subseteq> ?r"
  proof
    fix x assume "x \<in> ?l"
    then obtain n where "x = V4 (of_nat n)" "unat lo \<le> n" "n \<le> unat hi" by auto
    moreover have "n < 2 ^ 32" using calculation unsigned_less [of hi, where 'a = nat] by simp
    ultimately show "x \<in> ?r" by (simp add: V4_le_iff word_le_nat_alt unat_of_nat take_bit_nat_eq_self)
  qed
  show "?r \<subseteq> ?l"
  proof
    fix x assume "x \<in> ?r"
    then obtain w where "x = V4 (of_nat (unat w))" "lo \<le> w" "w \<le> hi" using between_V4 [of lo x hi] by auto
    then show "x \<in> ?l" by (intro image_eqI [of _ _ "unat w"]) (simp_all add: word_le_nat_alt)
  qed
qed

lemma V4_strict_mono: "n < m \<Longrightarrow> m < 2 ^ 32 \<Longrightarrow> V4 (of_nat n) < V4 (of_nat m)"
  using V4_of_nat_le [of m n] by (simp add: not_le [symmetric])

lemma V4_list_sorted:
  assumes "m \<le> 2 ^ 32"
  shows "sorted_wrt (<) (map (\<lambda>k. V4 (of_nat k)) [n..<m])"
  unfolding sorted_wrt_map
  by (rule sorted_wrt_mono_rel [OF _ sorted_wrt_upt]) (use assms in \<open>simp add: V4_strict_mono\<close>)

lemma buildFreeList_V4:
  assumes "rangeStart a = V4 lo" "rangeEnd a = V4 hi" "lo \<le> hi" "unat hi < 2 ^ 32 - 1"
  obtains p where "buildFreeList a = Some p" "p = a\<lparr>free := free p\<rparr>" "pool_inv p"
    "set (free p) = {x. pool_scope a x \<and> leases a x = None}"
    "sorted_wrt (<) (if ascending a then rev (free p) else free p)"
proof
  let ?skip = "\<lambda>x. excluded a x \<or> leases a x \<noteq> None"
  let ?xs = "filter (\<lambda>x. \<not> ?skip x) (map (\<lambda>n. V4 (of_nat n)) [unat lo..<Suc (unat hi)])"
  let ?p = "a\<lparr>free := (if ascending a then rev ?xs else ?xs)\<rparr>"
  show "buildFreeList a = Some ?p"
    using assms by (simp add: buildFreeList_def addrLoop_V4 del: upt_Suc)
  show "?p = a\<lparr>free := free ?p\<rparr>" by simp
  have sorted: "sorted_wrt (<) ?xs"
    using assms(4) by (intro sorted_wrt_filter V4_list_sorted) simp
  then have d: "distinct ?xs" by (simp only: strict_sorted_iff)
  have "set (map (\<lambda>n. V4 (of_nat n)) [unat lo..<Suc (unat hi)]) = {x. V4 lo \<le> x \<and> x \<le> V4 hi}"
    unfolding V4_range_set [symmetric] by (simp add: atLeastLessThanSuc_atLeastAtMost del: upt_Suc)
  then have "set ?xs = {x. V4 lo \<le> x \<and> x \<le> V4 hi \<and> \<not> ?skip x}"
    unfolding set_filter by blast
  then show s: "set (free ?p) = {x. pool_scope a x \<and> leases a x = None}"
    using assms by (auto simp: pool_scope_def simp del: upt_Suc)
  have "canonical x" if "x \<in> set (free ?p)" for x
    using that assms between_V4 [of lo x hi] unfolding s by (auto simp: pool_scope_def)
  with d s show "pool_inv ?p" by (simp add: free_list_inv_def del: upt_Suc)
  show "sorted_wrt (<) (if ascending a then rev (free ?p) else free ?p)"
    using sorted by (simp del: upt_Suc)
qed

abbreviation pool_step :: "PoolAllocator \<Rightarrow> bytes alloc_op \<Rightarrow> PoolAllocator" where
  "pool_step \<equiv> alloc_step pool_Allocate pool_Release pool_Reserve"

lemma pool_step_fields [simp]:
  "rangeStart (pool_step a c) = rangeStart a"
  "rangeEnd (pool_step a c) = rangeEnd a"
  "excluded (pool_step a c) = excluded a"
  by (cases c; simp add: alloc_step_def pool_Allocate_def pool_Release_def pool_Reserve_def Let_def
      split: option.split)+

lemma pool_step_scope [simp]:
  "pool_scope (pool_step a c) = pool_scope a"
  by (rule ext) (simp add: pool_scope_def)

lemma pool_Allocate_scoped: "pool_scoped a \<Longrightarrow> pool_scoped (snd (pool_Allocate sid a))"
  by (auto simp: pool_scoped_def pool_Allocate_def pool_scope_def Let_def dest: in_set_butlastD split: if_splits)

lemma pool_Release_scoped: "pool_scoped a \<Longrightarrow> pool_scoped (pool_Release ip a)"
  by (auto simp: pool_scoped_def pool_Release_key pool_scope_def split: option.splits if_splits)

lemma pool_Reserve_scoped:
  assumes "pool_scoped a" "\<And>x. pool_key ip = Some x \<Longrightarrow> pool_scope a x"
  shows "pool_scoped (snd (pool_Reserve ip sid a))"
  using assms set_remove1_subset
  by (fastforce simp: pool_scoped_def pool_Reserve_key pool_scope_def split: option.splits if_splits)

lemma pool_run_scoped:
  assumes "pool_scoped a" "\<And>ip sid x. OpReserve ip sid \<in> set cs \<Longrightarrow> pool_key ip = Some x \<Longrightarrow> pool_scope a x"
  shows "pool_scoped (foldl pool_step a cs) \<and>
    pool_scope (foldl pool_step a cs) = pool_scope a"
  using assms
proof (induction cs arbitrary: a)
  case (Cons c cs)
  have "pool_scoped (pool_step a c)"
    using Cons.prems
    by (cases c) (auto simp: alloc_step_def intro: pool_Allocate_scoped pool_Release_scoped pool_Reserve_scoped)
  then have "pool_scoped (foldl pool_step (pool_step a c) cs) \<and>
      pool_scope (foldl pool_step (pool_step a c) cs) = pool_scope (pool_step a c)"
    by (rule Cons.IH) (use Cons.prems(2) in auto)
  then show ?case by simp
qed simp

end
