(* ===== verification/Alloc_Prefix.thy ===== *)
theory Alloc_Prefix
  imports Alloc_Pool
begin

section \<open>Delegated-prefix pools\<close>

text \<open>
  \<^verbatim>\<open>pkg/allocator/prefix.go\<close>. A prefix is handed out by its 64-bit index in the pool's network; the
  128-bit address arithmetic is done on two 64-bit halves with a carry, as in the source. The lemmas
  show that the two halves compute the 128-bit sum, difference and shift, that the index of a served
  prefix is the index it was served for, and that \<open>PrefixAllocator\<close> meets the allocator contract.
\<close>

subsection \<open>net.IPNet and netip.Prefix\<close>

record IPNet =
  nIP :: bytes
  nMask :: bytes

record Prefix =
  pAddr :: Addr
  pBits :: int

text \<open>\<^verbatim>\<open>simpleMaskLength\<close> of package \<^verbatim>\<open>net\<close>: the leading ones of a mask, if nothing but zeros follows.\<close>

definition maskByte :: "byte \<Rightarrow> nat option" where
  "maskByte b = map_of [(0, 0), (0x80, 1), (0xc0, 2), (0xe0, 3), (0xf0, 4), (0xf8, 5), (0xfc, 6), (0xfe, 7)] b"

fun simpleMaskLength :: "bytes \<Rightarrow> nat option" where
  "simpleMaskLength [] = Some 0"
| "simpleMaskLength (b # bs) =
     (if b = 0xff then map_option ((+) 8) (simpleMaskLength bs)
      else if list_all (\<lambda>x. x = 0) bs then maskByte b else None)"

definition Mask_Size :: "bytes \<Rightarrow> nat \<times> nat" where
  "Mask_Size m = (case simpleMaskLength m of None \<Rightarrow> (0, 0) | Some n \<Rightarrow> (n, 8 * length m))"

fun cidrBytes :: "nat \<Rightarrow> nat \<Rightarrow> bytes" where
  "cidrBytes 0 n = []"
| "cidrBytes (Suc l) n =
     (if 8 \<le> n then 0xff # cidrBytes l (n - 8) else NOT (drop_bit n 0xff) # cidrBytes l 0)"

definition CIDRMask :: "int \<Rightarrow> nat \<Rightarrow> bytes" where
  "CIDRMask ones bits =
     (if bits \<noteq> 32 \<and> bits \<noteq> 128 then [] else if ones < 0 \<or> int bits < ones then []
      else cidrBytes (bits div 8) (nat ones))"

text \<open>The address of \<^verbatim>\<open>Prefix.Masked()\<close>.\<close>

definition maskedAddr :: "Prefix \<Rightarrow> Addr" where
  "maskedAddr p =
     (if pBits p < 0 \<or> int (BitLen (pAddr p)) < pBits p then Z0 0
      else (case pAddr p of Z0 _ \<Rightarrow> Z0 0
        | V4 w \<Rightarrow> V4 (w AND push_bit (32 - nat (pBits p)) (- 1))
        | V6 w _ \<Rightarrow> V6 (w AND push_bit (128 - nat (pBits p)) (- 1)) []))"

subsection \<open>PrefixAllocator\<close>

record PrefixAllocator =
  base :: Addr
  networkBits :: int
  prefixLength :: int
  pcount :: u64
  pleases :: "u64 \<rightharpoonup> session_id"
  pfree :: "u64 list"
  pascending :: bool

function downLoop :: "(u64 \<Rightarrow> bool) \<Rightarrow> u64 \<Rightarrow> u64 list" where
  "downLoop used i = (if used i then [] else [i]) @ (if i = 0 then [] else downLoop used (i - 1))"
  by pat_completeness auto
termination
  by (relation "measure (\<lambda>(_, i). unat i)") (auto simp: unat_minus_one unat_gt_0)

function upLoop :: "(u64 \<Rightarrow> bool) \<Rightarrow> u64 \<Rightarrow> u64 \<Rightarrow> u64 list" where
  "upLoop used count i =
     (if i < count then (if used i then [] else [i]) @ upLoop used count (i + 1) else [])"
  by pat_completeness auto
termination
proof (relation "measure (\<lambda>(_, count, i). unat count - unat i)")
  fix used and count i :: u64
  assume "i < count"
  then have "unat (i + 1) = Suc (unat i)" by (rule unat_Suc_below)
  with \<open>i < count\<close> show "((used, count, i + 1), used, count, i) \<in> measure (\<lambda>(_, count, i). unat count - unat i)"
    by (simp add: word_less_nat_alt)
qed simp

declare downLoop.simps [simp del] upLoop.simps [simp del]

definition prefix_buildFreeList :: "PrefixAllocator \<Rightarrow> PrefixAllocator" where
  "prefix_buildFreeList a =
     (let used = (\<lambda>i. pleases a i \<noteq> None) in
      a\<lparr>pfree := (if pascending a then downLoop used (pcount a - 1) else upLoop used (pcount a) 0)\<rparr>)"

definition NewPrefixAllocator :: "Prefix \<Rightarrow> int \<Rightarrow> PrefixAllocator option" where
  "NewPrefixAllocator network len =
     (let delegBits = len - pBits network in
      if delegBits < 0 \<or> 63 < delegBits then None
      else Some (prefix_buildFreeList
        \<lparr>base = maskedAddr network, networkBits = pBits network, prefixLength = len,
         pcount = push_bit (nat delegBits) 1, pleases = Map.empty, pfree = [], pascending = True\<rparr>))"

definition prefix_SetDirection :: "bool \<Rightarrow> PrefixAllocator \<Rightarrow> PrefixAllocator" where
  "prefix_SetDirection asc a =
     (if pascending a = asc then a else prefix_buildFreeList (a\<lparr>pascending := asc\<rparr>))"

text \<open>\<^verbatim>\<open>uint(128 - a.prefixLength)\<close>\<close>

definition prefixShift :: "PrefixAllocator \<Rightarrow> nat" where
  "prefixShift a = nat ((128 - prefixLength a) mod 2 ^ 64)"

definition indexToIPNet :: "PrefixAllocator \<Rightarrow> u64 \<Rightarrow> IPNet" where
  "indexToIPNet a idx =
     (let b = As16 (base a); shift = prefixShift a;
          hi = get64 b; lo = get64 (drop 8 b);
          (addHi, addLo) =
            (if 64 \<le> shift then (push_bit (shift - 64) idx, 0)
             else if shift = 0 then (0, idx)
             else (drop_bit (64 - shift) idx, push_bit shift idx));
          newLo = lo + addLo;
          carry = (if newLo < lo then 1 else 0)
      in \<lparr>nIP = put64 (hi + addHi + carry) @ put64 newLo, nMask = CIDRMask (prefixLength a) 128\<rparr>)"

definition prefixToIndex :: "PrefixAllocator \<Rightarrow> IPNet option \<Rightarrow> u64 option" where
  "prefixToIndex a prefix = (case prefix of None \<Rightarrow> None
     | Some p \<Rightarrow>
       (case Mask_Size (nMask p) of (ones, bits) \<Rightarrow>
         if bits \<noteq> 128 \<or> int ones \<noteq> prefixLength a then None
         else (case AddrFromSlice (nIP p) of None \<Rightarrow> None
           | Some x \<Rightarrow>
             (let ab = As16 (Unmap x); bb = As16 (base a);
                  addrHi = get64 ab; addrLo = get64 (drop 8 ab);
                  baseHi = get64 bb; baseLo = get64 (drop 8 bb);
                  diffLo = addrLo - baseLo;
                  borrow = (if addrLo < baseLo then 1 else 0);
                  diffHi = addrHi - baseHi - borrow;
                  shift = prefixShift a;
                  idx = (if 64 \<le> shift then drop_bit (shift - 64) diffHi
                         else if shift = 0 then diffLo
                         else push_bit (64 - shift) diffHi OR drop_bit shift diffLo)
              in if pcount a \<le> idx then None else Some idx))))"

definition prefix_Allocate :: "session_id \<Rightarrow> PrefixAllocator \<Rightarrow> (alloc_error + IPNet option) \<times> PrefixAllocator" where
  "prefix_Allocate sid a =
     (if pfree a = [] then (Inl ErrPoolExhausted, a)
      else (let idx = last (pfree a);
                a' = a\<lparr>pfree := butlast (pfree a), pleases := (pleases a)(idx \<mapsto> sid)\<rparr>
            in (Inr (Some (indexToIPNet a' idx)), a')))"

definition prefix_Release :: "IPNet option \<Rightarrow> PrefixAllocator \<Rightarrow> PrefixAllocator" where
  "prefix_Release p a = (case prefixToIndex a p of None \<Rightarrow> a
     | Some idx \<Rightarrow>
        (if pleases a idx \<noteq> None then a\<lparr>pleases := (pleases a)(idx := None), pfree := pfree a @ [idx]\<rparr> else a))"

definition prefix_Reserve :: "IPNet option \<Rightarrow> session_id \<Rightarrow> PrefixAllocator \<Rightarrow> alloc_error option \<times> PrefixAllocator" where
  "prefix_Reserve p sid a = (case prefixToIndex a p of None \<Rightarrow> (None, a)
     | Some idx \<Rightarrow>
        (if (case pleases a idx of None \<Rightarrow> False | Some existing \<Rightarrow> existing \<noteq> sid)
         then (Some ErrAlreadyReserved, a)
         else (None, a\<lparr>pfree := (if pleases a idx = None then remove1 idx (pfree a) else pfree a),
                       pleases := (pleases a)(idx \<mapsto> sid)\<rparr>)))"

definition prefix_Contains :: "PrefixAllocator \<Rightarrow> IPNet option \<Rightarrow> bool" where
  "prefix_Contains a p \<longleftrightarrow> prefixToIndex a p \<noteq> None"

subsection \<open>Arithmetic on two halves\<close>

lemma join64_of_nat: "join64 h l = of_nat (unat h * 2 ^ 64 + unat l)"
proof -
  have "join64 h l = push_bit 64 (ucast h) + ucast l"
    unfolding join64_def
    by (rule disjunctive_add [symmetric]) (auto simp: bit_simps dest: bit_imp_le_length)
  then show ?thesis by (simp add: push_bit_eq_mult)
qed

lemma mult_split_mod: "x * m + y = (x mod m * m + y) + x div m * (m * m)" for x y m :: nat
proof -
  have "(q * m + r) * m + y = (r * m + y) + q * (m * m)" for q r by (simp add: algebra_simps)
  from this [of "x div m" "x mod m"] show ?thesis by (simp only: div_mult_mod_eq)
qed

lemma add_mod_once: "a < m \<Longrightarrow> b < m \<Longrightarrow> (a + b) mod m = (if m \<le> a + b then a + b - m else a + b)" for a b m :: nat
  by (simp add: mod_if)

lemma of_nat_high_wrap: "of_nat (x mod 2 ^ 64 * 2 ^ 64 + y) = (of_nat (x * 2 ^ 64 + y) :: u128)"
proof -
  have "of_nat (x * 2 ^ 64 + y) = (of_nat (x mod 2 ^ 64 * 2 ^ 64 + y) + of_nat (x div 2 ^ 64 * (2 ^ 64 * 2 ^ 64)) :: u128)"
    by (subst mult_split_mod) (simp only: of_nat_add)
  moreover have "of_nat (x div 2 ^ 64 * (2 ^ 64 * 2 ^ 64)) = (0 :: u128)"
    by (subst word_of_nat_eq_0_iff) simp
  ultimately show ?thesis by (simp only: add_0_right)
qed

lemma unat_u64_less: "unat (w :: u64) < 2 ^ 64"
  using unsigned_less [of w, where 'a = nat] by simp

lemma unat_add_u64:
  "unat (l + (l' :: u64)) = (if 2 ^ 64 \<le> unat l + unat l' then unat l + unat l' - 2 ^ 64 else unat l + unat l')"
  using add_mod_once [OF unat_u64_less unat_u64_less, of l l'] by (simp add: unat_word_ariths)

lemma add_carry_iff: "l + l' < l \<longleftrightarrow> 2 ^ 64 \<le> unat l + unat (l' :: u64)"
  unfolding word_less_nat_alt unat_add_u64 using unat_u64_less [of l'] by auto

lemma add_carry_split: "unat l + unat l' = (if l + l' < l then 2 ^ 64 else 0) + unat (l + (l' :: u64))"
  unfolding add_carry_iff unat_add_u64 by simp

lemma join64_add:
  "join64 h l + join64 h' l' = join64 (h + h' + (if l + l' < l then 1 else 0)) (l + l')"
proof -
  let ?c = "if l + l' < l then 1 else 0 :: nat"
  have "join64 (h + h' + (if l + l' < l then 1 else 0)) (l + l') =
      of_nat ((unat h + unat h' + ?c) mod 2 ^ 64 * 2 ^ 64 + unat (l + l'))"
    by (simp add: join64_of_nat unat_word_ariths mod_simps)
  also have "\<dots> = of_nat ((unat h + unat h' + ?c) * 2 ^ 64 + unat (l + l'))"
    by (rule of_nat_high_wrap)
  also have "(unat h + unat h' + ?c) * 2 ^ 64 + unat (l + l') = (unat h * 2 ^ 64 + unat l) + (unat h' * 2 ^ 64 + unat l')"
    using add_carry_split [of l l'] by (simp add: algebra_simps split: if_splits)
  finally show ?thesis by (simp add: join64_of_nat)
qed

lemma borrow_iff: "l < l - l' \<longleftrightarrow> l < (l' :: u64)"
  using unsigned_less [of l, where 'a = nat] unsigned_less [of l', where 'a = nat]
  by (auto simp: word_less_nat_alt unat_sub_if')

lemma join64_diff:
  "join64 h l - join64 h' l' = join64 (h - h' - (if l < l' then 1 else 0)) (l - l')"
proof -
  have "join64 (h - h' - (if l < l' then 1 else 0)) (l - l') + join64 h' l' = join64 h l"
    by (simp add: join64_add borrow_iff)
  then show ?thesis by (metis add_diff_cancel)
qed

lemma shift_down_halves:
  "(if 64 \<le> k then drop_bit (k - 64) h else if k = 0 then l else push_bit (64 - k) h OR drop_bit k l)
     = (ucast (drop_bit k (join64 h l)) :: u64)"
  by (rule bit_word_eqI) (auto simp: join64_def bit_simps not_le add.commute dest: bit_imp_le_length)

lemma shift_up_halves:
  "(if 64 \<le> k then join64 (push_bit (k - 64) i) 0 else if k = 0 then join64 0 i
    else join64 (drop_bit (64 - k) i) (push_bit k i)) = push_bit k (ucast i)"
  by (rule bit_word_eqI) (auto simp: join64_def bit_simps not_le add.commute dest: bit_imp_le_length)

definition addr128 :: "Addr \<Rightarrow> u128" where
  "addr128 a = word_of_16 (As16 a)"

lemma As16_halves: "get64 (As16 a) = hi64 (addr128 a)" "get64 (drop 8 (As16 a)) = lo64 (addr128 a)"
  by (simp_all add: addr128_def word_of_16_def)

lemma indexToIPNet_eq:
  "indexToIPNet a idx =
     \<lparr>nIP = bytes_of_128 (addr128 (base a) + push_bit (prefixShift a) (ucast idx)),
      nMask = CIDRMask (prefixLength a) 128\<rparr>"
proof -
  obtain addHi addLo where add: "(addHi, addLo) =
      (if 64 \<le> prefixShift a then (push_bit (prefixShift a - 64) idx, 0)
       else if prefixShift a = 0 then (0, idx)
       else (drop_bit (64 - prefixShift a) idx, push_bit (prefixShift a) idx))"
    by (metis prod.exhaust)
  then have j: "join64 addHi addLo = push_bit (prefixShift a) (ucast idx)"
    unfolding shift_up_halves [symmetric] by (auto split: if_splits)
  have "addr128 (base a) + join64 addHi addLo =
      join64 (hi64 (addr128 (base a)) + addHi + (if lo64 (addr128 (base a)) + addLo < lo64 (addr128 (base a)) then 1 else 0))
        (lo64 (addr128 (base a)) + addLo)"
    using join64_add [of "hi64 (addr128 (base a))" "lo64 (addr128 (base a))" addHi addLo] by simp
  then show ?thesis
    unfolding indexToIPNet_def Let_def As16_halves add [symmetric]
    by (simp add: j bytes_of_128_def)
qed

lemma prefixToIndex_eq:
  "prefixToIndex a (Some p) =
     (if Mask_Size (nMask p) = (nat (prefixLength a), 128) \<and> 0 \<le> prefixLength a then
        (case AddrFromSlice (nIP p) of None \<Rightarrow> None
         | Some x \<Rightarrow> (let idx = ucast (drop_bit (prefixShift a) (addr128 x - addr128 (base a)))
                     in if pcount a \<le> idx then None else Some idx))
      else None)"
proof -
  have diff: "addr128 x - addr128 (base a) =
      join64 (hi64 (addr128 x) - hi64 (addr128 (base a)) - (if lo64 (addr128 x) < lo64 (addr128 (base a)) then 1 else 0))
        (lo64 (addr128 x) - lo64 (addr128 (base a)))" for x
    using join64_diff [of "hi64 (addr128 x)" "lo64 (addr128 x)" "hi64 (addr128 (base a))" "lo64 (addr128 (base a))"]
    by simp
  have "addr128 (Unmap x) = addr128 x" for x by (simp add: addr128_def)
  then show ?thesis
    unfolding prefixToIndex_def Let_def As16_halves shift_down_halves diff
    by (auto split: option.splits prod.splits)
qed

lemma cidrBytes_0: "list_all (\<lambda>x. x = 0) (cidrBytes l 0)"
  by (induction l) simp_all

lemma maskByte_cidr: "n < 8 \<Longrightarrow> maskByte (NOT (drop_bit n 0xff)) = Some n \<and> NOT (drop_bit n 0xff) \<noteq> (0xff :: byte)"
proof -
  assume "n < 8"
  then consider "n = 0" | "n = 1" | "n = 2" | "n = 3" | "n = 4" | "n = 5" | "n = 6" | "n = 7" by linarith
  then show ?thesis by cases (simp_all add: maskByte_def)
qed

lemma simpleMaskLength_cidr: "n \<le> 8 * l \<Longrightarrow> simpleMaskLength (cidrBytes l n) = Some n"
proof (induction l arbitrary: n)
  case (Suc l)
  show ?case
  proof (cases "8 \<le> n")
    case True
    with Suc.IH [of "n - 8"] Suc.prems show ?thesis by simp
  next
    case False
    with maskByte_cidr [of n] cidrBytes_0 [of l] show ?thesis by simp
  qed
qed simp

lemma length_cidrBytes [simp]: "length (cidrBytes l n) = l"
  by (induction l arbitrary: n) simp_all

lemma Mask_Size_CIDRMask: "0 \<le> n \<Longrightarrow> n \<le> 128 \<Longrightarrow> Mask_Size (CIDRMask n 128) = (nat n, 128)"
  by (simp add: Mask_Size_def CIDRMask_def simpleMaskLength_cidr)

subsection \<open>PrefixAllocator meets the contract\<close>

definition prefix_wf :: "PrefixAllocator \<Rightarrow> bool" where
  "prefix_wf a \<longleftrightarrow> 0 \<le> prefixLength a \<and> prefixLength a \<le> 128 \<and> unat (pcount a) \<le> 2 ^ nat (prefixLength a)"

abbreviation prefix_inv :: "PrefixAllocator \<Rightarrow> bool" where
  "prefix_inv \<equiv> free_list_inv prefix_wf (\<lambda>a k. k < pcount a) pfree pleases"

lemma prefixShift_eq: "prefix_wf a \<Longrightarrow> prefixShift a + nat (prefixLength a) = 128"
  by (simp add: prefix_wf_def prefixShift_def nat_add_distrib [symmetric])

lemma prefix_round_trip:
  assumes "prefix_wf a" "idx < pcount a"
  shows "prefixToIndex a (Some (indexToIPNet a idx)) = Some idx"
proof -
  let ?n = "nat (prefixLength a)"
  have "unat idx < 2 ^ ?n"
    using assms by (simp add: prefix_wf_def word_less_nat_alt)
  then have "take_bit ?n (unat idx) = unat idx" by (simp add: take_bit_nat_eq_self)
  then have "take_bit ?n idx = idx" by (metis unsigned_take_bit_eq word_unat_eq_iff)
  then have bits: "bit idx m \<Longrightarrow> m < ?n" for m by (metis bit_take_bit_iff)
  have "(ucast (drop_bit (prefixShift a) (push_bit (prefixShift a) (ucast idx :: u128))) :: u64) = idx"
    using prefixShift_eq [OF assms(1)] bits
    by (intro bit_word_eqI) (fastforce simp: bit_simps)
  moreover have "Mask_Size (CIDRMask (prefixLength a) 128) = (nat (prefixLength a), 128)"
    using assms(1) by (intro Mask_Size_CIDRMask) (simp_all add: prefix_wf_def)
  ultimately show ?thesis
    using assms by (simp add: prefixToIndex_eq indexToIPNet_eq prefix_wf_def AddrFromSlice_def addr128_def)
qed

lemma prefixToIndex_bound: "prefixToIndex a p = Some idx \<Longrightarrow> idx < pcount a"
  by (cases p) (auto simp: prefixToIndex_def Let_def not_le split: option.splits prod.splits if_splits)

lemma prefixToIndex_cong:
  assumes "base a = base b" "prefixLength a = prefixLength b" "pcount a = pcount b"
  shows "prefixToIndex a = prefixToIndex b"
proof
  fix p
  have shift: "prefixShift a = prefixShift b" by (simp add: prefixShift_def assms)
  show "prefixToIndex a p = prefixToIndex b p"
    unfolding prefixToIndex_def assms shift by (rule refl)
qed

lemma prefix_Reserve_eq:
  "prefix_Reserve p sid a = (case prefixToIndex a p of None \<Rightarrow> (None, a)
     | Some x \<Rightarrow> if pleases a x \<noteq> None \<and> pleases a x \<noteq> Some sid then (Some ErrAlreadyReserved, a)
         else (None, a\<lparr>pfree := (if pleases a x = None then remove1 x (pfree a) else pfree a),
           pleases := (pleases a)(x \<mapsto> sid)\<rparr>))"
  by (auto simp: prefix_Reserve_def split: option.split)

lemma prefix_config:
  "base (snd (prefix_Allocate sid a)) = base a" "base (prefix_Release p a) = base a"
  "base (snd (prefix_Reserve p sid a)) = base a"
  "prefixLength (snd (prefix_Allocate sid a)) = prefixLength a" "prefixLength (prefix_Release p a) = prefixLength a"
  "prefixLength (snd (prefix_Reserve p sid a)) = prefixLength a"
  "pcount (snd (prefix_Allocate sid a)) = pcount a" "pcount (prefix_Release p a) = pcount a"
  "pcount (snd (prefix_Reserve p sid a)) = pcount a"
  by (simp_all add: prefix_Allocate_def prefix_Release_def prefix_Reserve_eq Let_def split: option.split)

interpretation pd: free_list_allocator prefix_wf "\<lambda>a k. k < pcount a" prefixToIndex
  "\<lambda>a k. Some (indexToIPNet a k)" pleases pfree prefix_Allocate prefix_Release prefix_Reserve "\<lambda>a. length (pfree a)"
proof unfold_locales
  show "\<And>s k. prefix_wf s \<Longrightarrow> k < pcount s \<Longrightarrow> prefixToIndex s (Some (indexToIPNet s k)) = Some k"
    by (rule prefix_round_trip)
  show "\<And>s ip k. prefixToIndex s ip = Some k \<Longrightarrow> k < pcount s"
    by (rule prefixToIndex_bound)
  show "\<And>s xs k sid. pfree s = xs @ [k] \<Longrightarrow>
      fst (prefix_Allocate sid s) = Inr (Some (indexToIPNet s k)) \<and> pfree (snd (prefix_Allocate sid s)) = xs \<and>
      pleases (snd (prefix_Allocate sid s)) = (pleases s)(k \<mapsto> sid)"
    by (simp add: prefix_Allocate_def Let_def indexToIPNet_eq prefixShift_def)
  show "\<And>s ip. (\<And>k. prefixToIndex s ip = Some k \<Longrightarrow> pleases s k = None) \<Longrightarrow> prefix_Release ip s = s"
    by (simp add: prefix_Release_def split: option.split)
  show "\<And>sid s. prefixToIndex (snd (prefix_Allocate sid s)) = prefixToIndex s"
    "\<And>ip s. prefixToIndex (prefix_Release ip s) = prefixToIndex s"
    "\<And>ip sid s. prefixToIndex (snd (prefix_Reserve ip sid s)) = prefixToIndex s"
    by (intro prefixToIndex_cong; simp add: prefix_config)+
  show "\<And>sid s. prefix_wf (snd (prefix_Allocate sid s)) = prefix_wf s"
    "\<And>ip s. prefix_wf (prefix_Release ip s) = prefix_wf s"
    "\<And>ip sid s. prefix_wf (snd (prefix_Reserve ip sid s)) = prefix_wf s"
    by (simp_all add: prefix_wf_def prefix_config)
  show "\<And>sid s. (\<lambda>k. k < pcount (snd (prefix_Allocate sid s))) = (\<lambda>k. k < pcount s)"
    "\<And>ip s. (\<lambda>k. k < pcount (prefix_Release ip s)) = (\<lambda>k. k < pcount s)"
    "\<And>ip sid s. (\<lambda>k. k < pcount (snd (prefix_Reserve ip sid s))) = (\<lambda>k. k < pcount s)"
    by (simp_all add: prefix_config)
qed (auto simp: prefix_Allocate_def prefix_Release_def prefix_Reserve_eq)

subsection \<open>Construction\<close>

lemma word_le_pred_iff:
  assumes "i \<noteq> (0 :: 'a :: len word)"
  shows "k \<le> i \<longleftrightarrow> k = i \<or> k \<le> i - 1"
proof -
  have "unat (i - 1) = unat i - 1" "0 < unat i" using assms by (simp_all add: unat_minus_one unat_gt_0)
  then show ?thesis unfolding word_le_nat_alt word_unat_eq_iff by linarith
qed

lemma word_ge_Suc_iff:
  assumes "i < (c :: 'a :: len word)"
  shows "i \<le> k \<longleftrightarrow> k = i \<or> i + 1 \<le> k"
  using unat_Suc_below [OF assms] unfolding word_le_nat_alt word_unat_eq_iff by linarith

lemma downLoop_set: "set (downLoop used i) = {k. k \<le> i \<and> \<not> used k} \<and> distinct (downLoop used i)"
proof (induction used i rule: downLoop.induct)
  case (1 used i)
  show ?case
  proof (cases "i = 0")
    case True
    then show ?thesis unfolding downLoop.simps [of used i] by auto
  next
    case False
    have "\<not> i \<le> i - 1" using False by (simp add: word_le_nat_alt unat_minus_one unat_gt_0 not_le)
    with 1 [OF False] False show ?thesis
      unfolding downLoop.simps [of used i] word_le_pred_iff [OF False] by auto
  qed
qed

lemma upLoop_set: "set (upLoop used c i) = {k. i \<le> k \<and> k < c \<and> \<not> used k} \<and> distinct (upLoop used c i)"
proof (induction used c i rule: upLoop.induct)
  case (1 used c i)
  show ?case
  proof (cases "i < c")
    case True
    have "\<not> i + 1 \<le> i" using unat_Suc_below [OF True] by (simp add: word_le_nat_alt)
    with 1 [OF True] True show ?thesis
      unfolding upLoop.simps [of used c i] word_ge_Suc_iff [OF True] by auto
  next
    case False
    then show ?thesis by (auto simp: upLoop.simps [of used c i])
  qed
qed

lemma prefix_buildFreeList_set:
  assumes "0 < pcount a"
  shows "set (pfree (prefix_buildFreeList a)) = {k. k < pcount a \<and> pleases a k = None}
    \<and> distinct (pfree (prefix_buildFreeList a))"
proof -
  have "k \<le> pcount a - 1 \<longleftrightarrow> k < pcount a" for k
    using word_le_pred_iff [of "pcount a" k] assms unat_gt_0 [of "pcount a"]
    unfolding word_less_nat_alt word_le_nat_alt by (auto simp: unat_minus_one)
  then show ?thesis
    using downLoop_set [of "\<lambda>i. pleases a i \<noteq> None" "pcount a - 1"] upLoop_set [of "\<lambda>i. pleases a i \<noteq> None" "pcount a" 0]
    by (simp add: prefix_buildFreeList_def Let_def)
qed

lemma prefix_buildFreeList_sel [simp]:
  "base (prefix_buildFreeList a) = base a" "networkBits (prefix_buildFreeList a) = networkBits a"
  "prefixLength (prefix_buildFreeList a) = prefixLength a" "pcount (prefix_buildFreeList a) = pcount a"
  "pleases (prefix_buildFreeList a) = pleases a" "pascending (prefix_buildFreeList a) = pascending a"
  by (simp_all add: prefix_buildFreeList_def Let_def)

lemma unat_push_bit_1:
  assumes "n < LENGTH('a)"
  shows "unat (push_bit n (1 :: 'a :: len word)) = 2 ^ n"
proof -
  have "push_bit n (1 :: 'a word) = of_nat (2 ^ n)" by (simp add: push_bit_eq_mult)
  then show ?thesis using assms by (simp add: unat_of_nat take_bit_nat_eq_self del: of_nat_power)
qed

lemma NewPrefixAllocator_inv:
  assumes "NewPrefixAllocator network len = Some a" "0 \<le> pBits network" "len \<le> 128"
  shows "prefix_inv a \<and> pleases a = Map.empty \<and> set (pfree a) = {k. k < pcount a} \<and>
    unat (pcount a) = 2 ^ nat (len - pBits network) \<and> prefixLength a = len \<and> networkBits a = pBits network \<and>
    base a = maskedAddr network"
proof -
  from assms(1) have d: "0 \<le> len - pBits network" "len - pBits network \<le> 63"
    and a: "a = prefix_buildFreeList \<lparr>base = maskedAddr network, networkBits = pBits network, prefixLength = len,
       pcount = push_bit (nat (len - pBits network)) 1, pleases = Map.empty, pfree = [], pascending = True\<rparr>"
    by (auto simp: NewPrefixAllocator_def Let_def split: if_splits)
  have c: "unat (push_bit (nat (len - pBits network)) (1 :: u64)) = 2 ^ nat (len - pBits network)"
    using d by (intro unat_push_bit_1) (simp add: nat_less_iff)
  have "(2 :: nat) ^ nat (len - pBits network) \<le> 2 ^ nat len"
    using assms(2) by (intro power_increasing) (simp_all add: nat_mono)
  with c have "prefix_wf a" using d assms by (simp add: prefix_wf_def a)
  moreover have "0 < pcount a" using c by (simp add: a word_less_nat_alt)
  ultimately show ?thesis
    using prefix_buildFreeList_set [of a] prefix_buildFreeList_set c
    by (simp add: free_list_inv_def a)
qed

subsection \<open>The network of a pool\<close>

lemma network_offset:
  fixes x b :: u128
  assumes "take_bit k b = 0" "k \<le> 128"
  shows "take_bit k (x - b) = x - b \<longleftrightarrow> drop_bit k x = drop_bit k b"
proof
  have b0: "\<not> bit b n" if "n < k" for n using assms(1) that by (metis bit_take_bit_iff bit_0_eq bot_fun_def bot_bool_def)
  assume t: "take_bit k (x - b) = x - b"
  have "x = b OR take_bit k (x - b)"
  proof -
    have "b + take_bit k (x - b) = b OR take_bit k (x - b)"
      by (rule disjunctive_add) (auto simp: bit_simps b0)
    then show ?thesis using t by simp
  qed
  then have "drop_bit k x = drop_bit k (b OR take_bit k (x - b))" by simp
  then show "drop_bit k x = drop_bit k b" by (simp add: drop_bit_or bit_eq_iff bit_simps)
next
  have b0: "\<not> bit b n" if "n < k" for n using assms(1) that by (metis bit_take_bit_iff bit_0_eq bot_fun_def bot_bool_def)
  assume "drop_bit k x = drop_bit k b"
  then have d: "bit x (k + n) = bit b (k + n)" for n by (metis bit_drop_bit_eq comp_apply)
  have "x = b OR take_bit k x"
  proof (rule bit_word_eqI)
    fix n assume "n < LENGTH(128)"
    show "bit x n = bit (b OR take_bit k x) n"
      using d [of "n - k"] b0 [of n] by (cases "n < k") (auto simp: bit_simps)
  qed
  also have "\<dots> = b + take_bit k x"
    by (rule disjunctive_add [symmetric]) (auto simp: bit_simps b0)
  finally have "x - b = take_bit k x" by (metis add_diff_cancel_left')
  then show "take_bit k (x - b) = x - b" by simp
qed

lemma take_bit_eq_iff_less: "k \<le> LENGTH('a) \<Longrightarrow> take_bit k w = w \<longleftrightarrow> unat (w :: 'a :: len word) < 2 ^ k"
  by (simp add: word_unat_eq_iff unsigned_take_bit_eq take_bit_nat_eq_self_iff)

lemma index_below_iff:
  fixes d :: u128
  assumes "64 \<le> k" "k \<le> 128" "m \<le> 63"
  shows "unat (ucast (drop_bit k d) :: u64) < 2 ^ m \<longleftrightarrow> unat d < 2 ^ (k + m)"
proof -
  have e: "unat (drop_bit k d) = unat d div 2 ^ k"
    by (subst unat_drop_bit_eq) (simp add: drop_bit_eq_div)
  have "unat d < 2 ^ 128" using unsigned_less [of d, where 'a = nat] by simp
  also have "(2 :: nat) ^ 128 \<le> 2 ^ (64 + k)" using assms(1) by (intro power_increasing) simp_all
  also have "\<dots> = 2 ^ 64 * 2 ^ k" by (rule power_add)
  finally have "unat d div 2 ^ k < 2 ^ 64" by (simp add: less_mult_imp_div_less)
  then have "unat (ucast (drop_bit k d) :: u64) = unat d div 2 ^ k"
    by (simp add: unsigned_ucast_eq e take_bit_nat_eq_self)
  then show ?thesis by (simp add: div_less_iff_less_mult power_add mult.commute)
qed

lemma masked_V6:
  "take_bit k (w AND push_bit k (- 1)) = 0" "drop_bit k (w AND push_bit k (- 1)) = drop_bit k (w :: u128)"
  by (rule bit_word_eqI; auto simp: bit_simps dest: bit_imp_le_length)+

lemma prefix_Contains_network:
  assumes new: "NewPrefixAllocator network len = Some a" "pAddr network = V6 w z"
    and range: "0 \<le> pBits network" "len \<le> 64"
  shows "prefix_Contains a (Some p) \<longleftrightarrow> Mask_Size (nMask p) = (nat len, 128) \<and>
    (\<exists>x. AddrFromSlice (nIP p) = Some x \<and>
      drop_bit (128 - nat (pBits network)) (addr128 x) = drop_bit (128 - nat (pBits network)) w)"
proof -
  define k where "k = 128 - nat (pBits network)"
  from new(1) have d: "0 \<le> len - pBits network" "len - pBits network \<le> 63"
    by (auto simp: NewPrefixAllocator_def Let_def split: if_splits)
  have a: "prefixLength a = len" "base a = V6 (w AND push_bit k (- 1)) []"
      "unat (pcount a) = 2 ^ nat (len - pBits network)"
    using NewPrefixAllocator_inv [OF new(1)] range d new(2) by (simp_all add: maskedAddr_def k_def)
  have sh: "prefixShift a = 128 - nat len" using a(1) d range by (simp add: prefixShift_def)
  have km: "128 - nat len + nat (len - pBits network) = k" using d range by (simp add: k_def)
  have "ucast (drop_bit (prefixShift a) (addr128 x - addr128 (base a))) < pcount a \<longleftrightarrow>
      drop_bit k (addr128 x) = drop_bit k w" for x
  proof -
    define b where "b = w AND push_bit k (- 1)"
    have mask: "take_bit k b = 0" "drop_bit k b = drop_bit k w"
      unfolding b_def by (rule masked_V6)+
    have k: "k \<le> 128" by (simp add: k_def)
    have b: "addr128 (base a) = b" by (simp add: a(2) addr128_def b_def)
    have "ucast (drop_bit (prefixShift a) (addr128 x - b)) < pcount a \<longleftrightarrow> unat (addr128 x - b) < 2 ^ k"
      using index_below_iff [of "128 - nat len" "nat (len - pBits network)" "addr128 x - b"] d range a(3) km
      by (simp add: word_less_nat_alt sh)
    also have "\<dots> \<longleftrightarrow> drop_bit k (addr128 x) = drop_bit k b"
      using network_offset [OF mask(1) k, of "addr128 x"] k by (simp add: take_bit_eq_iff_less)
    finally show ?thesis by (simp add: b mask)
  qed
  then show ?thesis
    using d range unfolding prefix_Contains_def prefixToIndex_eq a(1) k_def [symmetric]
    by (auto simp: Let_def not_le [symmetric] split: option.split)
qed

end
