(* ===== verification/Go_Parse.thy ===== *)
theory Go_Parse
  imports Alloc_Prefix
begin

section \<open>Reading addresses from text\<close>

text \<open>
  The parsers of Go's \<^verbatim>\<open>net/netip\<close> and \<^verbatim>\<open>net\<close> that the configuration and AAA paths call:
  \<^verbatim>\<open>ParseAddr\<close>, \<^verbatim>\<open>ParsePrefix\<close>, \<^verbatim>\<open>ParseIP\<close>, \<^verbatim>\<open>ParseCIDR\<close> and \<^verbatim>\<open>strings.TrimSpace\<close>. A string is
  its bytes as characters; an error is \<^term>\<open>None\<close>. \<^verbatim>\<open>TrimSpace\<close> trims the ASCII spaces.
\<close>

definition isDigit :: "char \<Rightarrow> bool" where
  "isDigit c \<longleftrightarrow> 48 \<le> (of_char c :: nat) \<and> (of_char c :: nat) \<le> 57"

definition digitVal :: "char \<Rightarrow> nat" where
  "digitVal c = of_char c - 48"

definition isHex :: "char \<Rightarrow> bool" where
  "isHex c \<longleftrightarrow> isDigit c \<or> 97 \<le> (of_char c :: nat) \<and> (of_char c :: nat) \<le> 102
     \<or> 65 \<le> (of_char c :: nat) \<and> (of_char c :: nat) \<le> 70"

definition hexVal :: "char \<Rightarrow> nat" where
  "hexVal c = (let n = of_char c in if n \<le> 57 then n - 48 else if 97 \<le> n then n - 87 else n - 55)"

subsection \<open>IPv4\<close>

text \<open>
  \<^verbatim>\<open>parseIPv4Fields\<close>: \<open>start\<close> says that the next character is the first or follows a dot, then the
  value and the number of digits of the current field and the fields read.
\<close>

fun parseIPv4Fields :: "bool \<Rightarrow> nat \<Rightarrow> nat \<Rightarrow> bytes \<Rightarrow> string \<Rightarrow> bytes option" where
  "parseIPv4Fields start val dig fs [] = (if length fs < 3 then None else Some (fs @ [of_nat val]))"
| "parseIPv4Fields start val dig fs (c # cs) =
     (if isDigit c then
        (if dig = 1 \<and> val = 0 then None
         else if 255 < val * 10 + digitVal c then None
         else parseIPv4Fields False (val * 10 + digitVal c) (dig + 1) fs cs)
      else if c = CHR ''.'' then
        (if start \<or> cs = [] then None
         else if length fs = 3 then None
         else parseIPv4Fields True 0 0 (fs @ [of_nat val]) cs)
      else None)"

definition parseIPv4 :: "string \<Rightarrow> Addr option" where
  "parseIPv4 s = map_option (\<lambda>fs. V4 (get32 fs)) (parseIPv4Fields True 0 0 [] s)"

subsection \<open>IPv6\<close>

definition hexNum :: "string \<Rightarrow> nat" where
  "hexNum ds = foldl (\<lambda>acc c. acc * 16 + hexVal c) 0 ds"

text \<open>
  The loop over the groups, \<open>n\<close> more rounds of it, with the bytes read and the position of the ellipsis.
\<close>

fun parseIPv6Groups :: "nat \<Rightarrow> bytes \<Rightarrow> nat option \<Rightarrow> string \<Rightarrow> (bytes \<times> nat option) option" where
  "parseIPv6Groups 0 ip ell s = (if s \<noteq> [] then None else Some (ip, ell))"
| "parseIPv6Groups (Suc n) ip ell s =
     (let ds = takeWhile isHex s; r = dropWhile isHex s in
      if 4 < length ds then None
      else if ds = [] then None
      else if r \<noteq> [] \<and> hd r = CHR ''.'' then
        (if ell = None \<and> length ip \<noteq> 12 then None
         else if 16 < length ip + 4 then None
         else map_option (\<lambda>fs. (ip @ fs, ell)) (parseIPv4Fields True 0 0 [] s))
      else (let ip = ip @ put16 (of_nat (hexNum ds)) in
        if r = [] then Some (ip, ell)
        else if hd r \<noteq> CHR '':'' then None
        else if tl r = [] then None
        else (let s = tl r in
          if hd s = CHR '':'' then
            (if ell \<noteq> None then None
             else if tl s = [] then Some (ip, Some (length ip))
             else parseIPv6Groups n ip (Some (length ip)) (tl s))
          else parseIPv6Groups n ip ell s)))"

definition expandEllipsis :: "bytes \<Rightarrow> nat option \<Rightarrow> bytes option" where
  "expandEllipsis ip ell =
     (if length ip < 16 then
        (case ell of None \<Rightarrow> None
         | Some e \<Rightarrow> Some (take e ip @ replicate (16 - length ip) 0 @ drop e ip))
      else if ell \<noteq> None then None else Some ip)"

definition parseIPv6 :: "string \<Rightarrow> Addr option" where
  "parseIPv6 input =
     (let s = takeWhile (\<lambda>c. c \<noteq> CHR ''%'') input; r = dropWhile (\<lambda>c. c \<noteq> CHR ''%'') input; zone = tl r in
      if r \<noteq> [] \<and> zone = [] then None
      else (let lead = (2 \<le> length s \<and> s ! 0 = CHR '':'' \<and> s ! 1 = CHR '':'');
                s = (if lead then drop 2 s else s) in
        if lead \<and> s = [] then Some (V6 0 zone)
        else (case parseIPv6Groups 8 [] (if lead then Some 0 else None) s of None \<Rightarrow> None
          | Some (ip, ell) \<Rightarrow> map_option (\<lambda>bs. V6 (word_of_16 bs) zone) (expandEllipsis ip ell))))"

fun ParseAddr_from :: "string \<Rightarrow> string \<Rightarrow> Addr option" where
  "ParseAddr_from s [] = None"
| "ParseAddr_from s (c # cs) =
     (if c = CHR ''.'' then parseIPv4 s else if c = CHR '':'' then parseIPv6 s
      else if c = CHR ''%'' then None else ParseAddr_from s cs)"

definition ParseAddr :: "string \<Rightarrow> Addr option" where
  "ParseAddr s = ParseAddr_from s s"

subsection \<open>Prefixes\<close>

definition Is6 :: "Addr \<Rightarrow> bool" where
  "Is6 a = (case a of V6 _ _ \<Rightarrow> True | _ \<Rightarrow> False)"

definition decNum :: "string \<Rightarrow> nat" where
  "decNum ds = foldl (\<lambda>acc c. acc * 10 + digitVal c) 0 ds"

text \<open>The text before the last slash and after it.\<close>

definition lastSlash :: "string \<Rightarrow> (string \<times> string) option" where
  "lastSlash s = (if CHR ''/'' \<in> set s
     then Some (rev (tl (dropWhile (\<lambda>c. c \<noteq> CHR ''/'') (rev s))), rev (takeWhile (\<lambda>c. c \<noteq> CHR ''/'') (rev s)))
     else None)"

definition ParsePrefix :: "string \<Rightarrow> Prefix option" where
  "ParsePrefix s = (case lastSlash s of None \<Rightarrow> None
     | Some (a, bits) \<Rightarrow> (case ParseAddr a of None \<Rightarrow> None
       | Some ip \<Rightarrow>
          (if Zone ip \<noteq> [] then None
           else if bits = [] \<or> \<not> list_all isDigit bits \<or> 1 < length bits \<and> hd bits = CHR ''0'' then None
           else if (if Is6 ip then 128 else 32) < decNum bits then None
           else Some \<lparr>pAddr = ip, pBits = int (decNum bits)\<rparr>)))"

subsection \<open>Package net\<close>

definition ParseIP :: "string \<Rightarrow> bytes option" where
  "ParseIP s = (case ParseAddr s of None \<Rightarrow> None | Some a \<Rightarrow> if Zone a \<noteq> [] then None else Some (As16 a))"

definition IP_Mask :: "bytes \<Rightarrow> bytes \<Rightarrow> bytes" where
  "IP_Mask ip m =
     (let m = (if length m = 16 \<and> length ip = 4 \<and> list_all (\<lambda>b. b = 0xff) (take 12 m) then drop 12 m else m);
          ip = (if length m = 4 \<and> length ip = 16 \<and> take 12 ip = v4InV6Prefix then drop 12 ip else ip)
      in if length ip \<noteq> length m then [] else map2 (AND) ip m)"

definition ParseCIDR :: "string \<Rightarrow> (bytes \<times> IPNet) option" where
  "ParseCIDR s =
     (let a = takeWhile (\<lambda>c. c \<noteq> CHR ''/'') s; r = dropWhile (\<lambda>c. c \<noteq> CHR ''/'') s in
      if r = [] then None
      else (case ParseAddr a of None \<Rightarrow> None
        | Some ip \<Rightarrow>
           (if Zone ip \<noteq> [] then None
            else if tl r = [] \<or> \<not> list_all isDigit (tl r) \<or> BitLen ip < decNum (tl r) then None
            else (let m = CIDRMask (int (decNum (tl r))) (BitLen ip) in
              Some (As16 ip, \<lparr>nIP = IP_Mask (As16 ip) m, nMask = m\<rparr>)))))"

definition isSpace :: "char \<Rightarrow> bool" where
  "isSpace c \<longleftrightarrow> c = CHR '' '' \<or> 9 \<le> (of_char c :: nat) \<and> (of_char c :: nat) \<le> 13"

definition TrimSpace :: "string \<Rightarrow> string" where
  "TrimSpace s = rev (dropWhile isSpace (rev (dropWhile isSpace s)))"

subsection \<open>What a successful parse returns\<close>

lemma parseIPv4_V4: "parseIPv4 s = Some a \<Longrightarrow> \<exists>w. a = V4 w"
  by (auto simp: parseIPv4_def)

lemma parseIPv6_V6: "parseIPv6 s = Some a \<Longrightarrow> \<exists>w z. a = V6 w z"
  by (auto simp: parseIPv6_def Let_def split: if_splits option.splits)

lemma ParseAddr_not_Z0: "ParseAddr s = Some a \<Longrightarrow> a \<noteq> Z0 w"
proof -
  have "ParseAddr_from s t = Some a \<Longrightarrow> a \<noteq> Z0 w" for t
    by (induction t) (auto split: if_splits dest: parseIPv4_V4 parseIPv6_V6)
  then show "ParseAddr s = Some a \<Longrightarrow> a \<noteq> Z0 w" by (simp add: ParseAddr_def)
qed

lemma ParseIP_length: "ParseIP s = Some ip \<Longrightarrow> length ip = 16"
proof -
  have "length (As16 a) = 16" for a by (cases a) (simp_all add: v4InV6Prefix_def)
  then show "ParseIP s = Some ip \<Longrightarrow> length ip = 16" by (auto simp: ParseIP_def split: option.splits if_splits)
qed

end
