(* ===== verification/Alloc_Registry.thy ===== *)
theory Alloc_Registry
  imports Go_Parse
begin

section \<open>The registry of pools\<close>

text \<open>
  \<^verbatim>\<open>pkg/allocator/registry.go\<close> and \<^verbatim>\<open>context.go\<close>, and of \<^verbatim>\<open>pkg/config/ip/profiles.go\<close> the fields the
  registry reads. A registry maps pool keys \<^verbatim>\<open>profile/pool\<close> to
  allocators, profiles to their pools in order, and pool keys to VRFs. Where the code iterates over a Go map,
  the order of iteration is an argument. The methods' guards for a nil registry
  are not modelled: the receiver is a registry. \<open>netRange\<close> stands for \<^verbatim>\<open>inet.af/netaddr\<close>: for the text of a network it gives the text of its
  second and of its last but one address, if the text parses. Building a registry may not end, see
  \<^verbatim>\<open>NewPoolAllocator\<close>: then the result is \<^term>\<open>None\<close>. \<^verbatim>\<open>sort.Slice\<close> is a stable insertion sort on
  the few pools of a profile.
\<close>

record IPv4Pool =
  v4Name :: string
  v4Network :: string
  v4RangeStart :: string
  v4RangeEnd :: string
  v4Gateway :: string
  v4VRF :: string
  v4Priority :: int
  v4Exclude :: "string list"

record IPv4Profile =
  v4pGateway :: string
  v4pPools :: "IPv4Pool list"

record IANAPool =
  iaName :: string
  iaNetwork :: string
  iaRangeStart :: string
  iaRangeEnd :: string
  iaGateway :: string
  iaVRF :: string

record PDPool =
  pdName :: string
  pdNetwork :: string
  pdPrefixLength :: byte
  pdVRF :: string

record IPv6Profile =
  v6pIANAPools :: "IANAPool list"
  v6pPDPools :: "PDPool list"

record Registry =
  allocators :: "string \<rightharpoonup> PoolAllocator"
  profilePools :: "string \<rightharpoonup> string list"
  poolVRFs :: "string \<rightharpoonup> string"
  ianaAllocators :: "string \<rightharpoonup> PoolAllocator"
  profileIANAPools :: "string \<rightharpoonup> string list"
  pdAllocators :: "string \<rightharpoonup> PrefixAllocator"
  profilePDPools :: "string \<rightharpoonup> string list"

definition poolKey :: "string \<Rightarrow> string \<Rightarrow> string" where
  "poolKey profileName poolName = profileName @ ''/'' @ poolName"

subsection \<open>Building a registry\<close>

definition parseExcludeRange :: "string \<Rightarrow> Addr list option" where
  "parseExcludeRange s =
     (if CHR ''-'' \<in> set s then
        (let a = takeWhile (\<lambda>c. c \<noteq> CHR ''-'') s; b = tl (dropWhile (\<lambda>c. c \<noteq> CHR ''-'') s) in
         case ParseAddr (TrimSpace a) of None \<Rightarrow> Some []
         | Some start \<Rightarrow> (case ParseAddr (TrimSpace b) of None \<Rightarrow> Some []
           | Some end \<Rightarrow> addrLoop (\<lambda>_. False) start end))
      else (case ParseAddr (TrimSpace s) of None \<Rightarrow> Some [] | Some addr \<Rightarrow> Some [addr]))"

fun parseExcludes :: "string list \<Rightarrow> Addr list option" where
  "parseExcludes [] = Some []"
| "parseExcludes (e # es) = (case parseExcludeRange e of None \<Rightarrow> None
     | Some xs \<Rightarrow> map_option ((@) xs) (parseExcludes es))"

definition addVRF :: "string \<Rightarrow> string \<Rightarrow> Registry \<Rightarrow> Registry" where
  "addVRF key vrf r = (if vrf \<noteq> [] then r\<lparr>poolVRFs := (poolVRFs r)(key \<mapsto> vrf)\<rparr> else r)"

text \<open>The range of a pool: its own bounds, or those of its network.\<close>

definition poolRange :: "(string \<Rightarrow> (string \<times> string) option) \<Rightarrow> string \<Rightarrow> string \<Rightarrow> string \<Rightarrow> (Addr \<times> Addr) option" where
  "poolRange netRange network rStart rEnd = (case netRange network of None \<Rightarrow> None
     | Some (lo, hi) \<Rightarrow>
        (case ParseAddr (if rStart = [] then lo else rStart) of None \<Rightarrow> None
         | Some rs \<Rightarrow> (case ParseAddr (if rEnd = [] then hi else rEnd) of None \<Rightarrow> None
           | Some re \<Rightarrow> Some (rs, re))))"

definition initV4Pool ::
  "(string \<Rightarrow> (string \<times> string) option) \<Rightarrow> string \<Rightarrow> IPv4Profile \<Rightarrow> IPv4Pool \<Rightarrow> Registry \<Rightarrow> Registry option" where
  "initV4Pool netRange profileName profile pool r =
     (let key = poolKey profileName (v4Name pool); r = addVRF key (v4VRF pool) r in
      if allocators r key \<noteq> None then Some r
      else (case poolRange netRange (v4Network pool) (v4RangeStart pool) (v4RangeEnd pool) of None \<Rightarrow> Some r
        | Some (rs, re) \<Rightarrow>
           (let gateway = (if v4Gateway pool = [] then v4pGateway profile else v4Gateway pool);
                gw = (case ParseAddr gateway of None \<Rightarrow> [] | Some a \<Rightarrow> [a])
            in case parseExcludes (v4Exclude pool) of None \<Rightarrow> None
               | Some ex \<Rightarrow> map_option (\<lambda>a. r\<lparr>allocators := (allocators r)(key \<mapsto> a)\<rparr>)
                   (NewPoolAllocator rs re (gw @ ex)))))"

fun foldOpt :: "('a \<Rightarrow> 'r \<Rightarrow> 'r option) \<Rightarrow> 'a list \<Rightarrow> 'r \<Rightarrow> 'r option" where
  "foldOpt f [] r = Some r"
| "foldOpt f (x # xs) r = (case f x r of None \<Rightarrow> None | Some r' \<Rightarrow> foldOpt f xs r')"

definition initV4Profile ::
  "(string \<Rightarrow> (string \<times> string) option) \<Rightarrow> string \<times> IPv4Profile \<Rightarrow> Registry \<Rightarrow> Registry option" where
  "initV4Profile netRange = (\<lambda>(profileName, profile) r.
     (let names = map (\<lambda>p. poolKey profileName (v4Name p)) (sort_key v4Priority (v4pPools profile));
          r = r\<lparr>profilePools := (profilePools r)(profileName \<mapsto> names)\<rparr>
      in foldOpt (initV4Pool netRange profileName profile) (v4pPools profile) r))"

definition initV4Pools ::
  "(string \<Rightarrow> (string \<times> string) option) \<Rightarrow> (string \<times> IPv4Profile) list \<Rightarrow> Registry \<Rightarrow> Registry option" where
  "initV4Pools netRange profiles r = foldOpt (initV4Profile netRange) profiles r"

definition initIANAPool ::
  "(string \<Rightarrow> (string \<times> string) option) \<Rightarrow> string \<Rightarrow> IANAPool \<Rightarrow> Registry \<Rightarrow> Registry option" where
  "initIANAPool netRange profileName pool r =
     (let key = poolKey profileName (iaName pool); r = addVRF key (iaVRF pool) r in
      if ianaAllocators r key \<noteq> None then Some r
      else (case poolRange netRange (iaNetwork pool) (iaRangeStart pool) (iaRangeEnd pool) of None \<Rightarrow> Some r
        | Some (rs, re) \<Rightarrow>
           (let gw = (case ParseAddr (iaGateway pool) of None \<Rightarrow> [] | Some a \<Rightarrow> [a])
            in map_option (\<lambda>a. r\<lparr>ianaAllocators := (ianaAllocators r)(key \<mapsto> a)\<rparr>) (NewPoolAllocator rs re gw))))"

definition initPDPool :: "string \<Rightarrow> PDPool \<Rightarrow> Registry \<Rightarrow> Registry option" where
  "initPDPool profileName pool r =
     (let key = poolKey profileName (pdName pool); r = addVRF key (pdVRF pool) r in
      if pdAllocators r key \<noteq> None then Some r
      else (case ParsePrefix (pdNetwork pool) of None \<Rightarrow> Some r
        | Some prefix \<Rightarrow> (case NewPrefixAllocator prefix (uint (pdPrefixLength pool)) of None \<Rightarrow> Some r
          | Some a \<Rightarrow> Some (r\<lparr>pdAllocators := (pdAllocators r)(key \<mapsto> a)\<rparr>))))"

definition initV6Profile ::
  "(string \<Rightarrow> (string \<times> string) option) \<Rightarrow> string \<times> IPv6Profile \<Rightarrow> Registry \<Rightarrow> Registry option" where
  "initV6Profile netRange = (\<lambda>(profileName, profile) r.
     Option.bind (foldOpt (initIANAPool netRange profileName) (v6pIANAPools profile) r) (\<lambda>r.
     (let r = r\<lparr>profileIANAPools := (profileIANAPools r)
            (profileName \<mapsto> map (\<lambda>p. poolKey profileName (iaName p)) (v6pIANAPools profile))\<rparr> in
      Option.bind (foldOpt (initPDPool profileName) (v6pPDPools profile) r) (\<lambda>r.
      Some (r\<lparr>profilePDPools := (profilePDPools r)
            (profileName \<mapsto> map (\<lambda>p. poolKey profileName (pdName p)) (v6pPDPools profile))\<rparr>)))))"

definition initV6Pools ::
  "(string \<Rightarrow> (string \<times> string) option) \<Rightarrow> (string \<times> IPv6Profile) list \<Rightarrow> Registry \<Rightarrow> Registry option" where
  "initV6Pools netRange profiles r = foldOpt (initV6Profile netRange) profiles r"

definition emptyRegistry :: Registry where
  "emptyRegistry = \<lparr>allocators = Map.empty, profilePools = Map.empty, poolVRFs = Map.empty,
     ianaAllocators = Map.empty, profileIANAPools = Map.empty, pdAllocators = Map.empty, profilePDPools = Map.empty\<rparr>"

definition newRegistry ::
  "(string \<Rightarrow> (string \<times> string) option) \<Rightarrow> (string \<times> IPv4Profile) list \<Rightarrow> (string \<times> IPv6Profile) list \<Rightarrow> Registry option" where
  "newRegistry netRange v4 v6 = Option.bind (initV4Pools netRange v4 emptyRegistry) (initV6Pools netRange v6)"

subsection \<open>Allocation\<close>

definition vrfOf :: "(string \<rightharpoonup> string) \<Rightarrow> string \<Rightarrow> string" where
  "vrfOf vrfs key = (case vrfs key of None \<Rightarrow> [] | Some v \<Rightarrow> v)"

text \<open>
  The three allocation methods share their text; \<open>allocate\<close> is the method of the allocator they call.
\<close>

fun allocFromPools ::
  "(session_id \<Rightarrow> 'a \<Rightarrow> (alloc_error + 'ip) \<times> 'a) \<Rightarrow> (string \<rightharpoonup> string) \<Rightarrow> string \<Rightarrow> session_id \<Rightarrow> string list
    \<Rightarrow> (string \<rightharpoonup> 'a) \<Rightarrow> (alloc_error + 'ip \<times> string) \<times> (string \<rightharpoonup> 'a)" where
  "allocFromPools allocate vrfs vrf sid [] m = (Inl ErrPoolExhausted, m)"
| "allocFromPools allocate vrfs vrf sid (p # ps) m =
     (if vrfOf vrfs p \<noteq> vrf then allocFromPools allocate vrfs vrf sid ps m
      else (case m p of None \<Rightarrow> allocFromPools allocate vrfs vrf sid ps m
        | Some a \<Rightarrow> (case allocate sid a of
            (Inr ip, a') \<Rightarrow> (Inr (ip, p), m(p \<mapsto> a'))
          | (Inl _, a') \<Rightarrow> allocFromPools allocate vrfs vrf sid ps (m(p \<mapsto> a')))))"

definition allocFromProfile ::
  "(session_id \<Rightarrow> 'a \<Rightarrow> (alloc_error + 'ip) \<times> 'a) \<Rightarrow> (string \<rightharpoonup> string list) \<Rightarrow> (string \<rightharpoonup> string)
    \<Rightarrow> string \<Rightarrow> string \<Rightarrow> string \<Rightarrow> session_id \<Rightarrow> (string \<rightharpoonup> 'a) \<Rightarrow> (alloc_error + 'ip \<times> string) \<times> (string \<rightharpoonup> 'a)" where
  "allocFromProfile allocate pools vrfs profileName override vrf sid m =
     (let names = (case pools profileName of None \<Rightarrow> [] | Some ns \<Rightarrow> ns); key = poolKey profileName override in
      if override \<noteq> [] then
        (case m key of None \<Rightarrow> allocFromPools allocate vrfs vrf sid names m
         | Some a \<Rightarrow> (case allocate sid a of
             (Inr ip, a') \<Rightarrow> (Inr (ip, key), m(key \<mapsto> a'))
           | (Inl _, a') \<Rightarrow> allocFromPools allocate vrfs vrf sid names (m(key \<mapsto> a'))))
      else allocFromPools allocate vrfs vrf sid names m)"

definition AllocateFromProfile ::
  "string \<Rightarrow> string \<Rightarrow> string \<Rightarrow> session_id \<Rightarrow> Registry \<Rightarrow> (alloc_error + bytes \<times> string) \<times> Registry" where
  "AllocateFromProfile profileName override vrf sid r =
     (case allocFromProfile pool_Allocate (profilePools r) (poolVRFs r) profileName override vrf sid (allocators r) of
        (res, m) \<Rightarrow> (res, r\<lparr>allocators := m\<rparr>))"

definition AllocateIANAFromProfile ::
  "string \<Rightarrow> string \<Rightarrow> string \<Rightarrow> session_id \<Rightarrow> Registry \<Rightarrow> (alloc_error + bytes \<times> string) \<times> Registry" where
  "AllocateIANAFromProfile profileName override vrf sid r =
     (case allocFromProfile pool_Allocate (profileIANAPools r) (poolVRFs r) profileName override vrf sid (ianaAllocators r) of
        (res, m) \<Rightarrow> (res, r\<lparr>ianaAllocators := m\<rparr>))"

definition AllocatePDFromProfile ::
  "string \<Rightarrow> string \<Rightarrow> string \<Rightarrow> session_id \<Rightarrow> Registry \<Rightarrow> (alloc_error + IPNet option \<times> string) \<times> Registry" where
  "AllocatePDFromProfile profileName override vrf sid r =
     (case allocFromProfile prefix_Allocate (profilePDPools r) (poolVRFs r) profileName override vrf sid (pdAllocators r) of
        (res, m) \<Rightarrow> (res, r\<lparr>pdAllocators := m\<rparr>))"

subsection \<open>Release and reservation\<close>

text \<open>
  Again one text for the tables of pools: release in a named pool, in every pool, or in the first that
  contains the address; reservation in a named pool or in the first that contains it. \<open>order\<close> lists the
  keys of the table in the order the \<^verbatim>\<open>range\<close> loop visits them.
\<close>

definition releaseIn :: "('ip \<Rightarrow> 'a \<Rightarrow> 'a) \<Rightarrow> string \<Rightarrow> 'ip \<Rightarrow> (string \<rightharpoonup> 'a) \<Rightarrow> (string \<rightharpoonup> 'a)" where
  "releaseIn release poolName ip m = (case m poolName of None \<Rightarrow> m | Some a \<Rightarrow> m(poolName \<mapsto> release ip a))"

definition releaseAll :: "('ip \<Rightarrow> 'a \<Rightarrow> 'a) \<Rightarrow> 'ip \<Rightarrow> (string \<rightharpoonup> 'a) \<Rightarrow> (string \<rightharpoonup> 'a)" where
  "releaseAll release ip m = (\<lambda>k. map_option (release ip) (m k))"

definition firstContaining :: "('a \<Rightarrow> 'ip \<Rightarrow> bool) \<Rightarrow> string list \<Rightarrow> 'ip \<Rightarrow> (string \<rightharpoonup> 'a) \<Rightarrow> string option" where
  "firstContaining contains order ip m =
     find (\<lambda>k. case m k of None \<Rightarrow> False | Some a \<Rightarrow> contains a ip) order"

definition releaseFirst ::
  "('a \<Rightarrow> 'ip \<Rightarrow> bool) \<Rightarrow> ('ip \<Rightarrow> 'a \<Rightarrow> 'a) \<Rightarrow> string list \<Rightarrow> 'ip \<Rightarrow> (string \<rightharpoonup> 'a) \<Rightarrow> (string \<rightharpoonup> 'a)" where
  "releaseFirst contains release order ip m =
     (case firstContaining contains order ip m of None \<Rightarrow> m | Some k \<Rightarrow> releaseIn release k ip m)"

definition reserveAt ::
  "('ip \<Rightarrow> session_id \<Rightarrow> 'a \<Rightarrow> alloc_error option \<times> 'a) \<Rightarrow> string \<Rightarrow> 'ip \<Rightarrow> session_id \<Rightarrow> (string \<rightharpoonup> 'a)
    \<Rightarrow> alloc_error option \<times> (string \<rightharpoonup> 'a)" where
  "reserveAt reserve k ip sid m = (case m k of None \<Rightarrow> (None, m)
     | Some a \<Rightarrow> (case reserve ip sid a of (e, a') \<Rightarrow> (e, m(k \<mapsto> a'))))"

definition reserveFirst ::
  "('a \<Rightarrow> 'ip \<Rightarrow> bool) \<Rightarrow> ('ip \<Rightarrow> session_id \<Rightarrow> 'a \<Rightarrow> alloc_error option \<times> 'a) \<Rightarrow> string list \<Rightarrow> 'ip \<Rightarrow> session_id
    \<Rightarrow> (string \<rightharpoonup> 'a) \<Rightarrow> alloc_error option \<times> (string \<rightharpoonup> 'a)" where
  "reserveFirst contains reserve order ip sid m =
     (case firstContaining contains order ip m of None \<Rightarrow> (None, m) | Some k \<Rightarrow> reserveAt reserve k ip sid m)"

definition reserveInPool ::
  "('a \<Rightarrow> 'ip \<Rightarrow> bool) \<Rightarrow> ('ip \<Rightarrow> session_id \<Rightarrow> 'a \<Rightarrow> alloc_error option \<times> 'a) \<Rightarrow> string list \<Rightarrow> string \<Rightarrow> 'ip \<Rightarrow> session_id
    \<Rightarrow> (string \<rightharpoonup> 'a) \<Rightarrow> alloc_error option \<times> (string \<rightharpoonup> 'a)" where
  "reserveInPool contains reserve order key ip sid m =
     (if m key \<noteq> None then reserveAt reserve key ip sid m else reserveFirst contains reserve order ip sid m)"

definition Release :: "string \<Rightarrow> bytes \<Rightarrow> Registry \<Rightarrow> Registry" where
  "Release poolName ip r = r\<lparr>allocators := releaseIn pool_Release poolName ip (allocators r)\<rparr>"

definition ReleaseIANA :: "string \<Rightarrow> bytes \<Rightarrow> Registry \<Rightarrow> Registry" where
  "ReleaseIANA poolName ip r = r\<lparr>ianaAllocators := releaseIn pool_Release poolName ip (ianaAllocators r)\<rparr>"

definition ReleasePD :: "string \<Rightarrow> IPNet option \<Rightarrow> Registry \<Rightarrow> Registry" where
  "ReleasePD poolName prefix r = r\<lparr>pdAllocators := releaseIn prefix_Release poolName prefix (pdAllocators r)\<rparr>"

definition ReserveIP :: "string list \<Rightarrow> bytes \<Rightarrow> session_id \<Rightarrow> Registry \<Rightarrow> alloc_error option \<times> Registry" where
  "ReserveIP order ip sid r = (case reserveFirst pool_Contains pool_Reserve order ip sid (allocators r) of
     (e, m) \<Rightarrow> (e, r\<lparr>allocators := m\<rparr>))"

definition ReserveIANA :: "string list \<Rightarrow> bytes \<Rightarrow> session_id \<Rightarrow> Registry \<Rightarrow> alloc_error option \<times> Registry" where
  "ReserveIANA order ip sid r = (case reserveFirst pool_Contains pool_Reserve order ip sid (ianaAllocators r) of
     (e, m) \<Rightarrow> (e, r\<lparr>ianaAllocators := m\<rparr>))"

definition ReservePD :: "string list \<Rightarrow> IPNet option \<Rightarrow> session_id \<Rightarrow> Registry \<Rightarrow> alloc_error option \<times> Registry" where
  "ReservePD order prefix sid r = (case reserveFirst prefix_Contains prefix_Reserve order prefix sid (pdAllocators r) of
     (e, m) \<Rightarrow> (e, r\<lparr>pdAllocators := m\<rparr>))"

definition ReserveIPInPool :: "string list \<Rightarrow> string \<Rightarrow> bytes \<Rightarrow> session_id \<Rightarrow> Registry \<Rightarrow> alloc_error option \<times> Registry" where
  "ReserveIPInPool order key ip sid r = (case reserveInPool pool_Contains pool_Reserve order key ip sid (allocators r) of
     (e, m) \<Rightarrow> (e, r\<lparr>allocators := m\<rparr>))"

definition ReserveIANAInPool :: "string list \<Rightarrow> string \<Rightarrow> bytes \<Rightarrow> session_id \<Rightarrow> Registry \<Rightarrow> alloc_error option \<times> Registry" where
  "ReserveIANAInPool order key ip sid r = (case reserveInPool pool_Contains pool_Reserve order key ip sid (ianaAllocators r) of
     (e, m) \<Rightarrow> (e, r\<lparr>ianaAllocators := m\<rparr>))"

definition ReservePDInPool :: "string list \<Rightarrow> string \<Rightarrow> IPNet option \<Rightarrow> session_id \<Rightarrow> Registry \<Rightarrow> alloc_error option \<times> Registry" where
  "ReservePDInPool order key prefix sid r = (case reserveInPool prefix_Contains prefix_Reserve order key prefix sid (pdAllocators r) of
     (e, m) \<Rightarrow> (e, r\<lparr>pdAllocators := m\<rparr>))"

definition ReleaseIP :: "bytes \<Rightarrow> Registry \<Rightarrow> Registry" where
  "ReleaseIP ip r = r\<lparr>allocators := releaseAll pool_Release ip (allocators r)\<rparr>"

definition ReleaseIANAByIP :: "bytes \<Rightarrow> Registry \<Rightarrow> Registry" where
  "ReleaseIANAByIP ip r = r\<lparr>ianaAllocators := releaseAll pool_Release ip (ianaAllocators r)\<rparr>"

definition ReleasePDByPrefix :: "string list \<Rightarrow> IPNet option \<Rightarrow> Registry \<Rightarrow> Registry" where
  "ReleasePDByPrefix order prefix r = r\<lparr>pdAllocators := releaseFirst prefix_Contains prefix_Release order prefix (pdAllocators r)\<rparr>"

definition GetProfilePools :: "string \<Rightarrow> Registry \<Rightarrow> string list" where
  "GetProfilePools profileName r = (case profilePools r profileName of None \<Rightarrow> [] | Some ns \<Rightarrow> ns)"

definition setAll :: "('a \<Rightarrow> 'a option) \<Rightarrow> string list \<Rightarrow> (string \<rightharpoonup> 'a) \<Rightarrow> (string \<rightharpoonup> 'a) option" where
  "setAll f order m =
     foldOpt (\<lambda>k m. case m k of None \<Rightarrow> Some m | Some a \<Rightarrow> map_option (\<lambda>a'. m(k \<mapsto> a')) (f a)) order m"

definition SetAllocDirection :: "string list \<Rightarrow> string list \<Rightarrow> string list \<Rightarrow> bool \<Rightarrow> Registry \<Rightarrow> Registry option" where
  "SetAllocDirection order4 orderIANA orderPD asc r =
     Option.bind (setAll (pool_SetDirection asc) order4 (allocators r)) (\<lambda>m4.
     Option.bind (setAll (pool_SetDirection asc) orderIANA (ianaAllocators r)) (\<lambda>mi.
     map_option (\<lambda>mp. r\<lparr>allocators := m4, ianaAllocators := mi, pdAllocators := mp\<rparr>)
       (setAll (\<lambda>a. Some (prefix_SetDirection asc a)) orderPD (pdAllocators r))))"

subsection \<open>The allocation context of a subscriber\<close>

text \<open>
  AAA attributes are a map to values of any type, of which the code reads the strings. A nil \<^verbatim>\<open>net.IP\<close> or
  mask is the empty list, a nil \<^verbatim>\<open>*net.IPNet\<close> is \<^term>\<open>None\<close>.
\<close>

datatype attr = AStr string | AOther

record Context =
  SessionID :: session_id
  MAC :: bytes
  SVLAN :: u16
  CVLAN :: u16
  VRF :: string
  SubscriberGroup :: string
  ServiceGroup :: string
  ProfileName :: string
  IPv6ProfileName :: string
  IPv4Address :: bytes
  IPv4Netmask :: bytes
  IPv4Gateway :: bytes
  IPv6Address :: bytes
  IPv6Prefix :: "IPNet option"
  DNSv4 :: "bytes list"
  DNSv6 :: "bytes list"
  PoolOverride :: string
  IANAPoolOverride :: string
  PDPoolOverride :: string
  AllocatedPool :: string
  AllocatedIANAPool :: string
  AllocatedPDPool :: string

definition strAttr :: "(string \<rightharpoonup> attr) \<Rightarrow> string \<Rightarrow> string option" where
  "strAttr attrs name = (case attrs name of Some (AStr s) \<Rightarrow> Some s | _ \<Rightarrow> None)"

definition withAttr :: "(string \<rightharpoonup> attr) \<Rightarrow> string \<Rightarrow> (string \<Rightarrow> 'c \<Rightarrow> 'c) \<Rightarrow> 'c \<Rightarrow> 'c" where
  "withAttr attrs name f ctx = (case strAttr attrs name of None \<Rightarrow> ctx | Some s \<Rightarrow> f s ctx)"

definition ipOrNil :: "bytes option \<Rightarrow> bytes" where
  "ipOrNil o' = (case o' of None \<Rightarrow> [] | Some ip \<Rightarrow> ip)"

definition NewContext ::
  "session_id \<Rightarrow> bytes \<Rightarrow> u16 \<Rightarrow> u16 \<Rightarrow> string \<Rightarrow> string \<Rightarrow> string \<Rightarrow> string \<Rightarrow> (string \<rightharpoonup> attr) \<Rightarrow> Context" where
  "NewContext sid mac svlan cvlan vrf serviceGroup profileName ipv6ProfileName attrs =
     (let ctx = \<lparr>SessionID = sid, MAC = mac, SVLAN = svlan, CVLAN = cvlan, VRF = vrf, SubscriberGroup = [],
            ServiceGroup = serviceGroup, ProfileName = profileName, IPv6ProfileName = ipv6ProfileName,
            IPv4Address = [], IPv4Netmask = [], IPv4Gateway = [], IPv6Address = [], IPv6Prefix = None,
            DNSv4 = [], DNSv6 = [], PoolOverride = [], IANAPoolOverride = [], PDPoolOverride = [],
            AllocatedPool = [], AllocatedIANAPool = [], AllocatedPDPool = []\<rparr>;
          ctx = (if profileName = [] then ctx else
            fold (\<lambda>(name, f). withAttr attrs name f)
              [(''ipv4_address'', \<lambda>s c. c\<lparr>IPv4Address := ipOrNil (ParseIP s)\<rparr>),
               (''ipv4_netmask'', \<lambda>s c. (case ParseIP s of None \<Rightarrow> c | Some m \<Rightarrow> c\<lparr>IPv4Netmask := To4 m\<rparr>)),
               (''ipv4_gateway'', \<lambda>s c. c\<lparr>IPv4Gateway := ipOrNil (ParseIP s)\<rparr>),
               (''dns_primary'', \<lambda>s c. (case ParseIP s of None \<Rightarrow> c | Some ip \<Rightarrow> c\<lparr>DNSv4 := DNSv4 c @ [ip]\<rparr>)),
               (''dns_secondary'', \<lambda>s c. (case ParseIP s of None \<Rightarrow> c | Some ip \<Rightarrow> c\<lparr>DNSv4 := DNSv4 c @ [ip]\<rparr>)),
               (''pool'', \<lambda>s c. c\<lparr>PoolOverride := s\<rparr>)] ctx)
      in if ipv6ProfileName = [] then ctx else
            fold (\<lambda>(name, f). withAttr attrs name f)
              [(''ipv6_address'', \<lambda>s c. c\<lparr>IPv6Address := ipOrNil (ParseIP s)\<rparr>),
               (''ipv6_prefix'', \<lambda>s c. (case ParseCIDR s of None \<Rightarrow> c | Some (_, n) \<Rightarrow> c\<lparr>IPv6Prefix := Some n\<rparr>)),
               (''ipv6_dns_primary'', \<lambda>s c. (case ParseIP s of None \<Rightarrow> c | Some ip \<Rightarrow> c\<lparr>DNSv6 := DNSv6 c @ [ip]\<rparr>)),
               (''ipv6_dns_secondary'', \<lambda>s c. (case ParseIP s of None \<Rightarrow> c | Some ip \<Rightarrow> c\<lparr>DNSv6 := DNSv6 c @ [ip]\<rparr>)),
               (''iana_pool'', \<lambda>s c. c\<lparr>IANAPoolOverride := s\<rparr>),
               (''pd_pool'', \<lambda>s c. c\<lparr>PDPoolOverride := s\<rparr>)] ctx)"

subsection \<open>A table of pools behaves as its pools do\<close>

text \<open>
  For one pool of the table, every registry operation is a sequence of operations of its allocator, and it
  contains a release only if the operation is a release that names the pool or names none. So the contract of
  an allocator carries over to the table, once for the three tables.
\<close>

datatype 'ip table_op =
    TAllocate string string string session_id
  | TRelease string 'ip
  | TReleaseAll 'ip
  | TReleaseFirst "string list" 'ip
  | TReserve "string list" 'ip session_id
  | TReserveIn "string list" string 'ip session_id

fun releases :: "'ip table_op \<Rightarrow> string \<Rightarrow> 'ip \<Rightarrow> bool" where
  "releases (TRelease key ip) k x \<longleftrightarrow> k = key \<and> x = ip"
| "releases (TReleaseAll ip) k x \<longleftrightarrow> x = ip"
| "releases (TReleaseFirst order ip) k x \<longleftrightarrow> k \<in> set order \<and> x = ip"
| "releases _ k x \<longleftrightarrow> False"

text \<open>
  The pool a request is meant to be served from: the one named by the override if it has a free address,
  whatever its VRF, else the first pool of the profile that is in the subscriber's VRF and has one.
\<close>

definition hasFree :: "('a \<Rightarrow> nat) \<Rightarrow> (string \<rightharpoonup> 'a) \<Rightarrow> string \<Rightarrow> bool" where
  "hasFree available m p \<longleftrightarrow> (case m p of None \<Rightarrow> False | Some a \<Rightarrow> 0 < available a)"

definition choosePool ::
  "('a \<Rightarrow> nat) \<Rightarrow> (string \<rightharpoonup> string list) \<Rightarrow> (string \<rightharpoonup> string) \<Rightarrow> string \<Rightarrow> string \<Rightarrow> string \<Rightarrow> (string \<rightharpoonup> 'a) \<Rightarrow> string option" where
  "choosePool available pools vrfs profileName override vrf m =
     (if override \<noteq> [] \<and> hasFree available m (poolKey profileName override) then Some (poolKey profileName override)
      else find (\<lambda>p. vrfOf vrfs p = vrf \<and> hasFree available m p) (case pools profileName of None \<Rightarrow> [] | Some ns \<Rightarrow> ns))"

locale pool_table = lease_allocator inv key holder free_keys allocate release reserve available
  for inv :: "'s \<Rightarrow> bool" and key :: "'s \<Rightarrow> 'ip \<Rightarrow> 'k option" and holder :: "'s \<Rightarrow> 'k \<rightharpoonup> session_id"
    and free_keys :: "'s \<Rightarrow> 'k set" and allocate :: "session_id \<Rightarrow> 's \<Rightarrow> (alloc_error + 'ip) \<times> 's"
    and release :: "'ip \<Rightarrow> 's \<Rightarrow> 's" and reserve :: "'ip \<Rightarrow> session_id \<Rightarrow> 's \<Rightarrow> alloc_error option \<times> 's"
    and available :: "'s \<Rightarrow> nat" +
  fixes contains :: "'s \<Rightarrow> 'ip \<Rightarrow> bool"
begin

definition follows :: "string \<Rightarrow> ('ip \<Rightarrow> bool) \<Rightarrow> (string \<rightharpoonup> 's) \<Rightarrow> (string \<rightharpoonup> 's) \<Rightarrow> bool" where
  "follows k rel m m' \<longleftrightarrow> (\<exists>cs. m' k = map_option (\<lambda>a. foldl op_step a cs) (m k) \<and> (\<forall>x. OpRelease x \<in> set cs \<longrightarrow> rel x))"

lemma follows_refl: "m' k = m k \<Longrightarrow> follows k rel m m'"
  unfolding follows_def by (intro exI [of _ "[]"]) (simp add: option.map_ident)

lemma follows_step: "m k = Some a \<Longrightarrow> m' k = Some (op_step a c) \<Longrightarrow> (\<And>x. c = OpRelease x \<Longrightarrow> rel x) \<Longrightarrow> follows k rel m m'"
  unfolding follows_def by (intro exI [of _ "[c]"]) auto

lemma follows_trans:
  assumes "follows k rel m m1" "follows k rel m1 m2"
  shows "follows k rel m m2"
proof -
  from assms obtain cs ds where "m1 k = map_option (\<lambda>a. foldl op_step a cs) (m k)" "\<forall>x. OpRelease x \<in> set cs \<longrightarrow> rel x"
    "m2 k = map_option (\<lambda>a. foldl op_step a ds) (m1 k)" "\<forall>x. OpRelease x \<in> set ds \<longrightarrow> rel x"
    unfolding follows_def by blast
  then show ?thesis unfolding follows_def
    by (intro exI [of _ "cs @ ds"]) (auto simp: option.map_comp comp_def)
qed

lemma follows_update:
  assumes "m p = Some a" "\<And>x. c = OpRelease x \<Longrightarrow> k = p \<Longrightarrow> rel x"
  shows "follows k rel m (m(p \<mapsto> op_step a c))"
  using assms by (cases "k = p") (auto intro: follows_step follows_refl)

lemma allocFromPools_follows:
  "follows k rel m (snd (allocFromPools allocate vrfs vrf sid ps m))"
proof (induction ps arbitrary: m)
  case (Cons p ps)
  show ?case
  proof (cases "m p")
    case (Some a)
    obtain r a' where a: "allocate sid a = (r, a')" by (rule prod.exhaust)
    have u: "follows k rel m (m(p \<mapsto> a'))"
      using follows_update [of m p a "OpAllocate sid" k rel] Some by (simp add: alloc_step_def a)
    then show ?thesis
      using Cons.IH [of m] follows_trans [OF u Cons.IH] Some a
      by (cases r) (simp_all del: fun_upd_apply)
  qed (simp add: Cons.IH)
qed (simp add: follows_refl)

lemma allocFromProfile_follows:
  "follows k rel m (snd (allocFromProfile allocate pools vrfs prof ov vrf sid m))"
proof (cases "ov = [] \<or> m (poolKey prof ov) = None")
  case True
  then show ?thesis by (auto simp: allocFromProfile_def Let_def allocFromPools_follows)
next
  case False
  then obtain a where m: "ov \<noteq> []" "m (poolKey prof ov) = Some a" by auto
  obtain r a' where a: "allocate sid a = (r, a')" by (rule prod.exhaust)
  have u: "follows k rel m (m(poolKey prof ov \<mapsto> a'))"
    using follows_update [of m "poolKey prof ov" a "OpAllocate sid" k rel] m(2) by (simp add: alloc_step_def a)
  then show ?thesis using m a follows_trans [OF u allocFromPools_follows]
    by (cases r) (simp_all add: allocFromProfile_def Let_def del: fun_upd_apply)
qed

lemma releaseIn_follows: "(k = p \<Longrightarrow> rel ip) \<Longrightarrow> follows k rel m (releaseIn release p ip m)"
  using follows_update [of m p _ "OpRelease ip" k rel]
  by (cases "m p") (auto simp: releaseIn_def alloc_step_def intro: follows_refl)

lemma releaseAll_follows: "rel ip \<Longrightarrow> follows k rel m (releaseAll release ip m)"
  unfolding follows_def releaseAll_def
  by (intro exI [of _ "[OpRelease ip]"]) (simp add: alloc_step_def)

lemma reserveAt_follows: "follows k rel m (snd (reserveAt reserve p ip sid m))"
  using follows_update [of m p _ "OpReserve ip sid" k rel]
  by (cases "m p") (auto simp: reserveAt_def alloc_step_def split: prod.splits intro: follows_refl)

lemma firstContaining_in: "firstContaining contains order ip m = Some p \<Longrightarrow> p \<in> set order"
  by (auto simp: firstContaining_def find_Some_iff)

lemma releaseFirst_follows:
  "(k \<in> set order \<Longrightarrow> rel ip) \<Longrightarrow> follows k rel m (releaseFirst contains release order ip m)"
  using firstContaining_in [of order ip m]
  by (cases "firstContaining contains order ip m") (auto simp: releaseFirst_def intro!: follows_refl releaseIn_follows)

lemma reserveFirst_follows: "follows k rel m (snd (reserveFirst contains reserve order ip sid m))"
  by (cases "firstContaining contains order ip m") (auto simp: reserveFirst_def intro!: follows_refl reserveAt_follows)

lemma reserveInPool_follows: "follows k rel m (snd (reserveInPool contains reserve order p ip sid m))"
  by (simp add: reserveInPool_def reserveAt_follows reserveFirst_follows)

definition table_step :: "(string \<rightharpoonup> string list) \<Rightarrow> (string \<rightharpoonup> string) \<Rightarrow> (string \<rightharpoonup> 's) \<Rightarrow> 'ip table_op \<Rightarrow> (string \<rightharpoonup> 's)" where
  "table_step pools vrfs m c = (case c of
     TAllocate prof ov vrf sid \<Rightarrow> snd (allocFromProfile allocate pools vrfs prof ov vrf sid m)
   | TRelease p ip \<Rightarrow> releaseIn release p ip m
   | TReleaseAll ip \<Rightarrow> releaseAll release ip m
   | TReleaseFirst order ip \<Rightarrow> releaseFirst contains release order ip m
   | TReserve order ip sid \<Rightarrow> snd (reserveFirst contains reserve order ip sid m)
   | TReserveIn order p ip sid \<Rightarrow> snd (reserveInPool contains reserve order p ip sid m))"

lemma table_step_follows: "follows k (releases c k) m (table_step pools vrfs m c)"
  by (cases c) (auto simp: table_step_def allocFromProfile_follows reserveFirst_follows reserveInPool_follows
      intro!: releaseIn_follows releaseAll_follows releaseFirst_follows)

definition table_inv :: "(string \<rightharpoonup> 's) \<Rightarrow> bool" where
  "table_inv m \<longleftrightarrow> (\<forall>k a. m k = Some a \<longrightarrow> inv a)"

lemma follows_holder:
  assumes "follows k rel m m'" "m k = Some a" "inv a"
  obtains a' where "m' k = Some a'" "inv a'" "key a' = key a"
    "\<And>x sid. holder a x = Some sid \<Longrightarrow> (\<And>ip. rel ip \<Longrightarrow> key a ip \<noteq> Some x) \<Longrightarrow> holder a' x = Some sid"
proof -
  from assms(1,2) obtain cs where cs: "m' k = Some (foldl op_step a cs)" "\<And>x. OpRelease x \<in> set cs \<Longrightarrow> rel x"
    unfolding follows_def by auto
  show ?thesis
    by (rule that [OF cs(1)]) (use run_inv [OF assms(3), of cs] run_holder [OF assms(3)] cs(2) in auto)
qed

lemma follows_table_inv:
  assumes "\<And>k. follows k (rel k) m m'" "table_inv m"
  shows "table_inv m'"
  unfolding table_inv_def
proof (intro allI impI)
  fix k a'
  assume a': "m' k = Some a'"
  from assms(1) [of k] a' obtain a where a: "m k = Some a" by (cases "m k") (auto simp: follows_def)
  with assms(2) have "inv a" by (simp add: table_inv_def)
  with follows_holder [of k "rel k" m m' a, OF assms(1) a] a' show "inv a'" by auto
qed

lemma follows_run_holder:
  assumes "\<And>r c. follows k (rel c) (tab r) (tab (step r c))" "tab r k = Some a" "inv a" "holder a x = Some sid"
    and "\<And>c ip. c \<in> set cs \<Longrightarrow> rel c ip \<Longrightarrow> key a ip \<noteq> Some x"
  shows "\<exists>a'. tab (foldl step r cs) k = Some a' \<and> inv a' \<and> key a' = key a \<and> holder a' x = Some sid"
  using assms(2-)
proof (induction cs arbitrary: r a)
  case (Cons c cs)
  obtain a' where a': "tab (step r c) k = Some a'" "inv a'" "key a' = key a"
    "\<And>x sid. holder a x = Some sid \<Longrightarrow> (\<And>ip. rel c ip \<Longrightarrow> key a ip \<noteq> Some x) \<Longrightarrow> holder a' x = Some sid"
    using follows_holder [of k "rel c" "tab r" "tab (step r c)" a, OF assms(1) Cons.prems(1,2)] by blast
  have h: "holder a' x = Some sid" using Cons.prems(4) [of c] by (intro a'(4) [OF Cons.prems(3)]) simp
  have q: "key a' ip \<noteq> Some x" if "d \<in> set cs" "rel d ip" for d ip
    using Cons.prems(4) [of d ip] that by (simp add: a'(3))
  have "\<exists>b. tab (foldl step (step r c) cs) k = Some b \<and> inv b \<and> key b = key a' \<and> holder b x = Some sid"
    by (rule Cons.IH [of "step r c" a']) (use a'(1,2) h q in simp_all)
  then show ?case by (simp add: a'(3))
qed simp

definition served :: "session_id \<Rightarrow> string option \<Rightarrow> (string \<rightharpoonup> 's) \<Rightarrow> (alloc_error + 'ip \<times> string) \<times> (string \<rightharpoonup> 's) \<Rightarrow> bool" where
  "served sid choice m res \<longleftrightarrow> (case choice of
     None \<Rightarrow> res = (Inl ErrPoolExhausted, m)
   | Some p \<Rightarrow> (\<exists>a ip a'. m p = Some a \<and> allocate sid a = (Inr ip, a') \<and> res = (Inr (ip, p), m(p \<mapsto> a'))))"

lemma allocate_cases:
  assumes "table_inv m" "m p = Some a"
  obtains (full) "\<not> hasFree available m p" "\<exists>e. allocate sid a = (Inl e, a)"
    | (ok) ip a' where "hasFree available m p" "allocate sid a = (Inr ip, a')"
proof -
  have i: "inv a" using assms by (auto simp: table_inv_def)
  obtain r a' where a: "allocate sid a = (r, a')" by (rule prod.exhaust)
  show ?thesis
  proof (cases r)
    case (Inl e)
    with allocate_law [OF i a] have "a' = a" by simp
    with Inl a allocate_iff_available [OF i, of sid] assms(2) show ?thesis by (intro full) (auto simp: hasFree_def)
  next
    case (Inr ip)
    with a allocate_iff_available [OF i, of sid] assms(2) show ?thesis by (intro ok) (auto simp: hasFree_def)
  qed
qed

lemma allocFromPools_spec:
  assumes "table_inv m"
  shows "served sid (find (\<lambda>p. vrfOf vrfs p = vrf \<and> hasFree available m p) ps) m (allocFromPools allocate vrfs vrf sid ps m)"
proof (induction ps)
  case (Cons p ps)
  show ?case
  proof (cases "m p")
    case (Some a)
    from assms Some show ?thesis
    proof (cases rule: allocate_cases [where sid = sid])
      case full
      then obtain e where e: "allocate sid a = (Inl e, a)" by blast
      have m: "m(p \<mapsto> a) = m" using Some by auto
      show ?thesis using Cons.IH full(1) by (simp add: Some e m)
    next
      case (ok ip a')
      then show ?thesis using Cons.IH by (simp add: served_def Some)
    qed
  qed (use Cons.IH in \<open>simp add: hasFree_def\<close>)
qed (simp add: served_def)

lemma allocFromProfile_spec:
  assumes "table_inv m"
  shows "served sid (choosePool available pools vrfs prof ov vrf m) m (allocFromProfile allocate pools vrfs prof ov vrf sid m)"
proof (cases "ov = [] \<or> m (poolKey prof ov) = None")
  case True
  then show ?thesis using allocFromPools_spec [OF assms]
    by (auto simp: allocFromProfile_def choosePool_def hasFree_def Let_def)
next
  case False
  then obtain a where m: "ov \<noteq> []" "m (poolKey prof ov) = Some a" by auto
  from assms m(2) show ?thesis
  proof (cases rule: allocate_cases [where sid = sid])
    case full
    then obtain e where e: "allocate sid a = (Inl e, a)" by blast
    have u: "m(poolKey prof ov \<mapsto> a) = m" using m by auto
    show ?thesis using allocFromPools_spec [OF assms] full(1) m
      by (simp add: allocFromProfile_def choosePool_def Let_def e u)
  next
    case (ok ip a')
    then show ?thesis using m by (simp add: allocFromProfile_def choosePool_def Let_def served_def)
  qed
qed

text \<open>
  What a session was served from pool \<open>k\<close> is not served again from it, whatever operations follow, as long as
  none of them releases it there.
\<close>

lemma table_no_double:
  assumes "\<And>r c k. follows k (rel k c) (tab r) (tab (step r c))" "table_inv (tab r)"
    and "allocFromProfile allocate pools vrfs prof ov vrf sid (tab r) = (Inr (ip, k), tab r1)"
    and "\<And>c x a. c \<in> set cs \<Longrightarrow> rel k c x \<Longrightarrow> tab r k = Some a \<Longrightarrow> key a x \<noteq> key a ip"
    and "allocFromProfile allocate pools' vrfs' prof' ov' vrf' sid' (tab (foldl step r1 cs)) = (Inr (ip', k), m2)"
    and "tab r k = Some a"
  shows "key a ip' \<noteq> key a ip"
proof
  assume same: "key a ip' = key a ip"
  have i: "inv a" using assms(2,6) by (simp add: table_inv_def)
  from allocFromProfile_spec [OF assms(2), of sid pools vrfs prof ov vrf] assms(3,6) obtain a1 where
    a1: "tab r1 k = Some a1" "allocate sid a = (Inr ip, a1)"
    by (auto simp: served_def split: option.splits)
  from allocate_law [OF i a1(2)] obtain x where
    x: "key a ip = Some x" "holder a1 x = Some sid" "inv a1" "key a1 = key a" by auto
  have "key a1 y \<noteq> Some x" if "c \<in> set cs" "rel k c y" for c y
    using assms(4) [OF that assms(6)] x(1,4) by simp
  then obtain b where b: "tab (foldl step r1 cs) k = Some b" "inv b" "key b = key a" "holder b x = Some sid"
    using follows_run_holder [of k "rel k" tab step r1 a1 x sid cs, OF assms(1) a1(1) x(3,2)] x(4) by auto
  have "table_inv (tab (foldl step r1 cs))"
  proof -
    have t: "table_inv (tab (foldl step s cs))" if "table_inv (tab s)" for s
      using that by (induction cs arbitrary: s) (simp_all add: follows_table_inv [OF assms(1)])
    have "table_inv (tab r1)"
      using follows_table_inv [of "\<lambda>_ _. False" "tab r" "tab r1", OF _ assms(2)]
        allocFromProfile_follows [of _ _ "tab r" pools vrfs prof ov vrf sid] by (simp add: assms(3))
    then show ?thesis by (rule t)
  qed
  from allocFromProfile_spec [OF this, of sid' pools' vrfs' prof' ov' vrf'] assms(5) b(1) obtain b' where
    "allocate sid' b = (Inr ip', b')" by (auto simp: served_def split: option.splits)
  from allocate_law [OF b(2) this] b(3) same x(1) have "x \<in> free_keys b" by auto
  with free_not_held [OF b(2)] b(4) show False by simp
qed

end

subsection \<open>The three tables of the registry\<close>

interpretation v4t: pool_table pool_inv "\<lambda>_. pool_key" leases "\<lambda>s. set (free s)"
  pool_Allocate pool_Release pool_Reserve pool_Available pool_Contains
  by unfold_locales

interpretation pdt: pool_table prefix_inv prefixToIndex pleases "\<lambda>s. set (pfree s)"
  prefix_Allocate prefix_Release prefix_Reserve "\<lambda>a. length (pfree a)" prefix_Contains
  by unfold_locales

definition reg_inv :: "Registry \<Rightarrow> bool" where
  "reg_inv r \<longleftrightarrow> v4t.table_inv (allocators r) \<and> v4t.table_inv (ianaAllocators r) \<and> pdt.table_inv (pdAllocators r)"

text \<open>An operation of the registry, with the order in which a \<^verbatim>\<open>range\<close> loop visits the pools where it matters.\<close>

datatype registry_op =
    RAllocate string string string session_id
  | RAllocateIANA string string string session_id
  | RAllocatePD string string string session_id
  | RRelease string bytes
  | RReleaseIANA string bytes
  | RReleasePD string "IPNet option"
  | RReleaseIP bytes
  | RReleaseIANAByIP bytes
  | RReleasePDByPrefix "string list" "IPNet option"
  | RReserveIP "string list" bytes session_id
  | RReserveIANA "string list" bytes session_id
  | RReservePD "string list" "IPNet option" session_id
  | RReserveIPInPool "string list" string bytes session_id
  | RReserveIANAInPool "string list" string bytes session_id
  | RReservePDInPool "string list" string "IPNet option" session_id

fun registry_step :: "Registry \<Rightarrow> registry_op \<Rightarrow> Registry" where
  "registry_step r (RAllocate prof ov vrf sid) = snd (AllocateFromProfile prof ov vrf sid r)"
| "registry_step r (RAllocateIANA prof ov vrf sid) = snd (AllocateIANAFromProfile prof ov vrf sid r)"
| "registry_step r (RAllocatePD prof ov vrf sid) = snd (AllocatePDFromProfile prof ov vrf sid r)"
| "registry_step r (RRelease p ip) = Release p ip r"
| "registry_step r (RReleaseIANA p ip) = ReleaseIANA p ip r"
| "registry_step r (RReleasePD p prefix) = ReleasePD p prefix r"
| "registry_step r (RReleaseIP ip) = ReleaseIP ip r"
| "registry_step r (RReleaseIANAByIP ip) = ReleaseIANAByIP ip r"
| "registry_step r (RReleasePDByPrefix order prefix) = ReleasePDByPrefix order prefix r"
| "registry_step r (RReserveIP order ip sid) = snd (ReserveIP order ip sid r)"
| "registry_step r (RReserveIANA order ip sid) = snd (ReserveIANA order ip sid r)"
| "registry_step r (RReservePD order prefix sid) = snd (ReservePD order prefix sid r)"
| "registry_step r (RReserveIPInPool order p ip sid) = snd (ReserveIPInPool order p ip sid r)"
| "registry_step r (RReserveIANAInPool order p ip sid) = snd (ReserveIANAInPool order p ip sid r)"
| "registry_step r (RReservePDInPool order p prefix sid) = snd (ReservePDInPool order p prefix sid r)"

text \<open>Which releases an operation performs in pool \<open>k\<close> of each table.\<close>

fun frees_v4 :: "string \<Rightarrow> registry_op \<Rightarrow> bytes \<Rightarrow> bool" where
  "frees_v4 k (RRelease p ip) x \<longleftrightarrow> k = p \<and> x = ip"
| "frees_v4 k (RReleaseIP ip) x \<longleftrightarrow> x = ip"
| "frees_v4 k _ x \<longleftrightarrow> False"

fun frees_iana :: "string \<Rightarrow> registry_op \<Rightarrow> bytes \<Rightarrow> bool" where
  "frees_iana k (RReleaseIANA p ip) x \<longleftrightarrow> k = p \<and> x = ip"
| "frees_iana k (RReleaseIANAByIP ip) x \<longleftrightarrow> x = ip"
| "frees_iana k _ x \<longleftrightarrow> False"

fun frees_pd :: "string \<Rightarrow> registry_op \<Rightarrow> IPNet option \<Rightarrow> bool" where
  "frees_pd k (RReleasePD p prefix) x \<longleftrightarrow> k = p \<and> x = prefix"
| "frees_pd k (RReleasePDByPrefix order prefix) x \<longleftrightarrow> k \<in> set order \<and> x = prefix"
| "frees_pd k _ x \<longleftrightarrow> False"

lemmas registry_ops = AllocateFromProfile_def AllocateIANAFromProfile_def AllocatePDFromProfile_def
  Release_def ReleaseIANA_def ReleasePD_def ReleaseIP_def ReleaseIANAByIP_def ReleasePDByPrefix_def
  ReserveIP_def ReserveIANA_def ReservePD_def ReserveIPInPool_def ReserveIANAInPool_def ReservePDInPool_def

lemma snd_case_update: "snd (case x of (e, m) \<Rightarrow> (e, f m)) = f (snd x)"
  by (cases x) simp

lemmas registry_step_simps = registry_ops snd_case_update

lemma registry_step_v4: "v4t.follows k (frees_v4 k c) (allocators r) (allocators (registry_step r c))"
  by (cases c) (simp_all add: registry_step_simps v4t.allocFromProfile_follows v4t.reserveFirst_follows
      v4t.reserveInPool_follows v4t.releaseIn_follows v4t.releaseAll_follows v4t.follows_refl)

lemma registry_step_iana: "v4t.follows k (frees_iana k c) (ianaAllocators r) (ianaAllocators (registry_step r c))"
  by (cases c) (simp_all add: registry_step_simps v4t.allocFromProfile_follows v4t.reserveFirst_follows
      v4t.reserveInPool_follows v4t.releaseIn_follows v4t.releaseAll_follows v4t.follows_refl)

lemma registry_step_pd: "pdt.follows k (frees_pd k c) (pdAllocators r) (pdAllocators (registry_step r c))"
  by (cases c) (simp_all add: registry_step_simps pdt.allocFromProfile_follows pdt.reserveFirst_follows
      pdt.reserveInPool_follows pdt.releaseIn_follows pdt.releaseFirst_follows pdt.follows_refl)

lemma registry_step_config [simp]:
  "profilePools (registry_step r c) = profilePools r" "poolVRFs (registry_step r c) = poolVRFs r"
  by (cases c; simp add: registry_step_simps)+

subsection \<open>What building establishes\<close>

lemma foldOpt_establish:
  assumes "\<And>x r. x \<in> S \<Longrightarrow> I r \<Longrightarrow> \<exists>r'. f x r = Some r' \<and> I r' \<and> P x r' \<and> (\<forall>y \<in> S. y \<noteq> x \<longrightarrow> P y r \<longrightarrow> P y r')"
    and "set xs \<subseteq> S" "I r"
  shows "\<exists>r'. foldOpt f xs r = Some r' \<and> I r' \<and> (\<forall>x \<in> set xs. P x r') \<and> (\<forall>y \<in> S. P y r \<longrightarrow> P y r')"
  using assms(2,3)
proof (induction xs arbitrary: r)
  case (Cons x xs)
  then obtain r1 where r1: "f x r = Some r1" "I r1" "P x r1" "\<forall>y \<in> S. y \<noteq> x \<longrightarrow> P y r \<longrightarrow> P y r1"
    using assms(1) [of x r] by auto
  obtain r' where r': "foldOpt f xs r1 = Some r'" "I r'" "\<forall>x \<in> set xs. P x r'" "\<forall>y \<in> S. P y r1 \<longrightarrow> P y r'"
    using Cons.IH [OF _ r1(2)] Cons.prems(1) by auto
  have "P y r'" if "y \<in> S" "P y r" for y
    using that r1(3,4) r'(4) by (cases "y = x") auto
  moreover have "P x r'" using r'(4) r1(3) Cons.prems(1) by simp
  ultimately show ?case using r1(1) r'(1-3) by simp
qed simp

text \<open>A pool that can be built: an IPv4 range that does not end at the last address, and finite exclusions.\<close>

definition v4_pool_ok :: "(string \<Rightarrow> (string \<times> string) option) \<Rightarrow> IPv4Pool \<Rightarrow> bool" where
  "v4_pool_ok netRange pool \<longleftrightarrow> parseExcludes (v4Exclude pool) \<noteq> None \<and>
     (case poolRange netRange (v4Network pool) (v4RangeStart pool) (v4RangeEnd pool) of
        Some (V4 lo, V4 hi) \<Rightarrow> lo \<le> hi \<and> unat hi < 2 ^ 32 - 1 | _ \<Rightarrow> False)"

lemma NewPoolAllocator_V4:
  assumes "lo \<le> hi" "unat hi < 2 ^ 32 - 1"
  obtains p where "NewPoolAllocator (V4 lo) (V4 hi) ex = Some p" "pool_inv p" "leases p = Map.empty"
proof -
  let ?a = "\<lparr>rangeStart = V4 lo, rangeEnd = V4 hi, excluded = (\<lambda>x. x \<in> set (map Unmap ex)), leases = Map.empty,
    free = [], ascending = True\<rparr>"
  obtain p where p: "buildFreeList ?a = Some p" "p = ?a\<lparr>free := free p\<rparr>" "pool_inv p"
    by (rule buildFreeList_V4 [of ?a lo hi]) (use assms in auto)
  show ?thesis by (rule that [of p]) (use p(1,3) in \<open>simp_all add: NewPoolAllocator_def, subst p(2), simp\<close>)
qed

definition fresh_inv :: "Registry \<Rightarrow> bool" where
  "fresh_inv r \<longleftrightarrow> reg_inv r \<and> (\<forall>k a. allocators r k = Some a \<longrightarrow> leases a = Map.empty)"

lemma initV4Pool_build:
  assumes "v4_pool_ok netRange pool" "fresh_inv r"
  shows "\<exists>r'. initV4Pool netRange prof profile pool r = Some r' \<and> fresh_inv r' \<and> profilePools r' = profilePools r \<and>
    allocators r' (poolKey prof (v4Name pool)) \<noteq> None \<and> (\<forall>k. allocators r k \<noteq> None \<longrightarrow> allocators r' k \<noteq> None)"
proof -
  let ?key = "poolKey prof (v4Name pool)"
  let ?r = "addVRF ?key (v4VRF pool) r"
  have same: "allocators ?r = allocators r" "profilePools ?r = profilePools r" "fresh_inv ?r"
    using assms(2) by (simp_all add: addVRF_def fresh_inv_def reg_inv_def)
  show ?thesis
  proof (cases "allocators r ?key")
    case None
    obtain lo hi ex where ok: "poolRange netRange (v4Network pool) (v4RangeStart pool) (v4RangeEnd pool) = Some (V4 lo, V4 hi)"
      "lo \<le> hi" "unat hi < 2 ^ 32 - 1" "parseExcludes (v4Exclude pool) = Some ex"
      using assms(1) by (auto simp: v4_pool_ok_def split: option.splits prod.splits Addr.splits)
    let ?gw = "case ParseAddr (if v4Gateway pool = [] then v4pGateway profile else v4Gateway pool) of None \<Rightarrow> [] | Some a \<Rightarrow> [a]"
    obtain p where p: "NewPoolAllocator (V4 lo) (V4 hi) (?gw @ ex) = Some p" "pool_inv p" "leases p = Map.empty"
      by (rule NewPoolAllocator_V4 [OF ok(2,3)])
    let ?r' = "?r\<lparr>allocators := (allocators ?r)(?key \<mapsto> p)\<rparr>"
    have "initV4Pool netRange prof profile pool r = Some ?r'"
      using None p(1) ok by (simp add: initV4Pool_def Let_def same)
    moreover have "fresh_inv ?r'"
      using same(3) p(2,3) by (auto simp: fresh_inv_def reg_inv_def v4t.table_inv_def)
    ultimately show ?thesis using None by (auto simp: same)
  qed (simp add: initV4Pool_def Let_def same)
qed

definition v4_built :: "string \<times> IPv4Profile \<Rightarrow> Registry \<Rightarrow> bool" where
  "v4_built = (\<lambda>(prof, profile) r.
     profilePools r prof = Some (map (\<lambda>p. poolKey prof (v4Name p)) (sort_key v4Priority (v4pPools profile))) \<and>
     (\<forall>p \<in> set (v4pPools profile). allocators r (poolKey prof (v4Name p)) \<noteq> None))"

lemma initV4Profile_build:
  assumes "\<forall>p \<in> set (v4pPools profile). v4_pool_ok netRange p" "fresh_inv r"
  shows "\<exists>r'. initV4Profile netRange (prof, profile) r = Some r' \<and> fresh_inv r' \<and> v4_built (prof, profile) r' \<and>
    (\<forall>k. k \<noteq> prof \<longrightarrow> profilePools r' k = profilePools r k) \<and> (\<forall>k. allocators r k \<noteq> None \<longrightarrow> allocators r' k \<noteq> None)"
proof -
  let ?names = "map (\<lambda>p. poolKey prof (v4Name p)) (sort_key v4Priority (v4pPools profile))"
  let ?r = "r\<lparr>profilePools := (profilePools r)(prof \<mapsto> ?names)\<rparr>"
  let ?I = "\<lambda>s. fresh_inv s \<and> profilePools s = profilePools ?r \<and> (\<forall>k. allocators r k \<noteq> None \<longrightarrow> allocators s k \<noteq> None)"
  let ?P = "\<lambda>p s. allocators s (poolKey prof (v4Name p)) \<noteq> None"
  have "\<exists>r'. foldOpt (initV4Pool netRange prof profile) (v4pPools profile) ?r = Some r' \<and> ?I r' \<and>
      (\<forall>p \<in> set (v4pPools profile). ?P p r') \<and> (\<forall>p \<in> set (v4pPools profile). ?P p ?r \<longrightarrow> ?P p r')"
  proof (rule foldOpt_establish)
    fix p s
    assume "p \<in> set (v4pPools profile)" "?I s"
    then show "\<exists>s'. initV4Pool netRange prof profile p s = Some s' \<and> ?I s' \<and> ?P p s' \<and>
        (\<forall>q \<in> set (v4pPools profile). q \<noteq> p \<longrightarrow> ?P q s \<longrightarrow> ?P q s')"
      using initV4Pool_build [of netRange p s prof profile] assms(1) by auto
  qed (use assms(2) in \<open>simp_all add: fresh_inv_def reg_inv_def\<close>)
  then show ?thesis by (auto simp: initV4Profile_def v4_built_def)
qed

lemma newRegistry_build:
  assumes "distinct (map fst v4)" "\<forall>(prof, profile) \<in> set v4. \<forall>p \<in> set (v4pPools profile). v4_pool_ok netRange p"
  shows "\<exists>r. newRegistry netRange v4 [] = Some r \<and> fresh_inv r \<and> (\<forall>x \<in> set v4. v4_built x r)"
proof -
  have "\<exists>r'. foldOpt (initV4Profile netRange) v4 emptyRegistry = Some r' \<and> fresh_inv r' \<and> (\<forall>x \<in> set v4. v4_built x r') \<and>
      (\<forall>x \<in> set v4. v4_built x emptyRegistry \<longrightarrow> v4_built x r')"
  proof (rule foldOpt_establish)
    fix x s
    assume x: "x \<in> set v4" "fresh_inv s"
    obtain prof profile where p: "x = (prof, profile)" by (rule prod.exhaust)
    have "\<forall>p \<in> set (v4pPools profile). v4_pool_ok netRange p" using assms(2) x(1) p by auto
    from initV4Profile_build [OF this x(2), of prof] obtain s' where
      s': "initV4Profile netRange x s = Some s'" "fresh_inv s'" "v4_built x s'"
      "\<forall>k. k \<noteq> prof \<longrightarrow> profilePools s' k = profilePools s k" "\<forall>k. allocators s k \<noteq> None \<longrightarrow> allocators s' k \<noteq> None"
      unfolding p by blast
    have "fst y \<noteq> prof" if "y \<in> set v4" "y \<noteq> x" for y
      using that x(1) assms(1) p by (auto simp: distinct_map inj_on_def)
    with s'(4,5) have "\<forall>y \<in> set v4. y \<noteq> x \<longrightarrow> v4_built y s \<longrightarrow> v4_built y s'"
      by (auto simp: v4_built_def)
    with s'(1-3) show "\<exists>s'. initV4Profile netRange x s = Some s' \<and> fresh_inv s' \<and> v4_built x s' \<and>
        (\<forall>y \<in> set v4. y \<noteq> x \<longrightarrow> v4_built y s \<longrightarrow> v4_built y s')" by blast
  qed (simp_all add: fresh_inv_def reg_inv_def emptyRegistry_def v4t.table_inv_def pdt.table_inv_def)
  then show ?thesis by (auto simp: newRegistry_def initV4Pools_def initV6Pools_def)
qed

end
