(* ===== verification/Alloc_Theorems.thy ===== *)
theory Alloc_Theorems
  imports Alloc_Prefix
begin

section \<open>Properties of the allocators\<close>

text \<open>
  The properties of \<^verbatim>\<open>pkg/allocator\<close>, each followed by an instance at a concrete input. A pool of four
  addresses with the gateway excluded serves the instances.
\<close>

abbreviation office_lo :: u32 where "office_lo \<equiv> 0x0a000001"
abbreviation office_hi :: u32 where "office_hi \<equiv> 0x0a000004"

definition office_pool :: PoolAllocator where
  "office_pool = \<lparr>rangeStart = V4 office_lo, rangeEnd = V4 office_hi, excluded = (\<lambda>x. x \<in> set [V4 office_lo]),
     leases = Map.empty, free = [V4 0x0a000004, V4 0x0a000003, V4 0x0a000002], ascending = True\<rparr>"

lemma office_pool_inv: "pool_inv office_pool"
  by (simp add: free_list_inv_def office_pool_def)

lemma office_pool_scoped: "pool_scoped office_pool"
  by (auto simp: pool_scoped_def pool_scope_def office_pool_def V4_le_iff)

subsection \<open>Address pools\<close>



text \<open>
  A pool whose range ends at the last IPv4 address is never built: the scan steps past the end to
  the invalid address, which orders below every address, and goes on for ever.
\<close>

lemma pool_range_end_loops: "NewPoolAllocator (V4 lo) (V4 (- 1)) ex = None"
proof (rule ccontr)
  assume "NewPoolAllocator (V4 lo) (V4 (- 1)) ex \<noteq> None"
  then obtain skip xs where "addrLoop skip (V4 lo) (V4 (- 1)) = Some xs"
    by (auto simp: NewPoolAllocator_def buildFreeList_def)
  then show False by (rule addrLoop_wraps) simp_all
qed

text \<open>
  C21: an address handed to a session is not handed out again before it is released: whatever
  allocations, reservations and releases of other addresses follow, the next allocation returns
  another address.
\<close>

theorem pool_no_double_allocation:
  assumes "pool_inv a" "pool_Allocate sid a = (Inr ip, a')"
    and "\<And>x. OpRelease x \<in> set cs \<Longrightarrow> pool_key x \<noteq> pool_key ip"
    and "pool_Allocate sid' (foldl pool_step a' cs) = (Inr ip', a'')"
  shows "pool_key ip' \<noteq> pool_key ip"
  by (rule pool.no_double_allocation [OF assms])

theorem pool_no_double_allocation_witness:
  "\<exists>a' ip a'' ip'. pool_Allocate ''s1'' office_pool = (Inr ip, a') \<and> pool_Allocate ''s2'' a' = (Inr ip', a'') \<and>
     pool_key ip' \<noteq> pool_key ip"
proof -
  obtain a' ip where 1: "pool_Allocate ''s1'' office_pool = (Inr ip, a')"
    by (simp add: pool_Allocate_def office_pool_def)
  obtain a'' ip' where 2: "pool_Allocate ''s2'' a' = (Inr ip', a'')"
    using 1 by (auto simp: pool_Allocate_def office_pool_def Let_def)
  show ?thesis
    using pool_no_double_allocation [OF office_pool_inv 1, of "[]" "''s2''" ip' a''] 1 2 by auto
qed

text \<open>
  Allocation fails exactly when nothing is free, with the error for an exhausted pool and the
  pool unchanged.
\<close>

theorem pool_exhausted_iff:
  assumes "pool_inv a"
  shows "(fst (pool_Allocate sid a) = Inl ErrPoolExhausted \<longleftrightarrow> pool_Available a = 0) \<and>
    (\<forall>e a'. pool_Allocate sid a = (Inl e, a') \<longrightarrow> a' = a)"
  using pool.allocate_iff_available [OF assms, of sid]
  by (auto simp: pool_Allocate_def pool_Available_def Let_def split: if_splits)

theorem pool_exhausted_iff_instance: "fst (pool_Allocate ''s1'' office_pool) \<noteq> Inl ErrPoolExhausted"
  using pool_exhausted_iff [OF office_pool_inv, of "''s1''"] by (simp add: pool_Available_def office_pool_def)

text \<open>
  C22: as long as only addresses of the configured scope (in range, not excluded) are reserved, every
  address the pool ever hands out is in scope.
\<close>

theorem pool_serves_scope:
  assumes "pool_inv a" "pool_scoped a"
    and "\<And>ip sid x. OpReserve ip sid \<in> set cs \<Longrightarrow> pool_key ip = Some x \<Longrightarrow> pool_scope a x"
    and "pool_Allocate sid (foldl pool_step a cs) = (Inr ip, a')"
  shows "\<exists>x. pool_key ip = Some x \<and> pool_scope a x"
proof -
  let ?b = "foldl pool_step a cs"
  have inv: "pool_inv ?b" using pool.run_inv [OF assms(1)] by blast
  obtain x where "pool_key ip = Some x" "x \<in> set (free ?b)"
    using pool.allocate_law [OF inv assms(4)] by auto
  moreover have "pool_scoped ?b \<and> pool_scope ?b = pool_scope a"
    by (rule pool_run_scoped [OF assms(2)]) (rule assms(3))
  ultimately show ?thesis by (auto simp: pool_scoped_def)
qed

theorem pool_serves_scope_witness:
  "\<exists>x. pool_key (AsSlice (V4 0x0a000002)) = Some x \<and> pool_scope office_pool x"
  by (rule pool_serves_scope [OF office_pool_inv office_pool_scoped, of "[]" "''s1''" _ "snd (pool_Allocate ''s1'' office_pool)"])
    (simp_all add: pool_Allocate_def office_pool_def Let_def)

text \<open>
  Without that restriction the scope is lost: an excluded address that is reserved and released
  is put on the free list, and the next session is given it.
\<close>

lemma pool_serves_excluded:
  assumes "pool_inv a" "pool_key ip = Some x" "excluded a x" "leases a x = None"
  shows "\<exists>a' a'' ip'. pool_Reserve ip sid a = (None, a') \<and> pool_Allocate sid' (pool_Release ip a') = (Inr ip', a'')
    \<and> pool_key ip' = Some x \<and> excluded a'' x"
proof -
  let ?a = "a\<lparr>free := remove1 x (free a), leases := (leases a)(x \<mapsto> sid)\<rparr>"
  have 1: "pool_Reserve ip sid a = (None, ?a)" using assms by (simp add: pool_Reserve_key)
  have "free (pool_Release ip ?a) = remove1 x (free a) @ [x]" "excluded (pool_Release ip ?a) = excluded a"
    using assms by (simp_all add: pool_Release_key)
  then show ?thesis
    using 1 assms pool.key_render [of x] pool.key_ok [of ip x]
    by (auto simp: pool_Allocate_def Let_def)
qed

lemma pool_serves_excluded_instance:
  "\<exists>a' a'' ip'. pool_Reserve [10, 0, 0, 1] ''s1'' office_pool = (None, a') \<and>
     pool_Allocate ''s2'' (pool_Release [10, 0, 0, 1] a') = (Inr ip', a'') \<and> pool_key ip' = Some (V4 office_lo) \<and>
     excluded a'' (V4 office_lo)"
proof -
  have "pool_key [10, 0, 0, 1] = Some (V4 office_lo)"
    by (simp add: pool_key_def AddrFromSlice_def get32_def get16_def)
  then show ?thesis
    by (rule pool_serves_excluded [OF office_pool_inv]) (simp_all add: office_pool_def)
qed

subsection \<open>Delegated prefixes\<close>

definition pd_network :: Prefix where
  "pd_network = \<lparr>pAddr = V6 0x20010db8000000000000000000000000 [], pBits = 48\<rparr>"

definition pd_pool :: PrefixAllocator where
  "pd_pool = \<lparr>base = V6 0x20010db8000000000000000000000000 [], networkBits = 48, prefixLength = 56, pcount = 256,
     pleases = Map.empty, pfree = [1, 0], pascending = True\<rparr>"

lemma pd_pool_inv: "prefix_inv pd_pool"
  by (simp add: free_list_inv_def prefix_wf_def pd_pool_def)

text \<open>
  C23: the index of a prefix the pool serves is the index it was served for, whatever the alignment of
  the prefix length to the 64-bit halves of the address; so distinct indices are distinct prefixes and
  a release finds the lease.
\<close>

theorem prefix_index_round_trip:
  assumes "prefix_wf a" "idx < pcount a"
  shows "prefixToIndex a (Some (indexToIPNet a idx)) = Some idx"
  by (rule prefix_round_trip [OF assms])

theorem prefix_index_round_trip_witness:
  "prefixToIndex pd_pool (Some (indexToIPNet pd_pool 200)) = Some 200"
  by (rule prefix_index_round_trip) (simp_all add: prefix_wf_def pd_pool_def)

text \<open>
  The two 64-bit halves with carry and borrow compute the 128-bit sum and difference: a served
  prefix is the network base plus the index shifted to the prefix length.
\<close>

lemma prefix_arithmetic:
  "nIP (indexToIPNet a idx) = bytes_of_128 (addr128 (base a) + push_bit (prefixShift a) (ucast idx)) \<and>
   prefixToIndex a (Some p) =
     (if Mask_Size (nMask p) = (nat (prefixLength a), 128) \<and> 0 \<le> prefixLength a then
        (case AddrFromSlice (nIP p) of None \<Rightarrow> None
         | Some x \<Rightarrow> (let idx = ucast (drop_bit (prefixShift a) (addr128 x - addr128 (base a)))
                     in if pcount a \<le> idx then None else Some idx))
      else None)"
  unfolding prefixToIndex_eq by (simp add: indexToIPNet_eq)

text \<open>
  A delegated prefix is not handed out again before it is released.
\<close>

theorem prefix_no_double_allocation:
  assumes "prefix_inv a" "prefix_Allocate sid a = (Inr p, a')"
    and "\<And>x. OpRelease x \<in> set cs \<Longrightarrow> prefixToIndex a x \<noteq> prefixToIndex a p"
    and "prefix_Allocate sid' (foldl (alloc_step prefix_Allocate prefix_Release prefix_Reserve) a' cs) = (Inr p', a'')"
  shows "prefixToIndex a p' \<noteq> prefixToIndex a p"
  by (rule pd.no_double_allocation [OF assms])

theorem prefix_no_double_allocation_instance:
  "\<exists>a' p a'' p'. prefix_Allocate ''s1'' pd_pool = (Inr p, a') \<and> prefix_Allocate ''s2'' a' = (Inr p', a'') \<and>
     prefixToIndex pd_pool p' \<noteq> prefixToIndex pd_pool p"
proof -
  obtain a' p where 1: "prefix_Allocate ''s1'' pd_pool = (Inr p, a')"
    by (simp add: prefix_Allocate_def pd_pool_def Let_def)
  obtain a'' p' where 2: "prefix_Allocate ''s2'' a' = (Inr p', a'')"
    using 1 by (auto simp: prefix_Allocate_def pd_pool_def Let_def)
  show ?thesis
    using prefix_no_double_allocation [OF pd_pool_inv 1, of "[]" "''s2''" p' a''] 1 2 by auto
qed

text \<open>
  C24: a pool of prefixes of at most 64 bits recognises exactly the prefixes of its length that lie in
  its network.
\<close>

theorem prefix_contains_iff_in_network:
  assumes "NewPrefixAllocator network len = Some a" "pAddr network = V6 w z" "0 \<le> pBits network" "len \<le> 64"
  shows "prefix_Contains a (Some p) \<longleftrightarrow> Mask_Size (nMask p) = (nat len, 128) \<and>
    (\<exists>x. AddrFromSlice (nIP p) = Some x \<and>
      drop_bit (128 - nat (pBits network)) (addr128 x) = drop_bit (128 - nat (pBits network)) w)"
  by (rule prefix_Contains_network [OF assms])

theorem prefix_contains_iff_in_network_witness:
  "prefix_Contains (the (NewPrefixAllocator pd_network 56))
     (Some \<lparr>nIP = bytes_of_128 0x20010db80000ab000000000000000000, nMask = CIDRMask 56 128\<rparr>)"
proof -
  have "NewPrefixAllocator pd_network 56 = Some (the (NewPrefixAllocator pd_network 56))"
    by (simp add: NewPrefixAllocator_def pd_network_def)
  from prefix_contains_iff_in_network [OF this] show ?thesis
    by (simp add: pd_network_def Mask_Size_CIDRMask AddrFromSlice_def addr128_def)
qed

text \<open>
  Above 64 bits it does not: the shift that joins the halves drops the high bits of the
  difference, and a prefix of another network is taken for one of the pool's.
\<close>

lemma prefix_contains_foreign:
  "\<exists>a p. NewPrefixAllocator \<lparr>pAddr = V6 0x20010db8000000000000000000000000 [], pBits = 56\<rparr> 72 = Some a \<and>
     p = \<lparr>nIP = bytes_of_128 0x21010db8000000000000000000000000, nMask = CIDRMask 72 128\<rparr> \<and>
     prefix_Contains a (Some p)"
proof -
  let ?n = "\<lparr>pAddr = V6 0x20010db8000000000000000000000000 [], pBits = 56\<rparr>"
  let ?p = "\<lparr>nIP = bytes_of_128 0x21010db8000000000000000000000000, nMask = CIDRMask 72 128\<rparr>"
  obtain a where a: "NewPrefixAllocator ?n 72 = Some a" by (simp add: NewPrefixAllocator_def)
  have "maskedAddr ?n = V6 0x20010db8000000000000000000000000 []" by code_simp
  with NewPrefixAllocator_inv [OF a] have c: "prefixLength a = 72" "unat (pcount a) = 65536"
      "base a = V6 0x20010db8000000000000000000000000 []"
    by simp_all
  have "prefix_Contains a (Some ?p)"
    by (simp add: prefix_Contains_def prefixToIndex_eq c(1,3) Mask_Size_CIDRMask AddrFromSlice_def addr128_def
        prefixShift_def Let_def)
      (simp add: word_le_nat_alt c(2))
  with a show ?thesis by blast
qed

end
