(* ===== verification/Alloc_Registry_Theorems.thy ===== *)
theory Alloc_Registry_Theorems
  imports Alloc_Registry Alloc_Theorems
begin

section \<open>Properties of the registry\<close>

text \<open>
  What a subscriber is served from, that nothing is served twice, and that a configured registry is built. A
  registry of two IPv4 pools with the same addresses in two VRFs serves the instances.
\<close>

definition demo_registry :: Registry where
  "demo_registry = emptyRegistry\<lparr>allocators := [''p/red'' \<mapsto> office_pool, ''p/blue'' \<mapsto> office_pool],
     profilePools := [''p'' \<mapsto> [''p/red'', ''p/blue'']], poolVRFs := [''p/red'' \<mapsto> ''red'', ''p/blue'' \<mapsto> ''blue'']\<rparr>"

lemma demo_registry_inv: "reg_inv demo_registry"
  using office_pool_inv
  by (auto simp: reg_inv_def demo_registry_def emptyRegistry_def v4t.table_inv_def pdt.table_inv_def split: if_splits)




text \<open>
  C26: a request without a pool override is served from a pool of its profile that lies in the subscriber's
  VRF, and from the first of those that has a free address; it fails exactly when none of them has one, and
  then nothing changes. The session holds the address it was given, and no other pool is touched.
\<close>

theorem registry_serves_vrf:
  assumes "reg_inv r"
  shows "case choosePool pool_Available (profilePools r) (poolVRFs r) prof [] vrf (allocators r) of
      None \<Rightarrow> AllocateFromProfile prof [] vrf sid r = (Inl ErrPoolExhausted, r) \<and>
        (\<forall>k \<in> set (GetProfilePools prof r). vrfOf (poolVRFs r) k = vrf \<longrightarrow> \<not> hasFree pool_Available (allocators r) k)
    | Some k \<Rightarrow> k \<in> set (GetProfilePools prof r) \<and> vrfOf (poolVRFs r) k = vrf \<and>
        (\<exists>ip x a a'. AllocateFromProfile prof [] vrf sid r = (Inr (ip, k), r\<lparr>allocators := (allocators r)(k \<mapsto> a')\<rparr>) \<and>
           allocators r k = Some a \<and> leases a x = None \<and> pool_key ip = Some x \<and> leases a' = (leases a)(x \<mapsto> sid))"
proof -
  have inv: "v4t.table_inv (allocators r)" using assms by (simp add: reg_inv_def)
  note spec = v4t.allocFromProfile_spec [OF inv, of sid "profilePools r" "poolVRFs r" prof "[]" vrf]
  have choice: "choosePool pool_Available (profilePools r) (poolVRFs r) prof [] vrf (allocators r)
      = find (\<lambda>k. vrfOf (poolVRFs r) k = vrf \<and> hasFree pool_Available (allocators r) k) (GetProfilePools prof r)"
    by (simp add: choosePool_def GetProfilePools_def)
  show ?thesis
  proof (cases "choosePool pool_Available (profilePools r) (poolVRFs r) prof [] vrf (allocators r)")
    case None
    then have "AllocateFromProfile prof [] vrf sid r = (Inl ErrPoolExhausted, r)"
      using spec by (simp add: v4t.served_def AllocateFromProfile_def)
    moreover have "\<forall>k \<in> set (GetProfilePools prof r). vrfOf (poolVRFs r) k = vrf \<longrightarrow> \<not> hasFree pool_Available (allocators r) k"
      using None by (simp add: choice find_None_iff)
    ultimately show ?thesis using None by simp
  next
    case (Some k)
    then obtain a ip a' where a: "allocators r k = Some a" "pool_Allocate sid a = (Inr ip, a')"
      "AllocateFromProfile prof [] vrf sid r = (Inr (ip, k), r\<lparr>allocators := (allocators r)(k \<mapsto> a')\<rparr>)"
      using spec by (auto simp: v4t.served_def AllocateFromProfile_def)
    have i: "pool_inv a" using inv a(1) by (simp add: v4t.table_inv_def)
    obtain x where x: "pool_key ip = Some x" "x \<in> set (free a)" "leases a' = (leases a)(x \<mapsto> sid)"
      using pool.allocate_law [OF i a(2)] by auto
    then have "leases a x = None" using pool.free_not_held [OF i] by simp
    moreover have "k \<in> set (GetProfilePools prof r)" "vrfOf (poolVRFs r) k = vrf"
      using Some by (auto simp: choice find_Some_iff)
    ultimately show ?thesis using Some a x by auto
  qed
qed

theorem registry_serves_vrf_witness:
  "choosePool pool_Available (profilePools demo_registry) (poolVRFs demo_registry) ''p'' [] ''blue'' (allocators demo_registry)
     = Some ''p/blue'' \<and> vrfOf (poolVRFs demo_registry) ''p/blue'' = ''blue''"
proof -
  have c: "choosePool pool_Available (profilePools demo_registry) (poolVRFs demo_registry) ''p'' [] ''blue'' (allocators demo_registry)
     = Some ''p/blue''"
    by (simp add: choosePool_def demo_registry_def emptyRegistry_def vrfOf_def hasFree_def pool_Available_def office_pool_def)
  show ?thesis using registry_serves_vrf [OF demo_registry_inv, of "''p''" "''blue''" "''s1''"] by (simp add: c)
qed

text \<open>
  A registry is built from a configuration whose IPv4 pools are ranges that do not end at the last
  address and whose exclusions are finite: building ends, every configured pool has an allocator with no
  leases, each profile lists its pools by priority, and the invariant of the other properties holds.
\<close>

theorem registry_built:
  assumes "distinct (map fst v4)" "\<forall>(prof, profile) \<in> set v4. \<forall>p \<in> set (v4pPools profile). v4_pool_ok netRange p"
  shows "\<exists>r. newRegistry netRange v4 [] = Some r \<and> reg_inv r \<and>
    (\<forall>k a. allocators r k = Some a \<longrightarrow> leases a = Map.empty) \<and>
    (\<forall>(prof, profile) \<in> set v4.
       GetProfilePools prof r = map (\<lambda>p. poolKey prof (v4Name p)) (sort_key v4Priority (v4pPools profile)) \<and>
       (\<forall>p \<in> set (v4pPools profile). allocators r (poolKey prof (v4Name p)) \<noteq> None))"
  using newRegistry_build [OF assms] by (fastforce simp: fresh_inv_def v4_built_def GetProfilePools_def)

definition demo_v4 :: "(string \<times> IPv4Profile) list" where
  "demo_v4 = [(''p'', \<lparr>v4pGateway = ''10.0.0.1'', v4pPools =
     [\<lparr>v4Name = ''red'', v4Network = ''10.0.0.0/29'', v4RangeStart = [], v4RangeEnd = ''10.0.0.4'', v4Gateway = [],
       v4VRF = ''red'', v4Priority = 1, v4Exclude = [''10.0.0.3'']\<rparr>]\<rparr>)]"

lemma demo_addresses:
  "ParseAddr ''10.0.0.1'' = Some (V4 0x0a000001)" "ParseAddr ''10.0.0.4'' = Some (V4 0x0a000004)"
  "ParseAddr (TrimSpace ''10.0.0.3'') = Some (V4 0x0a000003)"
  by code_simp+

theorem registry_built_instance:
  "\<exists>r. newRegistry (\<lambda>_. Some (''10.0.0.1'', ''10.0.0.6'')) demo_v4 [] = Some r \<and> GetProfilePools ''p'' r = [''p/red'']"
proof -
  have "\<forall>(prof, profile) \<in> set demo_v4. \<forall>p \<in> set (v4pPools profile). v4_pool_ok (\<lambda>_. Some (''10.0.0.1'', ''10.0.0.6'')) p"
    using demo_addresses
    by (simp add: demo_v4_def v4_pool_ok_def poolRange_def parseExcludeRange_def)
  from registry_built [OF _ this] show ?thesis by (auto simp: demo_v4_def poolKey_def)
qed

subsection \<open>Releases that name no pool\<close>

text \<open>
  Releasing by address alone releases the address in every pool: the lease another session holds on the same
  address in another VRF is dropped, and the address is the next one served there.
\<close>

lemma release_by_address_drops_other_leases:
  assumes "reg_inv r" "allocators r k = Some a" "pool_key ip = Some x" "leases a x = Some victim"
  shows "\<exists>a' a'' ip'. allocators (ReleaseIP ip r) k = Some a' \<and> leases a' x = None \<and>
    pool_Allocate other a' = (Inr ip', a'') \<and> pool_key ip' = Some x"
proof -
  let ?a = "a\<lparr>leases := (leases a)(x := None), free := free a @ [x]\<rparr>"
  have "allocators (ReleaseIP ip r) k = Some ?a"
    using assms(2-4) by (simp add: ReleaseIP_def releaseAll_def pool_Release_key)
  moreover have "pool_key (AsSlice x) = Some x" using pool.key_ok [OF assms(3)] by (simp add: pool.key_render)
  ultimately show ?thesis by (simp add: pool_Allocate_def Let_def)
qed

text \<open>The pool override is served whatever the VRF of the pool.\<close>

lemma override_ignores_vrf:
  "\<exists>r' ip. AllocateFromProfile ''p'' ''red'' ''blue'' ''s1'' demo_registry = (Inr (ip, ''p/red''), r') \<and>
     vrfOf (poolVRFs demo_registry) ''p/red'' \<noteq> ''blue''"
  by (simp add: AllocateFromProfile_def allocFromProfile_def demo_registry_def emptyRegistry_def vrfOf_def
      pool_Allocate_def office_pool_def poolKey_def Let_def)

end
