(* ===== verification/L2TP_Header.thy ===== *)
theory L2TP_Header
  imports BNG_Prelude
begin

section \<open>The L2TPv2 header\<close>

text \<open>
  \<^verbatim>\<open>pkg/l2tp/header.go\<close>: the flags word, the optional fields it announces, \<^verbatim>\<open>Parse\<close> with its error
  values and \<^verbatim>\<open>AppendTo\<close>. The offset that \<^verbatim>\<open>Parse\<close> advances is a natural number; every read is guarded
  as in the source.
\<close>

datatype l2tp_error = ErrShortPacket | ErrBadVersion | ErrReservedBits | ErrLengthInvalid
  | ErrAVPShort | ErrAVPLengthTooBig | ErrAVPLengthTooSmall | ErrAVPReserved | ErrAVPHiddenNoRV
  | ErrChallengeShort | ErrChallengeBadResponse

abbreviation (input) flagT :: u16 where "flagT \<equiv> 0x8000"
abbreviation (input) flagL :: u16 where "flagL \<equiv> 0x4000"
abbreviation (input) flagS :: u16 where "flagS \<equiv> 0x0800"
abbreviation (input) flagO :: u16 where "flagO \<equiv> 0x0200"
abbreviation (input) flagP :: u16 where "flagP \<equiv> 0x0100"
abbreviation (input) verMask :: u16 where "verMask \<equiv> 0x000f"
abbreviation (input) resMask :: u16 where "resMask \<equiv> 0x34f0"

abbreviation (input) Version2 :: byte where "Version2 \<equiv> 2"
abbreviation (input) Version3 :: byte where "Version3 \<equiv> 3"

record Header =
  IsControl :: bool
  HasLength :: bool
  HasSequence :: bool
  HasOffset :: bool
  Priority :: bool
  Version :: byte
  Length :: u16
  TunnelID :: u16
  SessionID :: u16
  Ns :: u16
  Nr :: u16
  OffsetSize :: u16
  HeaderLen :: nat

abbreviation (input) MinHeaderLen :: nat where "MinHeaderLen \<equiv> 6"

definition flags_header :: "u16 \<Rightarrow> Header" where
  "flags_header flags = \<lparr>IsControl = flags AND flagT \<noteq> 0, HasLength = flags AND flagL \<noteq> 0,
     HasSequence = flags AND flagS \<noteq> 0, HasOffset = flags AND flagO \<noteq> 0, Priority = flags AND flagP \<noteq> 0,
     Version = ucast (flags AND verMask), Length = 0, TunnelID = 0, SessionID = 0, Ns = 0, Nr = 0,
     OffsetSize = 0, HeaderLen = 0\<rparr>"

text \<open>
  The optional fields, in the order \<^verbatim>\<open>Parse\<close> reads them: each stage takes the header read so far and the
  offset of the next field.
\<close>

definition parseLength :: "bytes \<Rightarrow> Header \<times> nat \<Rightarrow> l2tp_error + Header \<times> nat" where
  "parseLength b = (\<lambda>(h, off).
     if HasLength h then
       (if length b < off + 2 then Inl ErrShortPacket
        else Inr (h\<lparr>Length := get16 (drop off b)\<rparr>, off + 2))
     else Inr (h, off))"

definition parseIDs :: "bytes \<Rightarrow> Header \<times> nat \<Rightarrow> l2tp_error + Header \<times> nat" where
  "parseIDs b = (\<lambda>(h, off).
     if length b < off + 4 then Inl ErrShortPacket
     else Inr (h\<lparr>TunnelID := get16 (drop off b), SessionID := get16 (drop (off + 2) b)\<rparr>, off + 4))"

definition parseSequence :: "bytes \<Rightarrow> Header \<times> nat \<Rightarrow> l2tp_error + Header \<times> nat" where
  "parseSequence b = (\<lambda>(h, off).
     if HasSequence h then
       (if length b < off + 4 then Inl ErrShortPacket
        else Inr (h\<lparr>Ns := get16 (drop off b), Nr := get16 (drop (off + 2) b)\<rparr>, off + 4))
     else Inr (h, off))"

definition parseOffset :: "bytes \<Rightarrow> Header \<times> nat \<Rightarrow> l2tp_error + Header \<times> nat" where
  "parseOffset b = (\<lambda>(h, off).
     if HasOffset h then
       (if length b < off + 2 then Inl ErrShortPacket
        else (let h = h\<lparr>OffsetSize := get16 (drop off b)\<rparr>; off = off + 2 in
          if length b < off + unat (OffsetSize h) then Inl ErrShortPacket
          else Inr (h, off + unat (OffsetSize h))))
     else Inr (h, off))"

definition checkLength :: "bytes \<Rightarrow> Header \<times> nat \<Rightarrow> l2tp_error + Header \<times> bytes" where
  "checkLength b = (\<lambda>(h, off).
     if HasLength h \<and> unat (Length h) < off then Inl ErrLengthInvalid
     else if HasLength h \<and> length b < unat (Length h) then Inl ErrShortPacket
     else Inr (h\<lparr>HeaderLen := off\<rparr>, drop off b))"

definition Parse :: "bytes \<Rightarrow> l2tp_error + Header \<times> bytes" where
  "Parse b =
     (if length b < MinHeaderLen then Inl ErrShortPacket
      else if get16 b AND resMask \<noteq> 0 then Inl ErrReservedBits
      else bindE (parseLength b (flags_header (get16 b), 2)) (\<lambda>s.
           bindE (parseIDs b s) (\<lambda>s.
           bindE (parseSequence b s) (\<lambda>s.
           bindE (parseOffset b s) (checkLength b)))))"

lemmas parse_stages = parseLength_def parseIDs_def parseSequence_def parseOffset_def checkLength_def

definition HeaderLenBytes :: "Header \<Rightarrow> nat" where
  "HeaderLenBytes h = 2 + 4 + (if HasLength h then 2 else 0) + (if HasSequence h then 4 else 0)
     + (if HasOffset h then 2 + unat (OffsetSize h) else 0)"

definition header_flags :: "Header \<Rightarrow> u16" where
  "header_flags h = (if IsControl h then flagT else 0) OR (if HasLength h then flagL else 0)
     OR (if HasSequence h then flagS else 0) OR (if HasOffset h then flagO else 0)
     OR (if Priority h then flagP else 0) OR (ucast (Version h) AND verMask)"

definition AppendTo :: "Header \<Rightarrow> bytes \<Rightarrow> nat \<Rightarrow> bytes" where
  "AppendTo h dst bodyLen = dst @ put16 (header_flags h)
     @ (if HasLength h then put16 (of_nat (HeaderLenBytes h + bodyLen)) else [])
     @ put16 (TunnelID h) @ put16 (SessionID h)
     @ (if HasSequence h then put16 (Ns h) @ put16 (Nr h) else [])
     @ (if HasOffset h then put16 (OffsetSize h) @ replicate (unat (OffsetSize h)) 0 else [])"

definition zeroHeader :: Header where
  "zeroHeader = \<lparr>IsControl = False, HasLength = False, HasSequence = False, HasOffset = False,
     Priority = False, Version = 0, Length = 0, TunnelID = 0, SessionID = 0, Ns = 0, Nr = 0,
     OffsetSize = 0, HeaderLen = 0\<rparr>"

definition NewControl :: "u16 \<Rightarrow> u16 \<Rightarrow> u16 \<Rightarrow> u16 \<Rightarrow> Header" where
  "NewControl tid sid n r = zeroHeader\<lparr>IsControl := True, HasLength := True, HasSequence := True,
     Version := Version2, TunnelID := tid, SessionID := sid, Ns := n, Nr := r\<rparr>"

definition NewData :: "u16 \<Rightarrow> u16 \<Rightarrow> Header" where
  "NewData tid sid = zeroHeader\<lparr>Version := Version2, TunnelID := tid, SessionID := sid\<rparr>"

subsection \<open>The flags word\<close>

lemma word_and_numeral_assoc: "((a :: 'a :: len word) AND b) AND c = a AND (b AND c)"
  by (rule and.assoc)

lemma header_flags_bits:
  "header_flags h AND resMask = 0"
  "header_flags h AND flagT \<noteq> 0 \<longleftrightarrow> IsControl h"
  "header_flags h AND flagL \<noteq> 0 \<longleftrightarrow> HasLength h"
  "header_flags h AND flagS \<noteq> 0 \<longleftrightarrow> HasSequence h"
  "header_flags h AND flagO \<noteq> 0 \<longleftrightarrow> HasOffset h"
  "header_flags h AND flagP \<noteq> 0 \<longleftrightarrow> Priority h"
  by (simp_all add: header_flags_def bit.conj_disj_distrib2 word_and_numeral_assoc)

lemma header_flags_version:
  assumes "Version h < 16"
  shows "ucast (header_flags h AND verMask) = Version h"
proof -
  have "header_flags h AND verMask = ucast (Version h) AND verMask"
    by (simp add: header_flags_def bit.conj_disj_distrib2 word_and_numeral_assoc)
  then have "(ucast (header_flags h AND verMask) :: byte) = ucast (ucast (Version h) AND verMask :: u16)"
    by simp
  also have "\<dots> = take_bit 4 (Version h)"
    by (rule bit_word_eqI) (auto simp: bit_simps take_bit_eq_mask mask_eq_exp_minus_1)
  also have "\<dots> = Version h"
    using assms by (simp add: word_unat_eq_iff word_less_nat_alt unsigned_take_bit_eq take_bit_nat_eq_self)
  finally show ?thesis .
qed

lemma ucast_nibble_less: "ucast ((w :: u16) AND 0x000f) < (16 :: byte)"
proof -
  have "(ucast (w AND 0x000f) :: byte) = take_bit 4 (ucast w)"
    by (rule bit_word_eqI) (auto simp: bit_simps take_bit_eq_mask mask_eq_exp_minus_1)
  moreover have "unat (take_bit 4 (ucast w :: byte)) < 2 ^ 4"
    unfolding unsigned_take_bit_eq by (rule take_bit_nat_less_exp)
  ultimately show ?thesis
    by (simp add: word_less_nat_alt)
qed

subsection \<open>Round trip\<close>

text \<open>
  The headers \<^verbatim>\<open>Parse\<close> can return: a four-bit version, and fields that are zero when their flag is
  unset.
\<close>

definition header_wf :: "Header \<Rightarrow> bool" where
  "header_wf h \<longleftrightarrow> Version h < 16 \<and> (HasLength h \<or> Length h = 0)
     \<and> (HasSequence h \<or> Ns h = 0 \<and> Nr h = 0) \<and> (HasOffset h \<or> OffsetSize h = 0)"

lemma flags_header_flags:
  assumes "header_wf h"
  shows "flags_header (header_flags h) = h\<lparr>Length := 0, TunnelID := 0, SessionID := 0, Ns := 0, Nr := 0,
     OffsetSize := 0, HeaderLen := 0\<rparr>"
  using assms header_flags_bits [of h] header_flags_version [of h]
  by (simp add: flags_header_def header_wf_def)

lemma length_AppendTo: "length (AppendTo h dst n) = length dst + HeaderLenBytes h"
  by (simp add: AppendTo_def HeaderLenBytes_def)

lemma HeaderLenBytes_ge: "6 \<le> HeaderLenBytes h"
  by (simp add: HeaderLenBytes_def)

lemma Parse_AppendTo:
  assumes "header_wf h" "HeaderLenBytes h + length body < 65536"
  shows "Parse (AppendTo h [] (length body) @ body) =
    Inr (h\<lparr>Length := (if HasLength h then of_nat (HeaderLenBytes h + length body) else 0),
           HeaderLen := HeaderLenBytes h\<rparr>, body)"
proof -
  define L :: u16 where "L = of_nat (HeaderLenBytes h + length body)"
  define b where "b = AppendTo h [] (length body) @ body"
  have b: "b = put16 (header_flags h) @ (if HasLength h then put16 L else [])
      @ put16 (TunnelID h) @ put16 (SessionID h) @ (if HasSequence h then put16 (Ns h) @ put16 (Nr h) else [])
      @ (if HasOffset h then put16 (OffsetSize h) @ replicate (unat (OffsetSize h)) 0 else []) @ body"
    by (simp add: b_def AppendTo_def L_def)
  have len: "length b = HeaderLenBytes h + length body"
    by (simp add: b_def length_AppendTo)
  have g: "get16 b = header_flags h"
    by (simp add: b)
  have u: "unat L = length b"
    unfolding L_def len using assms(2) by (rule unat_of_nat_u16)
  let ?h1 = "h\<lparr>Length := (if HasLength h then L else 0), TunnelID := 0, SessionID := 0, Ns := 0, Nr := 0,
      OffsetSize := 0, HeaderLen := 0\<rparr>"
  let ?o1 = "if HasLength h then 4 else 2 :: nat"
  have s1: "parseLength b (flags_header (header_flags h), 2) = Inr (?h1, ?o1)"
    using assms(1) len HeaderLenBytes_ge [of h]
    by (simp add: flags_header_flags parseLength_def) (simp add: b)
  let ?h2 = "?h1\<lparr>TunnelID := TunnelID h, SessionID := SessionID h\<rparr>"
  have s2: "parseIDs b (?h1, ?o1) = Inr (?h2, ?o1 + 4)"
    by (simp add: parseIDs_def b)
  let ?h3 = "?h2\<lparr>Ns := Ns h, Nr := Nr h\<rparr>" and ?o3 = "?o1 + 4 + (if HasSequence h then 4 else 0)"
  have s3: "parseSequence b (?h2, ?o1 + 4) = Inr (?h3, ?o3)"
    using assms(1) by (cases h) (auto simp: parseSequence_def b header_wf_def)
  have s4: "parseOffset b (?h3, ?o3) = Inr (?h3\<lparr>OffsetSize := OffsetSize h\<rparr>, HeaderLenBytes h)"
    using assms(1) by (cases h) (auto simp: parseOffset_def b header_wf_def HeaderLenBytes_def)
  have "drop (HeaderLenBytes h) b = body"
    by (simp add: b_def length_AppendTo)
  then have s5: "checkLength b (?h3\<lparr>OffsetSize := OffsetSize h\<rparr>, HeaderLenBytes h)
      = Inr (h\<lparr>Length := (if HasLength h then L else 0), HeaderLen := HeaderLenBytes h\<rparr>, body)"
    using u len by (simp add: checkLength_def)
  show ?thesis
    unfolding b_def [symmetric] Parse_def g L_def [symmetric] s1 s2 s3 s4 s5 bindE_simps
    using len HeaderLenBytes_ge [of h] by (simp add: header_flags_bits)
qed

text \<open>What \<^verbatim>\<open>Parse\<close> accepts: the payload is the rest of the datagram after the header it consumed.\<close>

lemma Parse_InrD:
  assumes "Parse b = Inr (h, payload)"
  shows "payload = drop (HeaderLen h) b" "HeaderLen h = HeaderLenBytes h" "header_wf h"
    "HeaderLen h \<le> length b" "HasLength h \<Longrightarrow> HeaderLen h \<le> unat (Length h) \<and> unat (Length h) \<le> length b"
proof -
  define h0 where "h0 = flags_header (get16 b)"
  have h0: "Length h0 = 0" "Ns h0 = 0" "Nr h0 = 0" "OffsetSize h0 = 0" "Version h0 < 16"
    by (simp_all add: h0_def flags_header_def ucast_nibble_less)
  from assms obtain h1 h2 h3 h4 o1 o2 o3 o4 where
      p: "parseLength b (h0, 2) = Inr (h1, o1)" "parseIDs b (h1, o1) = Inr (h2, o2)"
        "parseSequence b (h2, o2) = Inr (h3, o3)" "parseOffset b (h3, o3) = Inr (h4, o4)"
        "checkLength b (h4, o4) = Inr (h, payload)"
    by (fastforce simp: Parse_def h0_def bindE_Inr_iff split: if_splits)
  note stages = p [unfolded parse_stages]
  have 1: "header_wf h1 \<and> HeaderLenBytes h1 = HeaderLenBytes h0 \<and> o1 = (if HasLength h1 then 4 else 2)
    \<and> Ns h1 = 0 \<and> Nr h1 = 0 \<and> OffsetSize h1 = 0"
    using stages(1) h0 by (auto simp: header_wf_def HeaderLenBytes_def split: if_splits)
  then have 2: "header_wf h2 \<and> o2 = (if HasLength h2 then 8 else 6) \<and> Ns h2 = 0 \<and> Nr h2 = 0 \<and> OffsetSize h2 = 0"
    using stages(2) by (auto simp: header_wf_def split: if_splits)
  then have 3: "header_wf h3 \<and> o3 = 6 + (if HasLength h3 then 2 else 0) + (if HasSequence h3 then 4 else 0)
    \<and> OffsetSize h3 = 0 \<and> o3 \<le> length b"
    using stages(2,3) by (auto simp: header_wf_def split: if_splits)
  then have 4: "header_wf h4 \<and> o4 = HeaderLenBytes h4 \<and> o4 \<le> length b"
    using stages(4) by (auto simp: header_wf_def HeaderLenBytes_def Let_def split: if_splits)
  with stages(5) show "payload = drop (HeaderLen h) b" "HeaderLen h = HeaderLenBytes h" "header_wf h"
    "HeaderLen h \<le> length b" "HasLength h \<Longrightarrow> HeaderLen h \<le> unat (Length h) \<and> unat (Length h) \<le> length b"
    by (auto simp: header_wf_def HeaderLenBytes_def split: if_splits)
qed

end
