(* ===== verification/L2TP_AVP.thy ===== *)
theory L2TP_AVP
  imports L2TP_Header
begin

section \<open>Attribute-value pairs\<close>

text \<open>
  \<^verbatim>\<open>pkg/l2tp/avp.go\<close>: the parser of a sequence of AVPs with the rule that a hidden AVP needs an earlier
  Random Vector, the lookup of an AVP, and the encoder, whose panic on an oversized value is \<^term>\<open>None\<close>.
\<close>

abbreviation (input) avpHeaderLen :: nat where "avpHeaderLen \<equiv> 6"
abbreviation (input) avpFlagM :: u16 where "avpFlagM \<equiv> 0x8000"
abbreviation (input) avpFlagH :: u16 where "avpFlagH \<equiv> 0x4000"
abbreviation (input) avpLenMask :: u16 where "avpLenMask \<equiv> 0x03ff"
abbreviation (input) avpResMask :: u16 where "avpResMask \<equiv> 0x3c00"
abbreviation (input) AVPRandomVector :: u16 where "AVPRandomVector \<equiv> 36"

record AVP =
  Mandatory :: bool
  Hidden :: bool
  VendorID :: u16
  avpType :: u16
  Value :: bytes

definition decodeAVP :: "bytes \<Rightarrow> AVP" where
  "decodeAVP b = (let flagsLen = get16 b in
     \<lparr>Mandatory = flagsLen AND avpFlagM \<noteq> 0, Hidden = flagsLen AND avpFlagH \<noteq> 0,
      VendorID = get16 (drop 2 b), avpType = get16 (drop 4 b),
      Value = drop avpHeaderLen (take (unat (flagsLen AND avpLenMask)) b)\<rparr>)"

lemma decodeAVP_sel:
  "Mandatory (decodeAVP b) \<longleftrightarrow> get16 b AND avpFlagM \<noteq> 0" "Hidden (decodeAVP b) \<longleftrightarrow> get16 b AND avpFlagH \<noteq> 0"
  "VendorID (decodeAVP b) = get16 (drop 2 b)" "avpType (decodeAVP b) = get16 (drop 4 b)"
  "Value (decodeAVP b) = drop avpHeaderLen (take (unat (get16 b AND avpLenMask)) b)"
  by (simp_all add: decodeAVP_def Let_def)

function ParseAVPs_from :: "bool \<Rightarrow> bytes \<Rightarrow> l2tp_error + AVP list" where
  "ParseAVPs_from seenRV b =
     (if length b = 0 then Inr []
      else if length b < avpHeaderLen then Inl ErrAVPShort
      else (let flagsLen = get16 b; len = unat (flagsLen AND avpLenMask); a = decodeAVP b in
        if flagsLen AND avpResMask \<noteq> 0 then Inl ErrAVPReserved
        else if len < avpHeaderLen then Inl ErrAVPLengthTooSmall
        else if length b < len then Inl ErrAVPLengthTooBig
        else if Hidden a \<and> \<not> seenRV then Inl ErrAVPHiddenNoRV
        else bindE (ParseAVPs_from (seenRV \<or> VendorID a = 0 \<and> avpType a = AVPRandomVector) (drop len b))
               (\<lambda>avps. Inr (a # avps))))"
  by pat_completeness auto
termination
  by (relation "measure (\<lambda>(_, b). length b)") auto

declare ParseAVPs_from.simps [simp del]

definition ParseAVPs :: "bytes \<Rightarrow> l2tp_error + AVP list" where
  "ParseAVPs b = ParseAVPs_from False b"

fun FindFirst :: "AVP list \<Rightarrow> u16 \<Rightarrow> u16 \<Rightarrow> AVP option" where
  "FindFirst [] v t = None"
| "FindFirst (a # avps) v t = (if VendorID a = v \<and> avpType a = t then Some a else FindFirst avps v t)"

definition AppendAVP :: "bytes \<Rightarrow> bool \<Rightarrow> bool \<Rightarrow> u16 \<Rightarrow> u16 \<Rightarrow> bytes \<Rightarrow> bytes option" where
  "AppendAVP dst m hid v t val = (let total = avpHeaderLen + length val in
     if 0x03ff < total then None
     else Some (dst @ put16 ((of_nat total AND avpLenMask) OR (if m then avpFlagM else 0) OR (if hid then avpFlagH else 0))
                    @ put16 v @ put16 t @ val))"

subsection \<open>Round trip\<close>

definition avp_fits :: "AVP \<Rightarrow> bool" where
  "avp_fits a \<longleftrightarrow> length (Value a) \<le> 1017"

definition avp_word :: "AVP \<Rightarrow> u16" where
  "avp_word a = (of_nat (avpHeaderLen + length (Value a)) AND avpLenMask)
     OR (if Mandatory a then avpFlagM else 0) OR (if Hidden a then avpFlagH else 0)"

definition avp_bytes :: "AVP \<Rightarrow> bytes" where
  "avp_bytes a = put16 (avp_word a) @ put16 (VendorID a) @ put16 (avpType a) @ Value a"

text \<open>The rule on hidden AVPs, from the state of the parser on.\<close>

fun hidden_ok :: "bool \<Rightarrow> AVP list \<Rightarrow> bool" where
  "hidden_ok rv [] \<longleftrightarrow> True"
| "hidden_ok rv (a # avps) \<longleftrightarrow> (Hidden a \<longrightarrow> rv) \<and> hidden_ok (rv \<or> VendorID a = 0 \<and> avpType a = AVPRandomVector) avps"

lemma hidden_ok_none: "\<forall>a \<in> set avps. \<not> Hidden a \<Longrightarrow> hidden_ok rv avps"
  by (induction avps arbitrary: rv) simp_all

lemma AppendAVP_eq:
  "AppendAVP dst m hid v t val =
     (let a = \<lparr>Mandatory = m, Hidden = hid, VendorID = v, avpType = t, Value = val\<rparr> in
      if avp_fits a then Some (dst @ avp_bytes a) else None)"
  by (auto simp: AppendAVP_def avp_fits_def avp_bytes_def avp_word_def Let_def)

lemma length_avp_bytes [simp, codec]: "length (avp_bytes a) = avpHeaderLen + length (Value a)"
  by (simp add: avp_bytes_def)

lemma and_1023_fits:
  assumes "n \<le> 1023"
  shows "of_nat n AND avpLenMask = (of_nat n :: u16)"
proof -
  have "(of_nat n :: u16) = take_bit 10 (of_nat n)"
    using assms by (simp add: word_unat_eq_iff unsigned_take_bit_eq unat_of_nat_u16 take_bit_nat_eq_self)
  then show ?thesis
    by (simp add: take_bit_eq_mask mask_eq_exp_minus_1)
qed

lemma and_1023_less: "unat ((w :: u16) AND avpLenMask) \<le> 1023"
proof -
  have "w AND avpLenMask = take_bit 10 w"
    by (simp add: take_bit_eq_mask mask_eq_exp_minus_1)
  then show ?thesis
    using take_bit_nat_less_exp [of 10 "unat w"] by (simp add: unsigned_take_bit_eq)
qed

lemma avp_word_bits:
  assumes "avp_fits a"
  shows "avp_word a AND avpResMask = 0" "avp_word a AND avpFlagM \<noteq> 0 \<longleftrightarrow> Mandatory a"
    "avp_word a AND avpFlagH \<noteq> 0 \<longleftrightarrow> Hidden a" "unat (avp_word a AND avpLenMask) = avpHeaderLen + length (Value a)"
proof -
  define n :: u16 where "n = of_nat (avpHeaderLen + length (Value a))"
  have n: "n AND avpLenMask = n" "unat n = avpHeaderLen + length (Value a)"
    using assms by (simp_all only: n_def avp_fits_def and_1023_fits unat_of_nat_u16)
  have w: "avp_word a = (n AND avpLenMask) OR (if Mandatory a then avpFlagM else 0) OR (if Hidden a then avpFlagH else 0)"
    by (simp add: avp_word_def n_def)
  show "avp_word a AND avpResMask = 0" "avp_word a AND avpFlagM \<noteq> 0 \<longleftrightarrow> Mandatory a"
    "avp_word a AND avpFlagH \<noteq> 0 \<longleftrightarrow> Hidden a"
    by (simp_all add: w bit.conj_disj_distrib2 word_and_numeral_assoc)
  show "unat (avp_word a AND avpLenMask) = avpHeaderLen + length (Value a)"
    using n by (simp add: w bit.conj_disj_distrib2 word_and_numeral_assoc)
qed

lemma decodeAVP_avp_bytes:
  assumes "avp_fits a"
  shows "decodeAVP (avp_bytes a @ rest) = a"
proof -
  have "get16 (avp_bytes a @ rest) = avp_word a"
    by (simp add: avp_bytes_def)
  moreover have "drop avpHeaderLen (take (avpHeaderLen + length (Value a)) (avp_bytes a @ rest)) = Value a"
    by (simp add: avp_bytes_def)
  ultimately show ?thesis
    using avp_word_bits [OF assms] by (simp add: decodeAVP_def) (simp add: avp_bytes_def)
qed

lemma ParseAVPs_from_avp_bytes:
  assumes "avp_fits a" "Hidden a \<longrightarrow> rv"
  shows "ParseAVPs_from rv (avp_bytes a @ rest) =
    bindE (ParseAVPs_from (rv \<or> VendorID a = 0 \<and> avpType a = AVPRandomVector) rest) (\<lambda>avps. Inr (a # avps))"
proof -
  have g: "get16 (avp_bytes a @ rest) = avp_word a"
    by (simp add: avp_bytes_def)
  have d: "drop (avpHeaderLen + length (Value a)) (avp_bytes a @ rest) = rest"
    by simp
  show ?thesis
    using assms avp_word_bits(1,4) [OF assms(1)]
    by (subst ParseAVPs_from.simps) (auto simp: g d decodeAVP_avp_bytes Let_def)
qed

lemma ParseAVPs_from_bytes:
  assumes "\<forall>a \<in> set avps. avp_fits a" "hidden_ok rv avps"
  shows "ParseAVPs_from rv (concat (map avp_bytes avps)) = Inr avps"
  using assms
proof (induction avps arbitrary: rv)
  case Nil
  then show ?case by (simp add: ParseAVPs_from.simps)
qed (simp add: ParseAVPs_from_avp_bytes)

lemma word_single_bit: "(if (w :: u16) AND 2 ^ n \<noteq> 0 then 2 ^ n else 0) = w AND 2 ^ n"
  by (auto simp: and_exp_eq_0_iff_not_bit bit_simps intro!: bit_word_eqI)

lemma avp_word_split:
  assumes "(w :: u16) AND avpResMask = 0"
  shows "((w AND avpLenMask) AND avpLenMask) OR (if w AND avpFlagM \<noteq> 0 then avpFlagM else 0)
    OR (if w AND avpFlagH \<noteq> 0 then avpFlagH else 0) = w"
proof -
  have M: "(if w AND avpFlagM \<noteq> 0 then avpFlagM else 0) = w AND avpFlagM"
    using word_single_bit [of w 15] by (auto split: if_splits)
  have H: "(if w AND avpFlagH \<noteq> 0 then avpFlagH else 0) = w AND avpFlagH"
    using word_single_bit [of w 14] by (auto split: if_splits)
  have "w AND 0xffff = take_bit 16 w"
    by (simp add: take_bit_eq_mask mask_eq_exp_minus_1)
  also have "\<dots> = w"
    by (rule bit_word_eqI) (simp add: bit_simps)
  finally have full: "w AND 0xffff = w" .
  have "(w AND avpLenMask) OR (w AND avpFlagM) OR (w AND avpFlagH) OR (w AND avpResMask) = w"
    by (simp add: full flip: bit.conj_disj_distrib)
  then show ?thesis
    using assms by (simp add: M H word_and_numeral_assoc)
qed

lemma put16_get16_3:
  assumes "6 \<le> length b"
  shows "put16 (get16 b) @ put16 (get16 (drop 2 b)) @ put16 (get16 (drop 4 b)) = take 6 b"
proof -
  from assms obtain b0 b1 b2 b3 b4 b5 r where "b = b0 # b1 # b2 # b3 # b4 # b5 # r"
    by (auto simp: numeral_eq_Suc Suc_le_length_iff)
  moreover have "put16 (get16 (x # y # zs)) = [x, y]" for x y zs
    using put16_get16_pair [of x y] by (simp add: get16_def)
  ultimately show ?thesis
    by simp
qed

lemma avp_bytes_decodeAVP:
  assumes "get16 b AND avpResMask = 0" "avpHeaderLen \<le> unat (get16 b AND avpLenMask)"
    "unat (get16 b AND avpLenMask) \<le> length b"
  shows "avp_bytes (decodeAVP b) = take (unat (get16 b AND avpLenMask)) b" "avp_fits (decodeAVP b)"
proof -
  let ?n = "unat (get16 b AND avpLenMask)"
  have n: "avpHeaderLen + length (Value (decodeAVP b)) = ?n"
    using assms by (simp add: decodeAVP_sel)
  have "of_nat (avpHeaderLen + length (Value (decodeAVP b))) = get16 b AND avpLenMask"
    unfolding n by simp
  then have "avp_word (decodeAVP b) = ((get16 b AND avpLenMask) AND avpLenMask)
      OR (if get16 b AND avpFlagM \<noteq> 0 then avpFlagM else 0) OR (if get16 b AND avpFlagH \<noteq> 0 then avpFlagH else 0)"
    by (simp only: avp_word_def decodeAVP_sel)
  also have "\<dots> = get16 b"
    using assms(1) by (rule avp_word_split)
  finally have w: "avp_word (decodeAVP b) = get16 b" .
  have "length b \<ge> 6" using assms by simp
  then have "put16 (get16 b) @ put16 (get16 (drop 2 b)) @ put16 (get16 (drop 4 b)) = take 6 b"
    by (rule put16_get16_3)
  then have "avp_bytes (decodeAVP b) = take 6 b @ drop 6 (take ?n b)"
    unfolding avp_bytes_def w by (simp add: decodeAVP_sel)
  also have "\<dots> = take ?n b"
    using assms(2) by (metis append_take_drop_id min.absorb1 take_take)
  finally show "avp_bytes (decodeAVP b) = take ?n b" .
  show "avp_fits (decodeAVP b)"
    using n and_1023_less [of "get16 b"] by (simp add: avp_fits_def)
qed

lemma ParseAVPs_from_InrD:
  "ParseAVPs_from rv b = Inr avps \<Longrightarrow>
     concat (map avp_bytes avps) = b \<and> (\<forall>a \<in> set avps. avp_fits a) \<and> hidden_ok rv avps"
proof (induction rv b arbitrary: avps rule: ParseAVPs_from.induct)
  case (1 rv b)
  let ?w = "get16 b" and ?a = "decodeAVP b"
  let ?n = "unat (?w AND avpLenMask)" and ?rv = "rv \<or> VendorID ?a = 0 \<and> avpType ?a = AVPRandomVector"
  show ?case
  proof (cases "b = []")
    case True
    with "1.prems" show ?thesis by (simp add: ParseAVPs_from.simps)
  next
    case False
    with "1.prems" have c: "\<not> length b < avpHeaderLen" "?w AND avpResMask = 0" "\<not> ?n < avpHeaderLen"
        "\<not> length b < ?n" "Hidden ?a \<longrightarrow> rv"
      and "bindE (ParseAVPs_from ?rv (drop ?n b)) (\<lambda>avps. Inr (?a # avps)) = Inr avps"
      by (auto simp: ParseAVPs_from.simps [of rv b] Let_def split: if_splits)
    then obtain rest where r: "ParseAVPs_from ?rv (drop ?n b) = Inr rest" "avps = ?a # rest"
      by (auto elim: bindE_InrE)
    have "concat (map avp_bytes rest) = drop ?n b \<and> (\<forall>a \<in> set rest. avp_fits a) \<and> hidden_ok ?rv rest"
      using "1.IH" [OF _ c(1) refl refl refl] c False r(1) by simp
    moreover have "avp_bytes ?a = take ?n b" "avp_fits ?a"
      using avp_bytes_decodeAVP [of b] c by simp_all
    ultimately show ?thesis using c(5) r(2) by simp
  qed
qed

end
