(* ===== verification/L2TP_Messages.thy ===== *)
theory L2TP_Messages
  imports L2TP_AVP MD5 "HOL-Library.Monad_Syntax"
begin

section \<open>L2TPv2 control messages\<close>

text \<open>
  \<^verbatim>\<open>pkg/l2tp/avp_catalog.go\<close>, \<^verbatim>\<open>messages.go\<close>, \<^verbatim>\<open>challenge.go\<close>, \<^verbatim>\<open>v3_detect.go\<close> and
  \<^verbatim>\<open>result_codes.go\<close>: the attribute and message numbers, the appenders of one AVP, the message builders,
  the readers, tunnel authentication and the result codes. A Go string is its bytes. An appender panics on a
  value that does not fit, so the builders run in the option monad.
\<close>

subsection \<open>Attribute and message types\<close>

abbreviation (input) AVPMessageType :: u16 where "AVPMessageType \<equiv> 0"
abbreviation (input) AVPResultCode :: u16 where "AVPResultCode \<equiv> 1"
abbreviation (input) AVPProtocolVersion :: u16 where "AVPProtocolVersion \<equiv> 2"
abbreviation (input) AVPFramingCapabilities :: u16 where "AVPFramingCapabilities \<equiv> 3"
abbreviation (input) AVPBearerCapabilities :: u16 where "AVPBearerCapabilities \<equiv> 4"
abbreviation (input) AVPFirmwareRevision :: u16 where "AVPFirmwareRevision \<equiv> 6"
abbreviation (input) AVPHostName :: u16 where "AVPHostName \<equiv> 7"
abbreviation (input) AVPVendorName :: u16 where "AVPVendorName \<equiv> 8"
abbreviation (input) AVPAssignedTunnelID :: u16 where "AVPAssignedTunnelID \<equiv> 9"
abbreviation (input) AVPReceiveWindowSize :: u16 where "AVPReceiveWindowSize \<equiv> 10"
abbreviation (input) AVPChallenge :: u16 where "AVPChallenge \<equiv> 11"
abbreviation (input) AVPChallengeResponse :: u16 where "AVPChallengeResponse \<equiv> 13"
abbreviation (input) AVPAssignedSessionID :: u16 where "AVPAssignedSessionID \<equiv> 14"
abbreviation (input) AVPCallSerialNumber :: u16 where "AVPCallSerialNumber \<equiv> 15"
abbreviation (input) AVPFramingType :: u16 where "AVPFramingType \<equiv> 19"
abbreviation (input) AVPTxConnectSpeed :: u16 where "AVPTxConnectSpeed \<equiv> 24"
abbreviation (input) AVPLastSentLCPConfReq :: u16 where "AVPLastSentLCPConfReq \<equiv> 27"
abbreviation (input) AVPLastRecvLCPConfReq :: u16 where "AVPLastRecvLCPConfReq \<equiv> 28"
abbreviation (input) AVPProxyAuthenType :: u16 where "AVPProxyAuthenType \<equiv> 29"
abbreviation (input) AVPProxyAuthenName :: u16 where "AVPProxyAuthenName \<equiv> 30"
abbreviation (input) AVPProxyAuthenChallenge :: u16 where "AVPProxyAuthenChallenge \<equiv> 31"
abbreviation (input) AVPProxyAuthenResponse :: u16 where "AVPProxyAuthenResponse \<equiv> 33"
abbreviation (input) AVPCallErrors :: u16 where "AVPCallErrors \<equiv> 34"
abbreviation (input) AVPACCM :: u16 where "AVPACCM \<equiv> 35"

abbreviation (input) MsgTypeSCCRQ :: u16 where "MsgTypeSCCRQ \<equiv> 1"
abbreviation (input) MsgTypeSCCRP :: u16 where "MsgTypeSCCRP \<equiv> 2"
abbreviation (input) MsgTypeSCCCN :: u16 where "MsgTypeSCCCN \<equiv> 3"
abbreviation (input) MsgTypeStopCCN :: u16 where "MsgTypeStopCCN \<equiv> 4"
abbreviation (input) MsgTypeHello :: u16 where "MsgTypeHello \<equiv> 6"
abbreviation (input) MsgTypeICRQ :: u16 where "MsgTypeICRQ \<equiv> 10"
abbreviation (input) MsgTypeICRP :: u16 where "MsgTypeICRP \<equiv> 11"
abbreviation (input) MsgTypeICCN :: u16 where "MsgTypeICCN \<equiv> 12"
abbreviation (input) MsgTypeCDN :: u16 where "MsgTypeCDN \<equiv> 14"

abbreviation (input) FramingSync :: u32 where "FramingSync \<equiv> 2"
abbreviation (input) BearerDigital :: u32 where "BearerDigital \<equiv> 2"
abbreviation (input) VendorIETF :: u16 where "VendorIETF \<equiv> 0"

type_synonym ResultCode = u16
type_synonym ErrorCode = u16

subsection \<open>Appenders\<close>

definition appendMessageTypeAVP :: "bytes \<Rightarrow> u16 \<Rightarrow> bytes option" where
  "appendMessageTypeAVP dst t = AppendAVP dst True False VendorIETF AVPMessageType (put16 t)"

definition BuildHello :: "bytes option" where
  "BuildHello = appendMessageTypeAVP [] MsgTypeHello"

definition appendResultCodeAVP :: "bytes \<Rightarrow> ResultCode \<Rightarrow> ErrorCode \<Rightarrow> bytes \<Rightarrow> bytes option" where
  "appendResultCodeAVP dst rc ec msg =
     (let val = put16 rc; val = (if ec \<noteq> 0 \<or> 0 < length msg then val @ put16 ec @ msg else val)
      in AppendAVP dst True False VendorIETF AVPResultCode val)"

definition appendProtocolVersionAVP :: "bytes \<Rightarrow> byte \<Rightarrow> byte \<Rightarrow> bytes option" where
  "appendProtocolVersionAVP dst version revision =
     AppendAVP dst True False VendorIETF AVPProtocolVersion [version, revision]"

definition appendFramingCapabilitiesAVP :: "bytes \<Rightarrow> u32 \<Rightarrow> bytes option" where
  "appendFramingCapabilitiesAVP dst caps = AppendAVP dst True False VendorIETF AVPFramingCapabilities (put32 caps)"

definition appendFramingTypeAVP :: "bytes \<Rightarrow> u32 \<Rightarrow> bytes option" where
  "appendFramingTypeAVP dst framing = AppendAVP dst True False VendorIETF AVPFramingType (put32 framing)"

definition appendBearerCapabilitiesAVP :: "bytes \<Rightarrow> u32 \<Rightarrow> bytes option" where
  "appendBearerCapabilitiesAVP dst caps = AppendAVP dst True False VendorIETF AVPBearerCapabilities (put32 caps)"

definition appendFirmwareRevisionAVP :: "bytes \<Rightarrow> u16 \<Rightarrow> bytes option" where
  "appendFirmwareRevisionAVP dst revision =
     AppendAVP dst False False VendorIETF AVPFirmwareRevision (put16 revision)"

definition appendHostNameAVP :: "bytes \<Rightarrow> bytes \<Rightarrow> bytes option" where
  "appendHostNameAVP dst hostname = AppendAVP dst True False VendorIETF AVPHostName hostname"

definition appendVendorNameAVP :: "bytes \<Rightarrow> bytes \<Rightarrow> bytes option" where
  "appendVendorNameAVP dst name = AppendAVP dst False False VendorIETF AVPVendorName name"

definition appendAssignedTunnelIDAVP :: "bytes \<Rightarrow> u16 \<Rightarrow> bytes option" where
  "appendAssignedTunnelIDAVP dst tid = AppendAVP dst True False VendorIETF AVPAssignedTunnelID (put16 tid)"

definition appendReceiveWindowSizeAVP :: "bytes \<Rightarrow> u16 \<Rightarrow> bytes option" where
  "appendReceiveWindowSizeAVP dst sz = AppendAVP dst True False VendorIETF AVPReceiveWindowSize (put16 sz)"

definition appendChallengeAVP :: "bytes \<Rightarrow> bytes \<Rightarrow> bytes option" where
  "appendChallengeAVP dst challenge = AppendAVP dst True False VendorIETF AVPChallenge challenge"

definition appendChallengeResponseAVP :: "bytes \<Rightarrow> bytes \<Rightarrow> bytes option" where
  "appendChallengeResponseAVP dst response = AppendAVP dst True False VendorIETF AVPChallengeResponse response"

definition appendAssignedSessionIDAVP :: "bytes \<Rightarrow> u16 \<Rightarrow> bytes option" where
  "appendAssignedSessionIDAVP dst sid = AppendAVP dst True False VendorIETF AVPAssignedSessionID (put16 sid)"

definition appendCallSerialNumberAVP :: "bytes \<Rightarrow> u32 \<Rightarrow> bytes option" where
  "appendCallSerialNumberAVP dst serial = AppendAVP dst True False VendorIETF AVPCallSerialNumber (put32 serial)"

definition appendCallErrorsAVP :: "bytes \<Rightarrow> bytes option" where
  "appendCallErrorsAVP dst = AppendAVP dst False False VendorIETF AVPCallErrors (replicate (2 + 6 * 4) 0)"

definition appendACCMAVP :: "bytes \<Rightarrow> bytes option" where
  "appendACCMAVP dst = AppendAVP dst False False VendorIETF AVPACCM (replicate (2 + 4 + 4) 0)"

definition appendProxyAuthenTypeAVP :: "bytes \<Rightarrow> u16 \<Rightarrow> bytes option" where
  "appendProxyAuthenTypeAVP dst t = AppendAVP dst False False VendorIETF AVPProxyAuthenType (put16 t)"

definition appendProxyAuthenNameAVP :: "bytes \<Rightarrow> bytes \<Rightarrow> bytes option" where
  "appendProxyAuthenNameAVP dst name = AppendAVP dst False False VendorIETF AVPProxyAuthenName name"

definition appendProxyAuthenChallengeAVP :: "bytes \<Rightarrow> bytes \<Rightarrow> bytes option" where
  "appendProxyAuthenChallengeAVP dst challenge = AppendAVP dst False False VendorIETF AVPProxyAuthenChallenge challenge"

definition appendProxyAuthenResponseAVP :: "bytes \<Rightarrow> bytes \<Rightarrow> bytes option" where
  "appendProxyAuthenResponseAVP dst response = AppendAVP dst False False VendorIETF AVPProxyAuthenResponse response"

subsection \<open>Builders\<close>

record SCCRQParams =
  rqLocalTunnelID :: u16
  rqReceiveWindowSize :: u16
  rqHostName :: bytes
  rqVendorName :: bytes
  rqFramingCaps :: u32
  rqBearerCaps :: u32
  rqFirmwareRevision :: u16
  rqChallenge :: bytes

definition BuildSCCRQ :: "SCCRQParams \<Rightarrow> bytes option" where
  "BuildSCCRQ p = do {
     body \<leftarrow> appendMessageTypeAVP [] MsgTypeSCCRQ;
     body \<leftarrow> appendProtocolVersionAVP body 1 0;
     body \<leftarrow> appendFramingCapabilitiesAVP body (rqFramingCaps p);
     body \<leftarrow> appendBearerCapabilitiesAVP body (rqBearerCaps p);
     body \<leftarrow> (if rqFirmwareRevision p \<noteq> 0 then appendFirmwareRevisionAVP body (rqFirmwareRevision p) else Some body);
     body \<leftarrow> appendHostNameAVP body (rqHostName p);
     body \<leftarrow> (if rqVendorName p \<noteq> [] then appendVendorNameAVP body (rqVendorName p) else Some body);
     body \<leftarrow> appendAssignedTunnelIDAVP body (rqLocalTunnelID p);
     body \<leftarrow> appendReceiveWindowSizeAVP body (rqReceiveWindowSize p);
     (if 0 < length (rqChallenge p) then appendChallengeAVP body (rqChallenge p) else Some body)
   }"

definition BuildSCCCN :: "bytes \<Rightarrow> bytes option" where
  "BuildSCCCN challengeResponse = do {
     body \<leftarrow> appendMessageTypeAVP [] MsgTypeSCCCN;
     (if 0 < length challengeResponse then appendChallengeResponseAVP body challengeResponse else Some body)
   }"

definition BuildICRQ :: "u16 \<Rightarrow> u32 \<Rightarrow> bytes option" where
  "BuildICRQ localSessionID callSerialNumber = do {
     body \<leftarrow> appendMessageTypeAVP [] MsgTypeICRQ;
     body \<leftarrow> appendAssignedSessionIDAVP body localSessionID;
     appendCallSerialNumberAVP body callSerialNumber
   }"

record SCCRPParams =
  rpLocalTunnelID :: u16
  rpReceiveWindowSize :: u16
  rpHostName :: bytes
  rpVendorName :: bytes
  rpFramingCaps :: u32
  rpBearerCaps :: u32
  rpFirmwareRevision :: u16
  rpChallenge :: bytes
  rpChallengeResponse :: bytes

definition BuildSCCRP :: "SCCRPParams \<Rightarrow> bytes option" where
  "BuildSCCRP p = do {
     body \<leftarrow> appendMessageTypeAVP [] MsgTypeSCCRP;
     body \<leftarrow> appendProtocolVersionAVP body 1 0;
     body \<leftarrow> appendFramingCapabilitiesAVP body (rpFramingCaps p);
     body \<leftarrow> appendBearerCapabilitiesAVP body (rpBearerCaps p);
     body \<leftarrow> (if rpFirmwareRevision p \<noteq> 0 then appendFirmwareRevisionAVP body (rpFirmwareRevision p) else Some body);
     body \<leftarrow> appendHostNameAVP body (rpHostName p);
     body \<leftarrow> (if rpVendorName p \<noteq> [] then appendVendorNameAVP body (rpVendorName p) else Some body);
     body \<leftarrow> appendAssignedTunnelIDAVP body (rpLocalTunnelID p);
     body \<leftarrow> appendReceiveWindowSizeAVP body (rpReceiveWindowSize p);
     body \<leftarrow> (if 0 < length (rpChallenge p) then appendChallengeAVP body (rpChallenge p) else Some body);
     (if 0 < length (rpChallengeResponse p) then appendChallengeResponseAVP body (rpChallengeResponse p) else Some body)
   }"

definition BuildStopCCN :: "u16 \<Rightarrow> ResultCode \<Rightarrow> ErrorCode \<Rightarrow> bytes \<Rightarrow> bytes option" where
  "BuildStopCCN localTunnelID rc ec msg = do {
     body \<leftarrow> appendMessageTypeAVP [] MsgTypeStopCCN;
     body \<leftarrow> appendResultCodeAVP body rc ec msg;
     appendAssignedTunnelIDAVP body localTunnelID
   }"

definition BuildICRP :: "u16 \<Rightarrow> bytes option" where
  "BuildICRP localSessionID = do {
     body \<leftarrow> appendMessageTypeAVP [] MsgTypeICRP;
     appendAssignedSessionIDAVP body localSessionID
   }"

record ICCNParams =
  icTxConnectSpeed :: u32
  icFraming :: u32
  icLastSentLCPConfReq :: bytes
  icLastReceivedLCPConfReq :: bytes
  icProxyAuthenType :: u16
  icProxyAuthenName :: bytes
  icProxyAuthenChallenge :: bytes
  icProxyAuthenResponse :: bytes

definition BuildICCN :: "ICCNParams \<Rightarrow> bytes option" where
  "BuildICCN p = do {
     body \<leftarrow> appendMessageTypeAVP [] MsgTypeICCN;
     let speed = (if icTxConnectSpeed p = 0 then 1000000000 else icTxConnectSpeed p);
     body \<leftarrow> AppendAVP body True False VendorIETF AVPTxConnectSpeed
       [ucast (drop_bit 24 speed), ucast (drop_bit 16 speed), ucast (drop_bit 8 speed), ucast speed];
     body \<leftarrow> appendFramingTypeAVP body (icFraming p);
     body \<leftarrow> appendCallErrorsAVP body;
     body \<leftarrow> appendACCMAVP body;
     body \<leftarrow> (if 0 < length (icLastSentLCPConfReq p)
       then AppendAVP body True False VendorIETF AVPLastSentLCPConfReq (icLastSentLCPConfReq p) else Some body);
     body \<leftarrow> (if 0 < length (icLastReceivedLCPConfReq p)
       then AppendAVP body True False VendorIETF AVPLastRecvLCPConfReq (icLastReceivedLCPConfReq p) else Some body);
     body \<leftarrow> (if icProxyAuthenType p \<noteq> 0 then appendProxyAuthenTypeAVP body (icProxyAuthenType p) else Some body);
     body \<leftarrow> (if icProxyAuthenName p \<noteq> [] then appendProxyAuthenNameAVP body (icProxyAuthenName p) else Some body);
     body \<leftarrow> (if 0 < length (icProxyAuthenChallenge p)
       then appendProxyAuthenChallengeAVP body (icProxyAuthenChallenge p) else Some body);
     (if 0 < length (icProxyAuthenResponse p)
       then appendProxyAuthenResponseAVP body (icProxyAuthenResponse p) else Some body)
   }"

definition BuildCDN :: "u16 \<Rightarrow> ResultCode \<Rightarrow> ErrorCode \<Rightarrow> bytes \<Rightarrow> bytes option" where
  "BuildCDN localSessionID rc ec msg = do {
     body \<leftarrow> appendMessageTypeAVP [] MsgTypeCDN;
     body \<leftarrow> appendResultCodeAVP body rc ec msg;
     appendAssignedSessionIDAVP body localSessionID
   }"

subsection \<open>Readers\<close>

text \<open>\<^verbatim>\<open>a.Value[:2]\<close> panics on a shorter value: \<^term>\<open>None\<close>.\<close>

definition DecodeUint16 :: "AVP \<Rightarrow> u16 option" where
  "DecodeUint16 a = (if length (Value a) < 2 then None else Some (get16 (Value a)))"

definition DecodeUint32 :: "AVP \<Rightarrow> u32 option" where
  "DecodeUint32 a = (if length (Value a) < 4 then None else Some (get32 (Value a)))"

definition DecodeString :: "AVP \<Rightarrow> bytes" where
  "DecodeString a = Value a"

text \<open>The guard on the length makes the read total.\<close>

definition DecodeMessageType :: "AVP list \<Rightarrow> u16" where
  "DecodeMessageType avps = (case avps of [] \<Rightarrow> 0
     | a # _ \<Rightarrow> (if VendorID a \<noteq> VendorIETF \<or> avpType a \<noteq> AVPMessageType \<or> length (Value a) < 2 then 0
                 else (case DecodeUint16 a of None \<Rightarrow> 0 | Some t \<Rightarrow> t)))"

subsection \<open>Version 3\<close>

definition IsL2TPv3 :: "bytes \<Rightarrow> bool" where
  "IsL2TPv3 b = (if length b < 2 then False else (ucast (get16 b AND verMask) :: byte) = Version3)"

abbreviation (input) ResultStopVersionUnsupported :: ResultCode where "ResultStopVersionUnsupported \<equiv> 5"

definition BuildV3RejectStopCCN :: "u16 \<Rightarrow> u16 \<Rightarrow> bytes option" where
  "BuildV3RejectStopCCN localTunnelID peerTunnelID = do {
     body \<leftarrow> appendMessageTypeAVP [] MsgTypeStopCCN;
     body \<leftarrow> appendResultCodeAVP body ResultStopVersionUnsupported 0x0100 [];
     body \<leftarrow> appendAssignedTunnelIDAVP body localTunnelID;
     let h = NewControl peerTunnelID 0 0 0;
     Some (AppendTo h [] (length body) @ body)
   }"

subsection \<open>Tunnel authentication\<close>

definition ComputeChallengeResponse :: "byte \<Rightarrow> bytes \<Rightarrow> bytes \<Rightarrow> bytes" where
  "ComputeChallengeResponse messageTypeByte password challenge = md5 ([messageTypeByte] @ password @ challenge)"

fun constantTimeEqual_loop :: "byte \<Rightarrow> bytes \<Rightarrow> bytes \<Rightarrow> byte" where
  "constantTimeEqual_loop diff (x # xs) (y # ys) = constantTimeEqual_loop (diff OR (x XOR y)) xs ys"
| "constantTimeEqual_loop diff _ _ = diff"

definition constantTimeEqual :: "bytes \<Rightarrow> bytes \<Rightarrow> bool" where
  "constantTimeEqual a b = (if length a \<noteq> length b then False else constantTimeEqual_loop 0 a b = 0)"

definition VerifyChallengeResponse :: "byte \<Rightarrow> bytes \<Rightarrow> bytes \<Rightarrow> bytes \<Rightarrow> l2tp_error option" where
  "VerifyChallengeResponse messageTypeByte password challenge observed =
     (if length observed < 16 then Some ErrChallengeShort
      else if \<not> constantTimeEqual (ComputeChallengeResponse messageTypeByte password challenge) (take 16 observed)
      then Some ErrChallengeBadResponse
      else None)"

subsection \<open>Result codes\<close>

datatype DenylistKind = DenylistNone | DenylistTunnel | DenylistPeer

definition DenylistForStopCCN :: "ResultCode \<Rightarrow> DenylistKind" where
  "DenylistForStopCCN rc = (if rc = 4 \<or> rc = 5 then DenylistTunnel
     else if rc = 2 \<or> rc = 1 \<or> rc = 6 then DenylistTunnel else DenylistNone)"

definition DenylistForCDN :: "ResultCode \<Rightarrow> DenylistKind" where
  "DenylistForCDN rc = (if rc = 4 \<or> rc = 5 \<or> rc = 6 then DenylistTunnel else DenylistNone)"

subsection \<open>What the builders put on the wire\<close>

definition plainAVP :: "bool \<Rightarrow> u16 \<Rightarrow> bytes \<Rightarrow> AVP" where
  "plainAVP m t val = \<lparr>Mandatory = m, Hidden = False, VendorID = VendorIETF, avpType = t, Value = val\<rparr>"

definition appendAVPs :: "bytes \<Rightarrow> AVP list \<Rightarrow> bytes option" where
  "appendAVPs dst avps = (if \<forall>a \<in> set avps. avp_fits a then Some (dst @ concat (map avp_bytes avps)) else None)"

lemma plainAVP_sel [simp]:
  "Mandatory (plainAVP m t val) = m" "\<not> Hidden (plainAVP m t val)" "VendorID (plainAVP m t val) = 0"
  "avpType (plainAVP m t val) = t" "Value (plainAVP m t val) = val"
  by (simp_all add: plainAVP_def)

lemma AppendAVP_plain: "AppendAVP dst m False VendorIETF t val = appendAVPs dst [plainAVP m t val]"
  by (simp add: AppendAVP_eq appendAVPs_def plainAVP_def Let_def)

lemma appendAVPs_bind: "appendAVPs dst as \<bind> (\<lambda>d. appendAVPs d bs) = appendAVPs dst (as @ bs)"
  by (auto simp: appendAVPs_def)

lemma appendAVPs_bind_then:
  "appendAVPs dst as \<bind> (\<lambda>d. appendAVPs d bs \<bind> f) = appendAVPs dst (as @ bs) \<bind> f"
  by (auto simp: appendAVPs_def)

lemma appendAVPs_opt:
  "(if c then appendAVPs body as else Some body) = appendAVPs body (if c then as else [])"
  by (simp add: appendAVPs_def)

lemmas appenders = appendMessageTypeAVP_def appendResultCodeAVP_def appendProtocolVersionAVP_def
  appendFramingCapabilitiesAVP_def appendFramingTypeAVP_def appendBearerCapabilitiesAVP_def
  appendFirmwareRevisionAVP_def appendHostNameAVP_def appendVendorNameAVP_def appendAssignedTunnelIDAVP_def
  appendReceiveWindowSizeAVP_def appendChallengeAVP_def appendChallengeResponseAVP_def
  appendAssignedSessionIDAVP_def appendCallSerialNumberAVP_def appendCallErrorsAVP_def appendACCMAVP_def
  appendProxyAuthenTypeAVP_def appendProxyAuthenNameAVP_def appendProxyAuthenChallengeAVP_def
  appendProxyAuthenResponseAVP_def

lemmas build_avps = appenders AppendAVP_plain appendAVPs_opt appendAVPs_bind appendAVPs_bind_then append_Cons append_Nil

definition opt_avp :: "bool \<Rightarrow> AVP \<Rightarrow> AVP list" where
  "opt_avp c a = (if c then [a] else [])"

lemma FindFirst_append:
  "FindFirst (as @ bs) v t = (case FindFirst as v t of None \<Rightarrow> FindFirst bs v t | Some a \<Rightarrow> Some a)"
  by (induction as) simp_all

lemma FindFirst_opt_avp:
  "FindFirst (opt_avp c a) v t = (if c \<and> VendorID a = v \<and> avpType a = t then Some a else None)"
  by (simp add: opt_avp_def)

text \<open>The AVPs of each message, in order.\<close>

definition SCCRQ_avps :: "SCCRQParams \<Rightarrow> AVP list" where
  "SCCRQ_avps p = [plainAVP True AVPMessageType (put16 MsgTypeSCCRQ), plainAVP True AVPProtocolVersion [1, 0],
     plainAVP True AVPFramingCapabilities (put32 (rqFramingCaps p)),
     plainAVP True AVPBearerCapabilities (put32 (rqBearerCaps p))]
     @ opt_avp (rqFirmwareRevision p \<noteq> 0) (plainAVP False AVPFirmwareRevision (put16 (rqFirmwareRevision p)))
     @ [plainAVP True AVPHostName (rqHostName p)]
     @ opt_avp (rqVendorName p \<noteq> []) (plainAVP False AVPVendorName (rqVendorName p))
     @ [plainAVP True AVPAssignedTunnelID (put16 (rqLocalTunnelID p)),
        plainAVP True AVPReceiveWindowSize (put16 (rqReceiveWindowSize p))]
     @ opt_avp (rqChallenge p \<noteq> []) (plainAVP True AVPChallenge (rqChallenge p))"

definition SCCRP_avps :: "SCCRPParams \<Rightarrow> AVP list" where
  "SCCRP_avps p = [plainAVP True AVPMessageType (put16 MsgTypeSCCRP), plainAVP True AVPProtocolVersion [1, 0],
     plainAVP True AVPFramingCapabilities (put32 (rpFramingCaps p)),
     plainAVP True AVPBearerCapabilities (put32 (rpBearerCaps p))]
     @ opt_avp (rpFirmwareRevision p \<noteq> 0) (plainAVP False AVPFirmwareRevision (put16 (rpFirmwareRevision p)))
     @ [plainAVP True AVPHostName (rpHostName p)]
     @ opt_avp (rpVendorName p \<noteq> []) (plainAVP False AVPVendorName (rpVendorName p))
     @ [plainAVP True AVPAssignedTunnelID (put16 (rpLocalTunnelID p)),
        plainAVP True AVPReceiveWindowSize (put16 (rpReceiveWindowSize p))]
     @ opt_avp (rpChallenge p \<noteq> []) (plainAVP True AVPChallenge (rpChallenge p))
     @ opt_avp (rpChallengeResponse p \<noteq> []) (plainAVP True AVPChallengeResponse (rpChallengeResponse p))"

definition SCCCN_avps :: "bytes \<Rightarrow> AVP list" where
  "SCCCN_avps r = plainAVP True AVPMessageType (put16 MsgTypeSCCCN)
     # opt_avp (r \<noteq> []) (plainAVP True AVPChallengeResponse r)"

definition ICRQ_avps :: "u16 \<Rightarrow> u32 \<Rightarrow> AVP list" where
  "ICRQ_avps sid serial = [plainAVP True AVPMessageType (put16 MsgTypeICRQ),
     plainAVP True AVPAssignedSessionID (put16 sid), plainAVP True AVPCallSerialNumber (put32 serial)]"

definition ICRP_avps :: "u16 \<Rightarrow> AVP list" where
  "ICRP_avps sid = [plainAVP True AVPMessageType (put16 MsgTypeICRP), plainAVP True AVPAssignedSessionID (put16 sid)]"

definition resultAVP :: "ResultCode \<Rightarrow> ErrorCode \<Rightarrow> bytes \<Rightarrow> AVP" where
  "resultAVP rc ec msg = plainAVP True AVPResultCode
     (if ec \<noteq> 0 \<or> 0 < length msg then put16 rc @ put16 ec @ msg else put16 rc)"

definition StopCCN_avps :: "u16 \<Rightarrow> ResultCode \<Rightarrow> ErrorCode \<Rightarrow> bytes \<Rightarrow> AVP list" where
  "StopCCN_avps tid rc ec msg = [plainAVP True AVPMessageType (put16 MsgTypeStopCCN), resultAVP rc ec msg,
     plainAVP True AVPAssignedTunnelID (put16 tid)]"

definition CDN_avps :: "u16 \<Rightarrow> ResultCode \<Rightarrow> ErrorCode \<Rightarrow> bytes \<Rightarrow> AVP list" where
  "CDN_avps sid rc ec msg = [plainAVP True AVPMessageType (put16 MsgTypeCDN), resultAVP rc ec msg,
     plainAVP True AVPAssignedSessionID (put16 sid)]"

lemma BuildSCCRQ_eq: "BuildSCCRQ p = appendAVPs [] (SCCRQ_avps p)"
  by (simp add: BuildSCCRQ_def build_avps SCCRQ_avps_def opt_avp_def)

lemma BuildSCCRP_eq: "BuildSCCRP p = appendAVPs [] (SCCRP_avps p)"
  by (simp add: BuildSCCRP_def build_avps SCCRP_avps_def opt_avp_def)

lemma BuildSCCCN_eq: "BuildSCCCN r = appendAVPs [] (SCCCN_avps r)"
  by (simp add: BuildSCCCN_def build_avps SCCCN_avps_def opt_avp_def)

lemma BuildICRQ_eq: "BuildICRQ sid serial = appendAVPs [] (ICRQ_avps sid serial)"
  by (simp add: BuildICRQ_def build_avps ICRQ_avps_def)

lemma BuildICRP_eq: "BuildICRP sid = appendAVPs [] (ICRP_avps sid)"
  by (simp add: BuildICRP_def build_avps ICRP_avps_def)

lemma BuildStopCCN_eq: "BuildStopCCN tid rc ec msg = appendAVPs [] (StopCCN_avps tid rc ec msg)"
  by (simp add: BuildStopCCN_def build_avps StopCCN_avps_def resultAVP_def Let_def)

lemma BuildCDN_eq: "BuildCDN sid rc ec msg = appendAVPs [] (CDN_avps sid rc ec msg)"
  by (simp add: BuildCDN_def build_avps CDN_avps_def resultAVP_def Let_def)

lemma BuildHello_eq: "BuildHello = appendAVPs [] [plainAVP True AVPMessageType (put16 MsgTypeHello)]"
  by (simp add: BuildHello_def build_avps)

lemma ParseAVPs_appendAVPs:
  assumes "appendAVPs [] avps = Some b" "\<forall>a \<in> set avps. \<not> Hidden a"
  shows "ParseAVPs b = Inr avps"
  using assms ParseAVPs_from_bytes [OF _ hidden_ok_none]
  by (auto simp: appendAVPs_def ParseAVPs_def split: if_splits)

lemma DecodeMessageType_plain:
  "DecodeMessageType (plainAVP m AVPMessageType (put16 t) # avps) = t"
  by (simp add: DecodeMessageType_def DecodeUint16_def)

definition ICCN_avps :: "ICCNParams \<Rightarrow> AVP list" where
  "ICCN_avps p = [plainAVP True AVPMessageType (put16 MsgTypeICCN),
     plainAVP True AVPTxConnectSpeed (put32 (if icTxConnectSpeed p = 0 then 1000000000 else icTxConnectSpeed p)),
     plainAVP True AVPFramingType (put32 (icFraming p)),
     plainAVP False AVPCallErrors (replicate 26 0), plainAVP False AVPACCM (replicate 10 0)]
     @ opt_avp (icLastSentLCPConfReq p \<noteq> []) (plainAVP True AVPLastSentLCPConfReq (icLastSentLCPConfReq p))
     @ opt_avp (icLastReceivedLCPConfReq p \<noteq> []) (plainAVP True AVPLastRecvLCPConfReq (icLastReceivedLCPConfReq p))
     @ opt_avp (icProxyAuthenType p \<noteq> 0) (plainAVP False AVPProxyAuthenType (put16 (icProxyAuthenType p)))
     @ opt_avp (icProxyAuthenName p \<noteq> []) (plainAVP False AVPProxyAuthenName (icProxyAuthenName p))
     @ opt_avp (icProxyAuthenChallenge p \<noteq> []) (plainAVP False AVPProxyAuthenChallenge (icProxyAuthenChallenge p))
     @ opt_avp (icProxyAuthenResponse p \<noteq> []) (plainAVP False AVPProxyAuthenResponse (icProxyAuthenResponse p))"

lemma put32_bytes: "put32 w = [ucast (drop_bit 24 w), ucast (drop_bit 16 w), ucast (drop_bit 8 w), ucast w]"
  by (simp add: put32_def put16_def) (auto simp: bit_simps intro!: bit_word_eqI)

lemma BuildICCN_eq: "BuildICCN p = appendAVPs [] (ICCN_avps p)"
  by (simp add: BuildICCN_def build_avps ICCN_avps_def opt_avp_def Let_def flip: put32_bytes)

text \<open>No message this side builds hides an AVP, and each starts with its message type.\<close>

lemma opt_avp_set [simp]: "set (opt_avp c a) = (if c then {a} else {})"
  by (simp add: opt_avp_def)

lemmas message_avps = SCCRQ_avps_def SCCRP_avps_def SCCCN_avps_def ICRQ_avps_def ICRP_avps_def ICCN_avps_def
  StopCCN_avps_def CDN_avps_def resultAVP_def

lemma messages_plain:
  "\<forall>a \<in> set (SCCRQ_avps rq). \<not> Hidden a" "\<forall>a \<in> set (SCCRP_avps rp). \<not> Hidden a"
  "\<forall>a \<in> set (SCCCN_avps r). \<not> Hidden a" "\<forall>a \<in> set (ICRQ_avps sid serial). \<not> Hidden a"
  "\<forall>a \<in> set (ICRP_avps sid). \<not> Hidden a" "\<forall>a \<in> set (ICCN_avps ic). \<not> Hidden a"
  "\<forall>a \<in> set (StopCCN_avps tid rc ec msg). \<not> Hidden a" "\<forall>a \<in> set (CDN_avps sid rc ec msg). \<not> Hidden a"
  by (simp_all add: message_avps)

lemma messages_type:
  "DecodeMessageType (SCCRQ_avps rq) = MsgTypeSCCRQ" "DecodeMessageType (SCCRP_avps rp) = MsgTypeSCCRP"
  "DecodeMessageType (SCCCN_avps r) = MsgTypeSCCCN" "DecodeMessageType (ICRQ_avps sid serial) = MsgTypeICRQ"
  "DecodeMessageType (ICRP_avps sid) = MsgTypeICRP" "DecodeMessageType (ICCN_avps ic) = MsgTypeICCN"
  "DecodeMessageType (StopCCN_avps tid rc ec msg) = MsgTypeStopCCN"
  "DecodeMessageType (CDN_avps sid rc ec msg) = MsgTypeCDN"
  by (simp_all add: message_avps DecodeMessageType_plain)

subsection \<open>Tunnel authentication decides by the digest\<close>

lemma constantTimeEqual_loop_zero:
  "length a = length b \<Longrightarrow> constantTimeEqual_loop d a b = 0 \<longleftrightarrow> d = 0 \<and> a = b"
  by (induction d a b rule: constantTimeEqual_loop.induct) (auto simp: word_or_eq_0 word_xor_eq_0)

lemma constantTimeEqual_eq [simp]: "constantTimeEqual a b \<longleftrightarrow> a = b"
  by (auto simp: constantTimeEqual_def constantTimeEqual_loop_zero)

lemma length_ComputeChallengeResponse [simp]: "length (ComputeChallengeResponse m s ch) = 16"
  by (simp add: ComputeChallengeResponse_def)

lemma VerifyChallengeResponse_None_iff:
  "VerifyChallengeResponse m secret ch obs = None \<longleftrightarrow>
     16 \<le> length obs \<and> take 16 obs = md5 ([m] @ secret @ ch)"
  by (auto simp: VerifyChallengeResponse_def ComputeChallengeResponse_def)

lemma BuildSCCCN_response:
  assumes "BuildSCCCN (ComputeChallengeResponse m secret ch) = Some b"
  shows "\<exists>avps a. ParseAVPs b = Inr avps \<and> DecodeMessageType avps = MsgTypeSCCCN
    \<and> FindFirst avps 0 AVPChallengeResponse = Some a \<and> VerifyChallengeResponse m secret ch (Value a) = None"
proof -
  have "ComputeChallengeResponse m secret ch \<noteq> []"
    using length_ComputeChallengeResponse [of m secret ch] by (metis list.size(3) zero_neq_numeral)
  moreover have "ParseAVPs b = Inr (SCCCN_avps (ComputeChallengeResponse m secret ch))"
    using assms by (intro ParseAVPs_appendAVPs) (simp_all add: BuildSCCCN_eq messages_plain)
  ultimately show ?thesis
    by (simp add: messages_type) (simp add: SCCCN_avps_def opt_avp_def VerifyChallengeResponse_def)
qed

end
