(* ===== verification/L2TP_Channel.thy ===== *)
theory L2TP_Channel
  imports BNG_Prelude
begin

section \<open>The reliable control channel\<close>

text \<open>
  \<^verbatim>\<open>pkg/l2tp/control_channel.go\<close>. A \<^verbatim>\<open>time.Time\<close> is its nanoseconds since the zero time, so that the
  zero value \<^verbatim>\<open>time.Time{}\<close> is 0 and \<^verbatim>\<open>IsZero\<close> is the test for 0; a \<^verbatim>\<open>time.Duration\<close> is an integer
  of nanoseconds, with the wrap-around of its 64 bits written out where the code shifts one. Calls of the
  \<^verbatim>\<open>send\<close> and \<^verbatim>\<open>dead\<close> callbacks are appended to \<open>ctrace\<close>; \<open>sendFails n\<close> says whether the transmission
  that is entry \<open>n\<close> of the trace returns an error.
\<close>

type_synonym time = int

datatype chan_act = CSend bytes u16 u16 u16 | CDead

record pendingMsg =
  mBody :: bytes
  mSession :: u16
  mNs :: u16
  attempts :: int
  deadline :: time

record ControlChannel =
  hasDead :: bool
  rtoInitial :: int
  rtoMax :: int
  maxRetries :: int
  zlbDelay :: int
  cns :: u16
  cnr :: u16
  cwnd :: int
  ssthresh :: int
  peerWindow :: int
  queue :: "pendingMsg list"
  nextRTO :: time
  zlbDeadline :: time
  ctrace :: "chan_act list"
  sendFails :: "nat \<Rightarrow> bool"

record ChanConfig =
  RTOInitial :: int
  RTOMax :: int
  MaxRetries :: int
  PeerRWS :: int
  ZLBDelay :: int

abbreviation (input) second :: int where "second \<equiv> 1000000000"

definition NewControlChannel :: "ChanConfig \<Rightarrow> bool \<Rightarrow> (nat \<Rightarrow> bool) \<Rightarrow> ControlChannel" where
  "NewControlChannel cfg dead fails =
     (let rti = (if RTOInitial cfg = 0 then 1 * second else RTOInitial cfg);
          rtm = (if RTOMax cfg = 0 then 8 * second else RTOMax cfg);
          mr = (if MaxRetries cfg = 0 then 5 else MaxRetries cfg);
          rws = (if PeerRWS cfg = 0 then 4 else PeerRWS cfg);
          zd = (if ZLBDelay cfg = 0 then 200000000 else ZLBDelay cfg)
      in \<lparr>hasDead = dead, rtoInitial = rti, rtoMax = rtm, maxRetries = mr, zlbDelay = zd, cns = 0, cnr = 0,
          cwnd = 1, ssthresh = rws, peerWindow = rws, queue = [], nextRTO = 0, zlbDeadline = 0, ctrace = [],
          sendFails = fails\<rparr>)"

definition SetPeerWindow :: "int \<Rightarrow> ControlChannel \<Rightarrow> ControlChannel" where
  "SetPeerWindow rws c = (let rws = (if rws < 1 then 1 else rws) in
     c\<lparr>peerWindow := rws, ssthresh := (if ssthresh c > rws then rws else ssthresh c),
       cwnd := (if cwnd c > rws then rws else cwnd c)\<rparr>)"

text \<open>One call of the \<^verbatim>\<open>send\<close> callback; the result says whether it failed.\<close>

definition callSend :: "bytes \<Rightarrow> u16 \<Rightarrow> u16 \<Rightarrow> ControlChannel \<Rightarrow> bool \<times> ControlChannel" where
  "callSend body sid n c =
     (sendFails c (length (ctrace c)), c\<lparr>ctrace := ctrace c @ [CSend body sid n (cnr c)]\<rparr>)"

subsection \<open>Transmission\<close>

definition recomputeNextRTO :: "ControlChannel \<Rightarrow> ControlChannel" where
  "recomputeNextRTO c = c\<lparr>nextRTO := fold (\<lambda>m t.
     if attempts m = 0 then t else if t = 0 \<or> deadline m < t then deadline m else t) (queue c) 0\<rparr>"

text \<open>
  The second loop of \<^verbatim>\<open>driveSend\<close> over the rest of the queue, with the number of messages in flight; it
  returns whether a transmission failed and the rest of the queue as it leaves it.
\<close>

fun driveLoop :: "time \<Rightarrow> int \<Rightarrow> pendingMsg list \<Rightarrow> ControlChannel \<Rightarrow> bool \<times> pendingMsg list \<times> ControlChannel" where
  "driveLoop now inflight [] c = (False, [], c)"
| "driveLoop now inflight (m # ms) c =
     (if attempts m > 0 then
        (case driveLoop now inflight ms c of (err, ms', c') \<Rightarrow> (err, m # ms', c'))
      else if inflight \<ge> cwnd c then (False, m # ms, c)
      else (let m' = m\<lparr>attempts := 1, deadline := now + rtoInitial c\<rparr> in
        (case callSend (mBody m) (mSession m) (mNs m) c of (failed, c1) \<Rightarrow>
          if failed then (True, m' # ms, c1)
          else (case driveLoop now (inflight + 1) ms (c1\<lparr>zlbDeadline := 0\<rparr>) of (err, ms', c') \<Rightarrow>
            (err, m' # ms', c')))))"

definition countInflight :: "pendingMsg list \<Rightarrow> int" where
  "countInflight ms = int (length (filter (\<lambda>m. attempts m > 0) ms))"

definition driveSend :: "time \<Rightarrow> ControlChannel \<Rightarrow> bool \<times> ControlChannel" where
  "driveSend now c = (case driveLoop now (countInflight (queue c)) (queue c) c of (err, q, c') \<Rightarrow>
     (let c'' = c'\<lparr>queue := q\<rparr> in if err then (True, c'') else (False, recomputeNextRTO c'')))"

definition SendSession :: "bytes \<Rightarrow> u16 \<Rightarrow> time \<Rightarrow> ControlChannel \<Rightarrow> bool \<times> ControlChannel" where
  "SendSession body sid now c =
     (let m = \<lparr>mBody = body, mSession = sid, mNs = cns c, attempts = 0, deadline = 0\<rparr> in
      driveSend now (c\<lparr>cns := cns c + 1, queue := queue c @ [m]\<rparr>))"

definition chan_Send :: "bytes \<Rightarrow> time \<Rightarrow> ControlChannel \<Rightarrow> bool \<times> ControlChannel" where
  "chan_Send body now c = SendSession body 0 now c"

subsection \<open>Reception\<close>

definition seqLess :: "u16 \<Rightarrow> u16 \<Rightarrow> bool" where
  "seqLess a b = ((a - b) AND 0x8000 \<noteq> 0)"

definition growCwndOnAck :: "ControlChannel \<Rightarrow> ControlChannel" where
  "growCwndOnAck c = (let w = (if cwnd c < ssthresh c then cwnd c + 1 else cwnd c + 1) in
     c\<lparr>cwnd := (if w > peerWindow c then peerWindow c else w)\<rparr>)"

fun ackLoop :: "u16 \<Rightarrow> pendingMsg list \<Rightarrow> ControlChannel \<Rightarrow> bool \<Rightarrow> bool \<times> pendingMsg list \<times> ControlChannel" where
  "ackLoop nr [] c progressed = (progressed, [], c)"
| "ackLoop nr (m # ms) c progressed =
     (if attempts m = 0 then (progressed, m # ms, c)
      else if seqLess (mNs m) nr then ackLoop nr ms (growCwndOnAck c) True
      else (progressed, m # ms, c))"

definition ackThrough :: "u16 \<Rightarrow> time \<Rightarrow> ControlChannel \<Rightarrow> ControlChannel" where
  "ackThrough nr now c = (case ackLoop nr (queue c) c False of (progressed, q, c') \<Rightarrow>
     (let c'' = c'\<lparr>queue := q\<rparr> in if progressed then snd (driveSend now c'') else c''))"

definition scheduleZLB :: "time \<Rightarrow> ControlChannel \<Rightarrow> ControlChannel" where
  "scheduleZLB now c = c\<lparr>zlbDeadline := now + zlbDelay c\<rparr>"

definition chan_Recv :: "u16 \<Rightarrow> u16 \<Rightarrow> time \<Rightarrow> ControlChannel \<Rightarrow> bool \<times> ControlChannel" where
  "chan_Recv ns nr now c = (let c = ackThrough nr now c in
     if ns \<noteq> cnr c then (False, scheduleZLB now c)
     else (True, scheduleZLB now (c\<lparr>cnr := cnr c + 1\<rparr>)))"

subsection \<open>Timers\<close>

text \<open>The shift of a duration by the number of attempts keeps the low 64 bits, read as a signed integer.\<close>

definition shl64 :: "int \<Rightarrow> nat \<Rightarrow> int" where
  "shl64 d k = signed_take_bit 63 (push_bit k d)"

definition backoff :: "ControlChannel \<Rightarrow> int \<Rightarrow> int" where
  "backoff c n = (let rto = shl64 (rtoInitial c) (nat (n - 1)) in if rto > rtoMax c then rtoMax c else rto)"

text \<open>
  The loop of \<^verbatim>\<open>Tick\<close> over the rest of the queue. The result says whether the channel died; then the
  callback has been called and the rest of the loop is skipped.
\<close>

fun tickLoop :: "time \<Rightarrow> pendingMsg list \<Rightarrow> ControlChannel \<Rightarrow> bool \<times> pendingMsg list \<times> ControlChannel" where
  "tickLoop now [] c = (False, [], c)"
| "tickLoop now (m # ms) c =
     (if attempts m = 0 \<or> now < deadline m then
        (case tickLoop now ms c of (died, ms', c') \<Rightarrow> (died, m # ms', c'))
      else (let n = attempts m + 1 in
        if n > maxRetries c then
          (True, [], if hasDead c then c\<lparr>ctrace := ctrace c @ [CDead]\<rparr> else c)
        else (let half = cwnd c div 2;
                  c1 = c\<lparr>ssthresh := (if half < 1 then 1 else half), cwnd := 1\<rparr>;
                  m' = m\<lparr>attempts := n, deadline := now + backoff c n\<rparr>;
                  c2 = snd (callSend (mBody m) (mSession m) (mNs m) c1)
              in (case tickLoop now ms c2 of (died, ms', c') \<Rightarrow> (died, m' # ms', c')))))"

definition emitZLB :: "time \<Rightarrow> ControlChannel \<Rightarrow> ControlChannel" where
  "emitZLB now c = (if zlbDeadline c \<noteq> 0 \<and> \<not> now < zlbDeadline c
     then (snd (callSend [] 0 (cns c) c))\<lparr>zlbDeadline := 0\<rparr> else c)"

definition chan_Tick :: "time \<Rightarrow> ControlChannel \<Rightarrow> time \<times> ControlChannel" where
  "chan_Tick now c = (case tickLoop now (queue c) c of (died, q, c1) \<Rightarrow>
     if died then (0, c1\<lparr>queue := [], nextRTO := 0\<rparr>)
     else (let c2 = emitZLB now (recomputeNextRTO (c1\<lparr>queue := q\<rparr>));
               earliest = nextRTO c2
           in (if zlbDeadline c2 \<noteq> 0 \<and> (earliest = 0 \<or> zlbDeadline c2 < earliest) then zlbDeadline c2 else earliest,
               c2)))"

subsection \<open>What the loops leave alone\<close>

definition msg_core :: "pendingMsg \<Rightarrow> bytes \<times> u16 \<times> u16" where
  "msg_core m = (mBody m, mSession m, mNs m)"

definition sends :: "u16 \<Rightarrow> pendingMsg list \<Rightarrow> chan_act set" where
  "sends r ms = (\<lambda>m. CSend (mBody m) (mSession m) (mNs m) r) ` set ms"

lemma sends_simps [simp]:
  "sends r [] = {}" "sends r (m # ms) = insert (CSend (mBody m) (mSession m) (mNs m) r) (sends r ms)"
  "sends r (ms @ ms') = sends r ms \<union> sends r ms'"
  by (auto simp: sends_def)

lemma msg_core_update [simp]:
  "msg_core (m\<lparr>attempts := n, deadline := t\<rparr>) = msg_core m"
  by (simp add: msg_core_def)

lemma driveLoop_frame:
  "driveLoop now k ms c = (err, ms', c') \<Longrightarrow>
     \<exists>z acts. c' = c\<lparr>zlbDeadline := z, ctrace := ctrace c @ acts\<rparr> \<and> set acts \<subseteq> sends (cnr c) ms
       \<and> map msg_core ms' = map msg_core ms"
proof (induction now k ms c arbitrary: err ms' c' rule: driveLoop.induct)
  case (1 now k c)
  then show ?case by (intro exI [of _ "zlbDeadline c"] exI [of _ "[]"]) auto
next
  case (2 now k m ms c)
  show ?case
  proof (cases "attempts m > 0")
    case True
    with "2.prems" obtain ms1 where r: "driveLoop now k ms c = (err, ms1, c')" "ms' = m # ms1"
      by (auto split: prod.splits)
    from "2.IH"(1) [OF True r(1)] r(2) show ?thesis by auto
  next
    case False
    show ?thesis
    proof (cases "k \<ge> cwnd c")
      case True
      with False "2.prems" show ?thesis by (intro exI [of _ "zlbDeadline c"] exI [of _ "[]"]) auto
    next
      case go: False
      obtain b c1 where cs: "callSend (mBody m) (mSession m) (mNs m) c = (b, c1)" by fastforce
      have c1: "c1 = c\<lparr>ctrace := ctrace c @ [CSend (mBody m) (mSession m) (mNs m) (cnr c)]\<rparr>"
        using cs by (simp add: callSend_def)
      show ?thesis
      proof (cases b)
        case True
        with False go cs "2.prems" show ?thesis
          by (intro exI [of _ "zlbDeadline c"] exI [of _ "[CSend (mBody m) (mSession m) (mNs m) (cnr c)]"])
            (auto simp: c1)
      next
        case ok: False
        with False go cs "2.prems" obtain ms1 where
            r: "driveLoop now (k + 1) ms (c1\<lparr>zlbDeadline := 0\<rparr>) = (err, ms1, c')"
            "ms' = m\<lparr>attempts := 1, deadline := now + rtoInitial c\<rparr> # ms1"
          by (auto split: prod.splits)
        from "2.IH"(2) [OF False go refl cs [symmetric] ok r(1)] obtain z acts where
            "c' = c1\<lparr>zlbDeadline := z, ctrace := ctrace c1 @ acts\<rparr>" "set acts \<subseteq> sends (cnr c) ms"
            "map msg_core ms1 = map msg_core ms"
          by (auto simp: c1)
        then show ?thesis using r(2)
          by (intro exI [of _ z] exI [of _ "CSend (mBody m) (mSession m) (mNs m) (cnr c) # acts"]) (auto simp: c1)
      qed
    qed
  qed
qed

lemma tickLoop_frame:
  "tickLoop now ms c = (died, ms', c') \<Longrightarrow>
     \<exists>w s acts. c' = c\<lparr>cwnd := w, ssthresh := s, ctrace := ctrace c @ acts\<rparr> \<and> set acts \<subseteq> insert CDead (sends (cnr c) ms)
       \<and> (w = cwnd c \<and> s = ssthresh c \<or> w = 1 \<and> 1 \<le> s) \<and> (\<not> died \<longrightarrow> map msg_core ms' = map msg_core ms \<and> CDead \<notin> set acts)"
proof (induction now ms c arbitrary: died ms' c' rule: tickLoop.induct)
  case (1 now c)
  then show ?case by (intro exI [of _ "cwnd c"] exI [of _ "ssthresh c"] exI [of _ "[]"]) auto
next
  case (2 now m ms c)
  let ?n = "attempts m + 1"
  let ?c1 = "c\<lparr>ssthresh := (if cwnd c div 2 < 1 then 1 else cwnd c div 2), cwnd := 1\<rparr>"
  show ?case
  proof (cases "attempts m = 0 \<or> now < deadline m")
    case True
    with "2.prems" obtain ms1 where r: "tickLoop now ms c = (died, ms1, c')" "ms' = m # ms1"
      by (auto split: prod.splits)
    from "2.IH"(1) [OF True r(1)] obtain w s acts where
        "c' = c\<lparr>cwnd := w, ssthresh := s, ctrace := ctrace c @ acts\<rparr>" "set acts \<subseteq> insert CDead (sends (cnr c) ms)"
        "w = cwnd c \<and> s = ssthresh c \<or> w = 1 \<and> 1 \<le> s"
        "\<not> died \<longrightarrow> map msg_core ms1 = map msg_core ms \<and> CDead \<notin> set acts"
      by blast
    with r(2) show ?thesis by (intro exI [of _ w] exI [of _ s] exI [of _ acts]) auto
  next
    case False
    show ?thesis
    proof (cases "?n > maxRetries c")
      case True
      with False "2.prems" have "died" "c' = (if hasDead c then c\<lparr>ctrace := ctrace c @ [CDead]\<rparr> else c)"
        by auto
      then show ?thesis
        by (intro exI [of _ "cwnd c"] exI [of _ "ssthresh c"] exI [of _ "if hasDead c then [CDead] else []"]) auto
    next
      case go: False
      define c2 where "c2 = snd (callSend (mBody m) (mSession m) (mNs m) ?c1)"
      have c2: "c2 = ?c1\<lparr>ctrace := ctrace c @ [CSend (mBody m) (mSession m) (mNs m) (cnr c)]\<rparr>"
        by (simp add: c2_def callSend_def)
      from False go "2.prems" obtain ms1 where
          r: "tickLoop now ms c2 = (died, ms1, c')"
          "ms' = m\<lparr>attempts := ?n, deadline := now + backoff c ?n\<rparr> # ms1"
        by (auto simp: Let_def c2_def split: prod.splits)
      have "\<exists>w s acts. c' = c2\<lparr>cwnd := w, ssthresh := s, ctrace := ctrace c2 @ acts\<rparr>
          \<and> set acts \<subseteq> insert CDead (sends (cnr c2) ms) \<and> (w = cwnd c2 \<and> s = ssthresh c2 \<or> w = 1 \<and> 1 \<le> s)
          \<and> (\<not> died \<longrightarrow> map msg_core ms1 = map msg_core ms \<and> CDead \<notin> set acts)"
        by (rule "2.IH"(2) [OF False refl go refl refl refl, folded c2_def, OF refl r(1)])
      then obtain w s acts where
          w: "c' = c2\<lparr>cwnd := w, ssthresh := s, ctrace := ctrace c2 @ acts\<rparr>"
          "set acts \<subseteq> insert CDead (sends (cnr c2) ms)" "w = cwnd c2 \<and> s = ssthresh c2 \<or> w = 1 \<and> 1 \<le> s"
          "\<not> died \<longrightarrow> map msg_core ms1 = map msg_core ms \<and> CDead \<notin> set acts"
        by blast
      let ?acts = "CSend (mBody m) (mSession m) (mNs m) (cnr c) # acts"
      have "c' = c\<lparr>cwnd := w, ssthresh := s, ctrace := ctrace c @ ?acts\<rparr>"
        using w(1) by (simp add: c2)
      moreover have "set ?acts \<subseteq> insert CDead (sends (cnr c) (m # ms))"
        using w(2) by (auto simp: c2)
      moreover have "w = 1 \<and> 1 \<le> s"
        using w(3) by (auto simp: c2 not_less)
      moreover have "\<not> died \<longrightarrow> map msg_core ms' = map msg_core (m # ms) \<and> CDead \<notin> set ?acts"
        using w(4) r(2) by simp
      ultimately show ?thesis by blast
    qed
  qed
qed
subsection \<open>What the operations leave alone\<close>

lemma recomputeNextRTO_upd: "recomputeNextRTO c = c\<lparr>nextRTO := nextRTO (recomputeNextRTO c)\<rparr>"
  by (simp add: recomputeNextRTO_def)

lemma driveSend_frame:
  obtains z q n acts where
    "snd (driveSend now c) = c\<lparr>zlbDeadline := z, ctrace := ctrace c @ acts, queue := q, nextRTO := n\<rparr>"
    "set acts \<subseteq> sends (cnr c) (queue c)" "map msg_core q = map msg_core (queue c)"
proof -
  obtain err q c' where d: "driveLoop now (countInflight (queue c)) (queue c) c = (err, q, c')"
    by (metis prod_cases3)
  from driveLoop_frame [OF d] obtain z acts where
      c': "c' = c\<lparr>zlbDeadline := z, ctrace := ctrace c @ acts\<rparr>" "set acts \<subseteq> sends (cnr c) (queue c)"
      "map msg_core q = map msg_core (queue c)" by blast
  have "\<exists>n. snd (driveSend now c) = c\<lparr>zlbDeadline := z, ctrace := ctrace c @ acts, queue := q, nextRTO := n\<rparr>"
    by (cases err)
      (auto simp: driveSend_def d c'(1) Let_def recomputeNextRTO_def intro: exI [of _ "nextRTO c"])
  with c' that show ?thesis by blast
qed

lemma ackLoop_frame:
  "ackLoop nr ms c p = (p', q, c') \<Longrightarrow> \<exists>w k. c' = c\<lparr>cwnd := w\<rparr> \<and> q = drop k ms"
proof (induction nr ms c p rule: ackLoop.induct)
  case (1 nr c p)
  then show ?case by (intro exI [of _ "cwnd c"] exI [of _ 0]) simp
next
  case (2 nr m ms c p)
  show ?case
  proof (cases "attempts m \<noteq> 0 \<and> seqLess (mNs m) nr")
    case True
    with 2 obtain w k where "c' = (growCwndOnAck c)\<lparr>cwnd := w\<rparr>" "q = drop k ms" by auto
    then show ?thesis by (intro exI [of _ w] exI [of _ "Suc k"]) (simp add: growCwndOnAck_def Let_def)
  next
    case False
    with "2.prems" have "c' = c" "q = m # ms" by (auto split: if_splits)
    then show ?thesis by (intro exI [of _ "cwnd c"] exI [of _ 0]) simp
  qed
qed

lemma ackThrough_frame:
  obtains w z q n acts k where
    "ackThrough nr now c = c\<lparr>cwnd := w, zlbDeadline := z, ctrace := ctrace c @ acts, queue := q, nextRTO := n\<rparr>"
    "set acts \<subseteq> sends (cnr c) (drop k (queue c))" "map msg_core q = map msg_core (drop k (queue c))"
proof -
  obtain p q c' where a: "ackLoop nr (queue c) c False = (p, q, c')" by (metis prod_cases3)
  from ackLoop_frame [OF a] obtain w k where c': "c' = c\<lparr>cwnd := w\<rparr>" "q = drop k (queue c)" by blast
  show ?thesis
  proof (cases p)
    case True
    obtain z q' n acts where
        d: "snd (driveSend now (c'\<lparr>queue := q\<rparr>))
          = (c'\<lparr>queue := q\<rparr>)\<lparr>zlbDeadline := z, ctrace := ctrace (c'\<lparr>queue := q\<rparr>) @ acts, queue := q', nextRTO := n\<rparr>"
        "set acts \<subseteq> sends (cnr c) (drop k (queue c))" "map msg_core q' = map msg_core (drop k (queue c))"
      by (rule driveSend_frame [of now "c'\<lparr>queue := q\<rparr>"]) (simp add: c')
    have "ackThrough nr now c = c\<lparr>cwnd := w, zlbDeadline := z, ctrace := ctrace c @ acts, queue := q', nextRTO := n\<rparr>"
      using d(1) by (simp add: ackThrough_def a Let_def True c')
    from that [OF this d(2,3)] show ?thesis .
  next
    case False
    have "ackThrough nr now c = c\<lparr>cwnd := w, zlbDeadline := zlbDeadline c, ctrace := ctrace c @ [], queue := q,
        nextRTO := nextRTO c\<rparr>"
      by (simp add: ackThrough_def a Let_def False c')
    from that [OF this, of k] c'(2) show ?thesis by simp
  qed
qed

lemma Tick_frame:
  obtains w s z q n acts where
    "snd (chan_Tick now c) = c\<lparr>cwnd := w, ssthresh := s, zlbDeadline := z, ctrace := ctrace c @ acts, queue := q, nextRTO := n\<rparr>"
    "set acts \<subseteq> {CDead, CSend [] 0 (cns c) (cnr c)} \<union> sends (cnr c) (queue c)"
    "q = [] \<or> map msg_core q = map msg_core (queue c)"
    "w = cwnd c \<and> s = ssthresh c \<or> w = 1 \<and> 1 \<le> s"
proof -
  obtain died q c1 where t: "tickLoop now (queue c) c = (died, q, c1)" by (metis prod_cases3)
  from tickLoop_frame [OF t] obtain w s acts where
      c1: "c1 = c\<lparr>cwnd := w, ssthresh := s, ctrace := ctrace c @ acts\<rparr>"
      "set acts \<subseteq> insert CDead (sends (cnr c) (queue c))" "\<not> died \<longrightarrow> map msg_core q = map msg_core (queue c)"
      "w = cwnd c \<and> s = ssthresh c \<or> w = 1 \<and> 1 \<le> s"
    by blast
  show ?thesis
  proof (cases died)
    case True
    have "snd (chan_Tick now c) = c\<lparr>cwnd := w, ssthresh := s, zlbDeadline := zlbDeadline c,
        ctrace := ctrace c @ acts, queue := [], nextRTO := 0\<rparr>"
      by (simp add: chan_Tick_def t True c1(1))
    from that [OF this] c1(2,4) show ?thesis by auto
  next
    case False
    let ?r = "recomputeNextRTO (c1\<lparr>queue := q\<rparr>)"
    show ?thesis
    proof (cases "zlbDeadline ?r \<noteq> 0 \<and> \<not> now < zlbDeadline ?r")
      case True
      with \<open>\<not> died\<close> have "snd (chan_Tick now c) = c\<lparr>cwnd := w, ssthresh := s, zlbDeadline := 0,
          ctrace := ctrace c @ (acts @ [CSend [] 0 (cns c) (cnr c)]), queue := q, nextRTO := nextRTO ?r\<rparr>"
        by (simp add: chan_Tick_def t Let_def emitZLB_def callSend_def recomputeNextRTO_def c1(1))
      from that [OF this] c1(2-4) \<open>\<not> died\<close> show ?thesis by auto
    next
      case False
      with \<open>\<not> died\<close> have "snd (chan_Tick now c) = c\<lparr>cwnd := w, ssthresh := s, zlbDeadline := zlbDeadline c,
          ctrace := ctrace c @ acts, queue := q, nextRTO := nextRTO ?r\<rparr>"
        by (auto simp: chan_Tick_def t Let_def emitZLB_def recomputeNextRTO_def c1(1))
      from that [OF this] c1(2-4) \<open>\<not> died\<close> show ?thesis by auto
    qed
  qed
qed

lemma driveSend_sel [simp]:
  "cnr (snd (driveSend now c)) = cnr c" "cns (snd (driveSend now c)) = cns c" "cwnd (snd (driveSend now c)) = cwnd c"
  "peerWindow (snd (driveSend now c)) = peerWindow c" "ssthresh (snd (driveSend now c)) = ssthresh c"
  "maxRetries (snd (driveSend now c)) = maxRetries c" "hasDead (snd (driveSend now c)) = hasDead c"
  by (rule driveSend_frame [of now c]; simp)+

lemma SendSession_sel [simp]:
  "cnr (snd (SendSession body sid now c)) = cnr c" "cns (snd (SendSession body sid now c)) = cns c + 1"
  "cwnd (snd (SendSession body sid now c)) = cwnd c" "peerWindow (snd (SendSession body sid now c)) = peerWindow c"
  "ssthresh (snd (SendSession body sid now c)) = ssthresh c"
  "maxRetries (snd (SendSession body sid now c)) = maxRetries c" "hasDead (snd (SendSession body sid now c)) = hasDead c"
  by (simp_all add: SendSession_def Let_def)

lemma ackThrough_sel [simp]:
  "cnr (ackThrough nr now c) = cnr c" "cns (ackThrough nr now c) = cns c"
  "peerWindow (ackThrough nr now c) = peerWindow c" "ssthresh (ackThrough nr now c) = ssthresh c"
  "maxRetries (ackThrough nr now c) = maxRetries c" "hasDead (ackThrough nr now c) = hasDead c"
  "zlbDelay (ackThrough nr now c) = zlbDelay c"
  by (rule ackThrough_frame [of nr now c]; simp)+

lemma Tick_sel [simp]:
  "cnr (snd (chan_Tick now c)) = cnr c" "cns (snd (chan_Tick now c)) = cns c"
  "peerWindow (snd (chan_Tick now c)) = peerWindow c" "maxRetries (snd (chan_Tick now c)) = maxRetries c"
  "hasDead (snd (chan_Tick now c)) = hasDead c"
  by (rule Tick_frame [of now c]; simp)+

lemma Recv_sel:
  "cns (snd (chan_Recv ns nr now c)) = cns c" "fst (chan_Recv ns nr now c) \<longleftrightarrow> ns = cnr c"
  "cnr (snd (chan_Recv ns nr now c)) = (if ns = cnr c then cnr c + 1 else cnr c)"
  "peerWindow (snd (chan_Recv ns nr now c)) = peerWindow c"
  by (simp_all add: chan_Recv_def Let_def scheduleZLB_def)

end
