(* ===== verification/L2TP_Link.thy ===== *)
theory L2TP_Link
  imports L2TP_Channel "HOL-Library.Sublist"
begin

section \<open>Two channels over an unreliable network\<close>

text \<open>
  The sending side of one control channel and the receiving side of its peer. The network may lose, repeat and
  reorder what the sender transmitted, and the sender may be handed any sequence numbers as acknowledgement;
  both sides tick and send at will. What the receiver accepts is then a prefix of what the sender was asked to send.
\<close>

record link =
  tx :: ControlChannel
  rx :: ControlChannel
  submitted :: "bytes list"
  delivered :: "bytes list"

inductive link_step :: "link \<Rightarrow> link \<Rightarrow> bool" where
  submit: "body \<noteq> [] \<Longrightarrow>
    link_step L (L\<lparr>tx := snd (SendSession body sid now (tx L)), submitted := submitted L @ [body]\<rparr>)"
| tx_tick: "link_step L (L\<lparr>tx := snd (chan_Tick now (tx L))\<rparr>)"
| tx_recv: "link_step L (L\<lparr>tx := snd (chan_Recv ns nr now (tx L))\<rparr>)"
| deliver: "CSend body sid ns nr \<in> set (ctrace (tx L)) \<Longrightarrow> body \<noteq> [] \<Longrightarrow>
    chan_Recv ns nr now (rx L) = (accept, r) \<Longrightarrow>
    link_step L (L\<lparr>rx := r, delivered := delivered L @ (if accept then [body] else [])\<rparr>)"
| rx_send: "link_step L (L\<lparr>rx := snd (SendSession body sid now (rx L))\<rparr>)"
| rx_tick: "link_step L (L\<lparr>rx := snd (chan_Tick now (rx L))\<rparr>)"

inductive link_run :: "link \<Rightarrow> link \<Rightarrow> bool" where
  run_refl: "link_run L L"
| run_step: "link_run L L1 \<Longrightarrow> link_step L1 L2 \<Longrightarrow> link_run L L2"

definition new_link :: "ChanConfig \<Rightarrow> ChanConfig \<Rightarrow> (nat \<Rightarrow> bool) \<Rightarrow> (nat \<Rightarrow> bool) \<Rightarrow> link" where
  "new_link cfg cfg' f f' = \<lparr>tx = NewControlChannel cfg True f, rx = NewControlChannel cfg' True f',
     submitted = [], delivered = []\<rparr>"

subsection \<open>The sender only transmits what it was given\<close>

definition known :: "bytes list \<Rightarrow> bytes \<Rightarrow> u16 \<Rightarrow> bool" where
  "known sub b n \<longleftrightarrow> b = [] \<or> (\<exists>i < length sub. n = of_nat i \<and> b = sub ! i)"

fun act_known :: "bytes list \<Rightarrow> chan_act \<Rightarrow> bool" where
  "act_known sub (CSend b s n r) \<longleftrightarrow> known sub b n"
| "act_known sub CDead \<longleftrightarrow> True"

definition chan_knows :: "bytes list \<Rightarrow> ControlChannel \<Rightarrow> bool" where
  "chan_knows sub c \<longleftrightarrow> (\<forall>m \<in> set (queue c). known sub (mBody m) (mNs m)) \<and> (\<forall>a \<in> set (ctrace c). act_known sub a)"

lemma known_mono: "known sub b n \<Longrightarrow> known (sub @ sub') b n"
  unfolding known_def by (metis length_append nth_append trans_less_add1)

lemma chan_knows_mono: "chan_knows sub c \<Longrightarrow> chan_knows (sub @ sub') c"
proof -
  assume k: "chan_knows sub c"
  have "act_known sub a \<Longrightarrow> act_known (sub @ sub') a" for a
    by (cases a) (auto intro: known_mono)
  with k show ?thesis by (auto simp: chan_knows_def intro: known_mono)
qed

lemma known_core:
  assumes "map msg_core ms' = map msg_core ms" "\<forall>m \<in> set ms. known sub (mBody m) (mNs m)"
  shows "\<forall>m \<in> set ms'. known sub (mBody m) (mNs m)"
proof
  fix m assume "m \<in> set ms'"
  then have "msg_core m \<in> set (map msg_core ms)" unfolding assms(1) [symmetric] by simp
  then obtain m0 where "m0 \<in> set ms" "msg_core m = msg_core m0" by auto
  with assms(2) show "known sub (mBody m) (mNs m)" by (auto simp: msg_core_def)
qed

lemma sends_known:
  "\<forall>m \<in> set ms. known sub (mBody m) (mNs m) \<Longrightarrow> set acts \<subseteq> insert CDead (sends r ms) \<Longrightarrow> \<forall>a \<in> set acts. act_known sub a"
  by (fastforce simp: sends_def)

lemma driveSend_knows:
  assumes "chan_knows sub c"
  shows "chan_knows sub (snd (driveSend now c))"
proof -
  obtain z q n acts where d: "snd (driveSend now c) = c\<lparr>zlbDeadline := z, ctrace := ctrace c @ acts, queue := q, nextRTO := n\<rparr>"
      "set acts \<subseteq> sends (cnr c) (queue c)" "map msg_core q = map msg_core (queue c)"
    by (rule driveSend_frame)
  have "\<forall>a \<in> set acts. act_known sub a"
    using assms d(2) by (intro sends_known [of "queue c"]) (auto simp: chan_knows_def)
  moreover have "\<forall>m \<in> set q. known sub (mBody m) (mNs m)"
    using assms by (intro known_core [OF d(3)]) (simp add: chan_knows_def)
  ultimately show ?thesis
    using assms by (auto simp: d(1) chan_knows_def)
qed

lemma ackThrough_knows:
  assumes "chan_knows sub c"
  shows "chan_knows sub (ackThrough nr now c)"
proof -
  obtain w z q n acts k where
      a: "ackThrough nr now c = c\<lparr>cwnd := w, zlbDeadline := z, ctrace := ctrace c @ acts, queue := q, nextRTO := n\<rparr>"
      "set acts \<subseteq> sends (cnr c) (drop k (queue c))" "map msg_core q = map msg_core (drop k (queue c))"
    by (rule ackThrough_frame)
  have k: "\<forall>m \<in> set (drop k (queue c)). known sub (mBody m) (mNs m)"
    using assms by (auto simp: chan_knows_def dest: in_set_dropD)
  then have "\<forall>a \<in> set acts. act_known sub a"
    using a(2) by (intro sends_known [of "drop k (queue c)"]) auto
  with known_core [OF a(3) k] assms show ?thesis
    by (auto simp: a(1) chan_knows_def)
qed

lemma SendSession_knows:
  assumes "chan_knows sub c" "cns c = of_nat (length sub)"
  shows "chan_knows (sub @ [body]) (snd (SendSession body sid now c))"
proof -
  let ?m = "\<lparr>mBody = body, mSession = sid, mNs = cns c, attempts = 0, deadline = 0\<rparr>"
  have "known (sub @ [body]) body (cns c)"
    using assms(2) by (auto simp: known_def)
  then have "chan_knows (sub @ [body]) (c\<lparr>cns := cns c + 1, queue := queue c @ [?m]\<rparr>)"
    using chan_knows_mono [OF assms(1), of "[body]"] by (auto simp: chan_knows_def)
  from driveSend_knows [OF this, of now] show ?thesis
    by (simp add: SendSession_def Let_def)
qed

lemma Recv_knows:
  assumes "chan_knows sub c"
  shows "chan_knows sub (snd (chan_Recv ns nr now c))"
  using ackThrough_knows [OF assms, of nr now]
  by (auto simp: chan_Recv_def Let_def scheduleZLB_def chan_knows_def)

lemma Tick_knows:
  assumes "chan_knows sub c"
  shows "chan_knows sub (snd (chan_Tick now c))"
proof -
  obtain w s z q n acts where
      t: "snd (chan_Tick now c) = c\<lparr>cwnd := w, ssthresh := s, zlbDeadline := z, ctrace := ctrace c @ acts, queue := q, nextRTO := n\<rparr>"
      "set acts \<subseteq> {CDead, CSend [] 0 (cns c) (cnr c)} \<union> sends (cnr c) (queue c)"
      "q = [] \<or> map msg_core q = map msg_core (queue c)"
    by (rule Tick_frame)
  have k: "\<forall>m \<in> set (queue c). known sub (mBody m) (mNs m)"
    using assms by (simp add: chan_knows_def)
  then have "act_known sub a" if "a \<in> sends (cnr c) (queue c)" for a
    using that by (auto simp: sends_def)
  then have "\<forall>a \<in> set acts. act_known sub a"
    using t(2) by (auto simp: known_def)
  with t(3) known_core [OF _ k, of q] assms show ?thesis
    by (auto simp: t(1) chan_knows_def)
qed

subsection \<open>In-order, exactly-once delivery\<close>

definition link_inv :: "link \<Rightarrow> bool" where
  "link_inv L \<longleftrightarrow> chan_knows (submitted L) (tx L) \<and> cns (tx L) = of_nat (length (submitted L))
     \<and> cnr (rx L) = of_nat (length (delivered L)) \<and> prefix (delivered L) (submitted L)"

lemma next_delivered:
  assumes "known sub body (of_nat (length del))" "body \<noteq> []" "prefix del sub" "length sub < 65536"
  shows "prefix (del @ [body]) sub"
proof -
  from assms(1,2) obtain i where i: "i < length sub" "of_nat (length del) = (of_nat i :: u16)" "body = sub ! i"
    by (auto simp: known_def)
  from assms(3) obtain zs where sub: "sub = del @ zs" by (rule prefixE)
  have u: "unat (of_nat (length del) :: u16) = length del" "unat (of_nat i :: u16) = i"
    using i(1) assms(4) sub by (simp_all add: unat_of_nat_u16)
  have "i = length del"
    using arg_cong [OF i(2), of unat] unfolding u by (rule sym)
  with i(1,3) sub show ?thesis by (cases zs) simp_all
qed

lemma link_step_inv:
  assumes "link_step L L'" "link_inv L" "length (submitted L') < 65536"
  shows "link_inv L'"
  using assms(1)
proof cases
  case (submit body sid now)
  with assms(2) show ?thesis
    by (auto simp: link_inv_def SendSession_knows intro: prefix_order.trans)
next
  case (deliver body sid ns nr now accept r)
  have k: "known (submitted L) body ns"
    using deliver(2,3) assms(2) unfolding link_inv_def chan_knows_def by fastforce
  have r: "r = snd (chan_Recv ns nr now (rx L))" "accept \<longleftrightarrow> ns = cnr (rx L)"
    using deliver(4) Recv_sel(2) [of ns nr now "rx L"] by simp_all
  show ?thesis
  proof (cases accept)
    case True
    then have "prefix (delivered L @ [body]) (submitted L)"
      using k r(2) deliver assms(2,3) by (intro next_delivered) (simp_all add: link_inv_def)
    with True deliver assms(2) r show ?thesis by (simp add: link_inv_def Recv_sel)
  next
    case False
    then have "cnr r = cnr (rx L)"
      using r by (simp add: Recv_sel(3))
    with False deliver(1) assms(2) show ?thesis by (simp add: link_inv_def)
  qed
qed (use assms(2) in \<open>auto simp: link_inv_def Tick_knows Recv_knows Recv_sel\<close>)

lemma link_step_submitted: "link_step L L' \<Longrightarrow> length (submitted L) \<le> length (submitted L')"
  by (induction rule: link_step.induct) simp_all

lemma new_link_inv: "link_inv (new_link cfg cfg' f f')"
  by (simp add: link_inv_def new_link_def NewControlChannel_def chan_knows_def Let_def)

lemma link_run_inv:
  "link_run L L' \<Longrightarrow> link_inv L \<Longrightarrow> length (submitted L') < 65536 \<Longrightarrow> link_inv L'"
proof (induction rule: link_run.induct)
  case (run_step L L1 L2)
  then show ?case
    using link_step_submitted [OF run_step.hyps(2)] link_step_inv [OF run_step.hyps(2)] by simp
qed simp

end
