(* ===== verification/L2TP_Window.thy ===== *)
theory L2TP_Window
  imports L2TP_Channel
begin

section \<open>The send window and the retransmission timer\<close>

text \<open>
  The invariant of a control channel over any run of \<^verbatim>\<open>Send\<close>, \<^verbatim>\<open>Recv\<close> and \<^verbatim>\<open>Tick\<close>: the queue holds
  consecutive sequence numbers, the messages in flight come first, and no more of them than the peer's window
  are in flight. What an acknowledgement removes, and what a peer that never acknowledges leads to.
\<close>

fun seq_from :: "u16 \<Rightarrow> pendingMsg list \<Rightarrow> bool" where
  "seq_from n [] \<longleftrightarrow> True"
| "seq_from n (m # ms) \<longleftrightarrow> mNs m = n \<and> seq_from (n + 1) ms"

fun flight_ok :: "pendingMsg list \<Rightarrow> bool" where
  "flight_ok [] \<longleftrightarrow> True"
| "flight_ok (m # ms) \<longleftrightarrow> (if attempts m > 0 then flight_ok ms else \<forall>x \<in> set (m # ms). attempts x = 0)"

definition chan_inv :: "ControlChannel \<Rightarrow> bool" where
  "chan_inv c \<longleftrightarrow> seq_from (cns c - of_nat (length (queue c))) (queue c) \<and> flight_ok (queue c)
     \<and> countInflight (queue c) \<le> peerWindow c \<and> 1 \<le> cwnd c \<and> cwnd c \<le> peerWindow c"

inductive chan_step :: "ControlChannel \<Rightarrow> ControlChannel \<Rightarrow> bool" where
  step_send: "chan_step c (snd (SendSession body sid now c))"
| step_recv: "chan_step c (snd (chan_Recv ns nr now c))"
| step_tick: "chan_step c (snd (chan_Tick now c))"

inductive chan_reach :: "ControlChannel \<Rightarrow> ControlChannel \<Rightarrow> bool" where
  creach_refl: "chan_reach c c"
| creach_step: "chan_reach c c1 \<Longrightarrow> chan_step c1 c2 \<Longrightarrow> chan_reach c c2"

subsection \<open>Sequence numbers\<close>

fun core_seq :: "u16 \<Rightarrow> (bytes \<times> u16 \<times> u16) list \<Rightarrow> bool" where
  "core_seq n [] \<longleftrightarrow> True"
| "core_seq n ((b, s, k) # xs) \<longleftrightarrow> k = n \<and> core_seq (n + 1) xs"

lemma seq_from_map: "seq_from n ms = core_seq n (map msg_core ms)"
  by (induction ms arbitrary: n) (simp_all add: msg_core_def)

lemma seq_from_core: "map msg_core ms' = map msg_core ms \<Longrightarrow> seq_from n ms' = seq_from n ms"
  unfolding seq_from_map by (rule arg_cong)

lemma seq_from_append: "seq_from n (ms @ ms') \<longleftrightarrow> seq_from n ms \<and> seq_from (n + of_nat (length ms)) ms'"
  by (induction ms arbitrary: n) (simp_all add: algebra_simps)

lemma seq_from_drop: "seq_from n ms \<Longrightarrow> seq_from (n + of_nat (length ms) - of_nat (length (drop k ms))) (drop k ms)"
proof -
  assume s: "seq_from n ms"
  have "n + of_nat (length ms) - of_nat (length (drop k ms)) = n + of_nat (length (take k ms))"
    by (cases "k \<le> length ms") (simp_all add: of_nat_diff)
  then show ?thesis
    using s seq_from_append [of n "take k ms" "drop k ms"] by (metis append_take_drop_id)
qed

lemma flight_ok_zero: "\<forall>x \<in> set ms. attempts x = 0 \<Longrightarrow> flight_ok ms"
  by (cases ms) auto

lemma flight_ok_append_new: "flight_ok ms \<Longrightarrow> attempts m = 0 \<Longrightarrow> flight_ok (ms @ [m])"
  by (induction ms) auto

lemma flight_ok_drop: "flight_ok ms \<Longrightarrow> flight_ok (drop k ms)"
proof (induction ms arbitrary: k)
  case (Cons m ms)
  then show ?case
    by (cases k) (auto split: if_splits intro: flight_ok_zero dest: in_set_dropD)
qed simp

lemma countInflight_simps [simp]:
  "countInflight [] = 0" "countInflight (m # ms) = (if attempts m > 0 then 1 else 0) + countInflight ms"
  "countInflight (ms @ ms') = countInflight ms + countInflight ms'"
  by (simp_all add: countInflight_def)

lemma countInflight_nonneg [simp]: "0 \<le> countInflight ms"
  by (simp add: countInflight_def)

lemma countInflight_drop: "countInflight (drop k ms) \<le> countInflight ms"
  using countInflight_simps(3) [of "take k ms" "drop k ms"] countInflight_nonneg [of "take k ms"] by simp

lemma countInflight_zero: "\<forall>x \<in> set ms. attempts x = 0 \<Longrightarrow> countInflight ms = 0"
  by (induction ms) auto

lemma driveLoop_flight:
  "driveLoop now k ms c = (err, ms', c') \<Longrightarrow> flight_ok ms \<Longrightarrow>
     flight_ok ms' \<and> countInflight ms' - countInflight ms \<le> max 0 (cwnd c - k)"
proof (induction now k ms c arbitrary: err ms' c' rule: driveLoop.induct)
  case (2 now k m ms c)
  show ?case
  proof (cases "attempts m > 0")
    case True
    with "2.prems" obtain ms1 where r: "driveLoop now k ms c = (err, ms1, c')" "ms' = m # ms1"
      by (auto split: prod.splits)
    from "2.IH"(1) [OF True r(1)] r(2) True "2.prems"(2) show ?thesis by simp
  next
    case False
    then have zero: "\<forall>x \<in> set ms. attempts x = 0" "flight_ok ms" "countInflight (m # ms) = 0"
      using "2.prems"(2) by (auto intro: flight_ok_zero simp: countInflight_zero)
    show ?thesis
    proof (cases "k \<ge> cwnd c")
      case True
      with False "2.prems" show ?thesis by auto
    next
      case go: False
      obtain b c1 where cs: "callSend (mBody m) (mSession m) (mNs m) c = (b, c1)" by fastforce
      have c1: "cwnd c1 = cwnd c" using cs by (auto simp: callSend_def)
      show ?thesis
      proof (cases b)
        case True
        with False go cs "2.prems"(1) have "ms' = m\<lparr>attempts := 1, deadline := now + rtoInitial c\<rparr> # ms" by auto
        with zero go show ?thesis by (simp add: countInflight_zero)
      next
        case ok: False
        with False go cs "2.prems" obtain ms1 where
            r: "driveLoop now (k + 1) ms (c1\<lparr>zlbDeadline := 0\<rparr>) = (err, ms1, c')"
            "ms' = m\<lparr>attempts := 1, deadline := now + rtoInitial c\<rparr> # ms1"
          by (auto split: prod.splits)
        from "2.IH"(2) [OF False go refl cs [symmetric] ok r(1) zero(2)] go zero show ?thesis
          unfolding r(2) by (simp add: c1 countInflight_zero)
      qed
    qed
  qed
qed simp

lemma driveSend_flight:
  assumes "flight_ok (queue c)"
  shows "flight_ok (queue (snd (driveSend now c)))"
    "countInflight (queue (snd (driveSend now c))) \<le> max (countInflight (queue c)) (cwnd c)"
proof -
  obtain err q c' where d: "driveLoop now (countInflight (queue c)) (queue c) c = (err, q, c')"
    by (metis prod_cases3)
  have "queue (snd (driveSend now c)) = q"
    by (simp add: driveSend_def d Let_def recomputeNextRTO_def)
  with driveLoop_flight [OF d assms] show "flight_ok (queue (snd (driveSend now c)))"
    "countInflight (queue (snd (driveSend now c))) \<le> max (countInflight (queue c)) (cwnd c)"
    by auto
qed

lemma tickLoop_idle: "\<forall>x \<in> set ms. attempts x = 0 \<or> now < deadline x \<Longrightarrow> tickLoop now ms c = (False, ms, c)"
  by (induction ms) auto

lemma tickLoop_flight:
  "tickLoop now ms c = (died, ms', c') \<Longrightarrow> \<not> died \<Longrightarrow> flight_ok ms \<Longrightarrow>
     flight_ok ms' \<and> countInflight ms' = countInflight ms"
proof (induction now ms c arbitrary: died ms' c' rule: tickLoop.induct)
  case (2 now m ms c)
  let ?n = "attempts m + 1"
  let ?c1 = "c\<lparr>ssthresh := (if cwnd c div 2 < 1 then 1 else cwnd c div 2), cwnd := 1\<rparr>"
  show ?case
  proof (cases "attempts m = 0 \<or> now < deadline m")
    case True
    with "2.prems" obtain ms1 where r: "tickLoop now ms c = (died, ms1, c')" "ms' = m # ms1"
      by (auto split: prod.splits)
    show ?thesis
    proof (cases "attempts m > 0")
      case True
      then show ?thesis using "2.IH"(1) [OF _ r(1) "2.prems"(2)] \<open>attempts m = 0 \<or> now < deadline m\<close> "2.prems"(3) r(2) by simp
    next
      case False
      then have z: "\<forall>x \<in> set (m # ms). attempts x = 0" using "2.prems"(3) by (auto split: if_splits)
      then have "tickLoop now ms c = (False, ms, c)" by (intro tickLoop_idle) auto
      with r z False "2.prems"(3) show ?thesis by auto
    qed
  next
    case False
    then have go: "\<not> ?n > maxRetries c" using "2.prems" by auto
    have pos: "attempts m > 0" using False "2.prems"(3) by (auto split: if_splits)
    define c2 where "c2 = snd (callSend (mBody m) (mSession m) (mNs m) ?c1)"
    from False go "2.prems"(1) obtain ms1 where
        r: "tickLoop now ms c2 = (died, ms1, c')" "ms' = m\<lparr>attempts := ?n, deadline := now + backoff c ?n\<rparr> # ms1"
      by (auto simp: Let_def c2_def split: prod.splits)
    have "flight_ok ms1 \<and> countInflight ms1 = countInflight ms"
      by (rule "2.IH"(2) [OF False refl go refl refl refl, folded c2_def, OF refl r(1) "2.prems"(2)])
        (use pos "2.prems"(3) in simp)
    with pos r(2) show ?thesis by simp
  qed
qed simp

subsection \<open>The invariant holds over every run\<close>

lemma driveSend_inv:
  assumes "chan_inv c"
  shows "chan_inv (snd (driveSend now c))"
proof -
  obtain z q n acts where d: "snd (driveSend now c) = c\<lparr>zlbDeadline := z, ctrace := ctrace c @ acts, queue := q, nextRTO := n\<rparr>"
      "map msg_core q = map msg_core (queue c)"
    by (rule driveSend_frame)
  have "length q = length (queue c)"
    using arg_cong [OF d(2), of length] by simp
  moreover have "flight_ok q" "countInflight q \<le> max (countInflight (queue c)) (cwnd c)"
    using driveSend_flight [of c now] assms by (simp_all add: d(1) chan_inv_def)
  ultimately show ?thesis
    using assms seq_from_core [OF d(2)] by (auto simp: chan_inv_def d(1) le_max_iff_disj)
qed

lemma SendSession_inv:
  assumes "chan_inv c"
  shows "chan_inv (snd (SendSession body sid now c))"
proof -
  let ?m = "\<lparr>mBody = body, mSession = sid, mNs = cns c, attempts = 0, deadline = 0\<rparr>"
  have "chan_inv (c\<lparr>cns := cns c + 1, queue := queue c @ [?m]\<rparr>)"
    using assms by (simp add: chan_inv_def seq_from_append flight_ok_append_new)
  then show ?thesis
    unfolding SendSession_def Let_def by (rule driveSend_inv)
qed

lemma ackLoop_cwnd:
  "ackLoop nr ms c p = (p', q, c') \<Longrightarrow> 1 \<le> cwnd c \<Longrightarrow> cwnd c \<le> peerWindow c \<Longrightarrow>
     1 \<le> cwnd c' \<and> cwnd c' \<le> peerWindow c"
proof (induction nr ms c p rule: ackLoop.induct)
  case (2 nr m ms c p)
  have g: "1 \<le> cwnd (growCwndOnAck c)" "cwnd (growCwndOnAck c) \<le> peerWindow (growCwndOnAck c)"
      "peerWindow (growCwndOnAck c) = peerWindow c"
    using "2.prems" by (simp_all add: growCwndOnAck_def)
  with 2 show ?case
    by (cases "attempts m \<noteq> 0 \<and> seqLess (mNs m) nr") (auto split: if_splits)
qed simp

lemma ackThrough_inv:
  assumes "chan_inv c"
  shows "chan_inv (ackThrough nr now c)"
proof -
  obtain p q c' where a: "ackLoop nr (queue c) c False = (p, q, c')" by (metis prod_cases3)
  from ackLoop_frame [OF a] obtain w k where c': "c' = c\<lparr>cwnd := w\<rparr>" "q = drop k (queue c)" by blast
  have "1 \<le> w \<and> w \<le> peerWindow c"
    using ackLoop_cwnd [OF a] assms by (simp add: chan_inv_def c')
  moreover have "countInflight q \<le> peerWindow c"
    using countInflight_drop [of k "queue c"] assms by (simp add: chan_inv_def c')
  moreover have "seq_from (cns c - of_nat (length q)) q"
    using assms seq_from_drop [of "cns c - of_nat (length (queue c))" "queue c" k]
    unfolding chan_inv_def c'(2) by simp
  ultimately have "chan_inv (c'\<lparr>queue := q\<rparr>)"
    using assms by (simp add: chan_inv_def c'(1)) (simp add: c'(2) flight_ok_drop)
  then show ?thesis
    by (simp add: ackThrough_def a Let_def driveSend_inv)
qed

lemma Recv_inv: "chan_inv c \<Longrightarrow> chan_inv (snd (chan_Recv ns nr now c))"
  using ackThrough_inv [of c nr now] by (simp add: chan_Recv_def Let_def scheduleZLB_def chan_inv_def)

lemma Tick_queue_eq:
  "queue (snd (chan_Tick now c)) = (case tickLoop now (queue c) c of (died, q, c1) \<Rightarrow> if died then [] else q)"
  by (simp add: chan_Tick_def Let_def emitZLB_def callSend_def recomputeNextRTO_def split: prod.split)

lemma Tick_inv:
  assumes "chan_inv c"
  shows "chan_inv (snd (chan_Tick now c))"
proof -
  obtain w s z q n acts where
      t: "snd (chan_Tick now c) = c\<lparr>cwnd := w, ssthresh := s, zlbDeadline := z, ctrace := ctrace c @ acts, queue := q, nextRTO := n\<rparr>"
      "q = [] \<or> map msg_core q = map msg_core (queue c)" "w = cwnd c \<and> s = ssthresh c \<or> w = 1 \<and> 1 \<le> s"
    by (rule Tick_frame)
  have w: "1 \<le> w" "w \<le> peerWindow c" "0 \<le> peerWindow c"
    using assms t(3) by (auto simp: chan_inv_def)
  show ?thesis
  proof (cases "q = []")
    case True
    with w show ?thesis by (simp add: chan_inv_def t(1))
  next
    case False
    then have core: "map msg_core q = map msg_core (queue c)" using t(2) by blast
    have q: "queue (snd (chan_Tick now c)) = q" by (simp add: t(1))
    obtain c1 where "tickLoop now (queue c) c = (False, q, c1)"
      using q False Tick_queue_eq [of now c] by (auto split: prod.splits if_splits)
    then have "flight_ok q \<and> countInflight q = countInflight (queue c)"
      by (rule tickLoop_flight) (use assms in \<open>simp_all add: chan_inv_def\<close>)
    moreover have "length q = length (queue c)"
      using arg_cong [OF core, of length] by simp
    ultimately show ?thesis
      using assms w seq_from_core [OF core] by (simp add: chan_inv_def t(1))
  qed
qed

lemma new_channel_inv:
  assumes "0 \<le> PeerRWS cfg"
  shows "chan_inv (NewControlChannel cfg dead fails)"
  using assms by (simp add: chan_inv_def NewControlChannel_def Let_def)

lemma chan_reach_inv: "chan_reach c c' \<Longrightarrow> chan_inv c \<Longrightarrow> chan_inv c'"
  by (induction rule: chan_reach.induct) (auto elim!: chan_step.cases intro: SendSession_inv Recv_inv Tick_inv)

subsection \<open>What an acknowledgement removes\<close>

lemma bit15_iff: "(w :: u16) AND 0x8000 \<noteq> 0 \<longleftrightarrow> 32768 \<le> unat w"
proof -
  have "w AND 0x8000 \<noteq> 0 \<longleftrightarrow> bit w 15"
    using and_exp_eq_0_iff_not_bit [of w 15] by simp
  also have "\<dots> \<longleftrightarrow> odd (unat w div 2 ^ 15)"
    unfolding bit_iff_odd [of "unat w", symmetric] by (simp add: bit_simps)
  also have "\<dots> \<longleftrightarrow> 32768 \<le> unat w"
  proof -
    have "unat w div 32768 < 2" using unat_u16_less [of w] by linarith
    then show ?thesis by (cases "32768 \<le> unat w") (auto simp: less_2_cases_iff div_eq_0_iff)
  qed
  finally show ?thesis .
qed

lemma seqLess_ahead:
  assumes "j \<le> 32768"
  shows "seqLess n (n + of_nat j) \<longleftrightarrow> 0 < j"
proof (cases "j = 0")
  case False
  have "(of_nat (65536 - j) :: u16) = of_nat 65536 - of_nat j"
    using assms by (intro of_nat_diff) simp
  then have "(- of_nat j :: u16) = of_nat (65536 - j)" by simp
  then have "unat (- of_nat j :: u16) = 65536 - j"
    using False by (simp only:) (rule unat_of_nat_u16, simp)
  with False assms show ?thesis by (simp add: seqLess_def bit15_iff)
qed (simp add: seqLess_def)

lemma ackLoop_exact:
  "seq_from n ms \<Longrightarrow> flight_ok ms \<Longrightarrow> int j \<le> countInflight ms \<Longrightarrow> j \<le> 32768 \<Longrightarrow>
   \<exists>c'. ackLoop (n + of_nat j) ms c p = (p \<or> 0 < j, drop j ms, c')"
proof (induction ms arbitrary: n j c p)
  case (Cons m ms)
  show ?case
  proof (cases j)
    case 0
    then show ?thesis using Cons.prems seqLess_ahead [of 0 n] by simp
  next
    case (Suc i)
    then have pos: "attempts m > 0"
      using Cons.prems(2,3) by (cases "attempts m > 0") (auto simp: countInflight_zero)
    have n: "n + of_nat j = (n + 1) + of_nat i" by (simp add: Suc)
    have "\<exists>c'. ackLoop (n + of_nat j) ms (growCwndOnAck c) True = (True, drop i ms, c')"
      unfolding n using Cons.IH [of "n + 1" i "growCwndOnAck c" True] Cons.prems pos Suc by simp
    moreover have "seqLess n (n + of_nat j)"
      using seqLess_ahead [OF Cons.prems(4)] Suc by simp
    ultimately show ?thesis using Cons.prems pos Suc by simp
  qed
qed simp

lemma ackThrough_removes:
  assumes "chan_inv c" "int j \<le> countInflight (queue c)" "j \<le> 32768"
  shows "map msg_core (queue (ackThrough (cns c - of_nat (length (queue c)) + of_nat j) now c))
    = map msg_core (drop j (queue c))"
proof -
  let ?n = "cns c - of_nat (length (queue c))"
  from ackLoop_exact [of ?n "queue c" j c False] assms obtain c' where
      a: "ackLoop (?n + of_nat j) (queue c) c False = (0 < j, drop j (queue c), c')"
    by (auto simp: chan_inv_def)
  obtain z q n acts where d: "snd (driveSend now (c'\<lparr>queue := drop j (queue c)\<rparr>))
      = (c'\<lparr>queue := drop j (queue c)\<rparr>)\<lparr>zlbDeadline := z, ctrace := ctrace (c'\<lparr>queue := drop j (queue c)\<rparr>) @ acts, queue := q, nextRTO := n\<rparr>"
      "map msg_core q = map msg_core (queue (c'\<lparr>queue := drop j (queue c)\<rparr>))"
    by (rule driveSend_frame)
  then show ?thesis
    by (simp add: ackThrough_def a Let_def)
qed
subsection \<open>A peer that never acknowledges\<close>

text \<open>Ticks that come when the oldest message is due or later, until the queue is empty.\<close>

fun lateTicks :: "int list \<Rightarrow> ControlChannel \<Rightarrow> ControlChannel" where
  "lateTicks [] c = c"
| "lateTicks (d # ds) c = (case queue c of [] \<Rightarrow> c
     | m # _ \<Rightarrow> lateTicks ds (snd (chan_Tick (deadline m + d) c)))"

lemma tickLoop_died: "tickLoop now ms c = (True, q, c') \<Longrightarrow> hasDead c \<Longrightarrow> CDead \<in> set (ctrace c')"
proof (induction now ms c arbitrary: q c' rule: tickLoop.induct)
  case (2 now m ms c)
  let ?n = "attempts m + 1"
  let ?c1 = "c\<lparr>ssthresh := (if cwnd c div 2 < 1 then 1 else cwnd c div 2), cwnd := 1\<rparr>"
  show ?case
  proof (cases "attempts m = 0 \<or> now < deadline m")
    case True
    with "2.prems" "2.IH"(1) [OF True] show ?thesis by (auto split: prod.splits)
  next
    case False
    show ?thesis
    proof (cases "?n > maxRetries c")
      case True
      with False "2.prems" show ?thesis by auto
    next
      case go: False
      define c2 where "c2 = snd (callSend (mBody m) (mSession m) (mNs m) ?c1)"
      from False go "2.prems"(1) obtain ms1 where r: "tickLoop now ms c2 = (True, ms1, c')"
        by (auto simp: Let_def c2_def split: prod.splits)
      have "hasDead c2" using "2.prems"(2) by (simp add: c2_def callSend_def)
      from "2.IH"(2) [OF False refl go refl refl refl, folded c2_def, OF refl r this] show ?thesis .
    qed
  qed
qed simp

lemma Tick_died:
  assumes "queue c \<noteq> []" "queue (snd (chan_Tick now c)) = []" "hasDead c"
  shows "CDead \<in> set (ctrace (snd (chan_Tick now c)))"
proof -
  obtain died q c1 where t: "tickLoop now (queue c) c = (died, q, c1)" by (metis prod_cases3)
  show ?thesis
  proof (cases died)
    case True
    with tickLoop_died [of now "queue c" c q c1] t assms(3) show ?thesis by (simp add: chan_Tick_def)
  next
    case False
    with tickLoop_frame [OF t] have "map msg_core q = map msg_core (queue c)" by blast
    then have "q \<noteq> []" using assms(1) by auto
    moreover have "queue (snd (chan_Tick now c)) = q" using t False by (simp add: Tick_queue_eq)
    ultimately show ?thesis using assms(2) by simp
  qed
qed

lemma Tick_head:
  assumes "queue c = m # ms" "attempts m \<noteq> 0" "deadline m \<le> now"
  shows "queue (snd (chan_Tick now c)) = [] \<or>
    (\<exists>m' ms'. queue (snd (chan_Tick now c)) = m' # ms' \<and> attempts m' = attempts m + 1 \<and> attempts m + 1 \<le> maxRetries c)"
  using assms by (auto simp: Tick_queue_eq Let_def split: prod.split)

lemma lateTicks_dead:
  "queue c = m # ms \<Longrightarrow> 1 \<le> attempts m \<Longrightarrow> hasDead c \<Longrightarrow> \<forall>d \<in> set ds. 0 \<le> d \<Longrightarrow>
   maxRetries c - attempts m < int (length ds) \<Longrightarrow> attempts m \<le> maxRetries c \<Longrightarrow>
   CDead \<in> set (ctrace (lateTicks ds c)) \<and> queue (lateTicks ds c) = []"
proof (induction ds arbitrary: c m ms)
  case (Cons d ds)
  let ?c = "snd (chan_Tick (deadline m + d) c)"
  from Tick_head [of c m ms "deadline m + d"] Cons.prems
  consider "queue ?c = []" | m' ms' where "queue ?c = m' # ms'" "attempts m' = attempts m + 1" "attempts m + 1 \<le> maxRetries c"
    by auto
  then show ?case
  proof cases
    case 1
    then have "CDead \<in> set (ctrace ?c)" using Cons.prems by (intro Tick_died) simp_all
    with 1 Cons.prems show ?thesis by (cases ds) simp_all
  next
    case 2
    with Cons.prems show ?thesis using Cons.IH [of ?c m' ms'] by simp
  qed
qed simp

end
