(* ===== verification/L2TP_State.thy ===== *)
theory L2TP_State
  imports BNG_Prelude
begin

section \<open>Tunnel and session state, identifiers\<close>

text \<open>
  \<^verbatim>\<open>pkg/l2tp/fsm_tunnel.go\<close> and \<^verbatim>\<open>fsm_session.go\<close>, the two control-plane state machines, and
  \<^verbatim>\<open>internal/l2tp/id_allocator.go\<close>, which hands out the 16-bit tunnel identifiers.
\<close>

subsection \<open>State machines\<close>

datatype fsm_error = ErrBadTunnelTransition | ErrBadSessionTransition

datatype TunnelState = TunnelIdle | TunnelWaitCtlReply | TunnelWaitCtlConn | TunnelEstablished | TunnelCleanup
datatype TunnelRole = RoleInitiator | RoleResponder

record TunnelFSM =
  tState :: TunnelState
  tRole :: TunnelRole

definition NewTunnelFSM :: "TunnelRole \<Rightarrow> TunnelFSM" where
  "NewTunnelFSM r = \<lparr>tState = TunnelIdle, tRole = r\<rparr>"

definition SendSCCRQ :: "TunnelFSM \<Rightarrow> fsm_error + TunnelFSM" where
  "SendSCCRQ f = (if tState f \<noteq> TunnelIdle \<or> tRole f \<noteq> RoleInitiator then Inl ErrBadTunnelTransition
     else Inr (f\<lparr>tState := TunnelWaitCtlReply\<rparr>))"

definition RecvSCCRQ :: "TunnelFSM \<Rightarrow> fsm_error + TunnelFSM" where
  "RecvSCCRQ f = (if tState f \<noteq> TunnelIdle \<or> tRole f \<noteq> RoleResponder then Inl ErrBadTunnelTransition
     else Inr (f\<lparr>tState := TunnelWaitCtlConn\<rparr>))"

definition RecvSCCRP :: "TunnelFSM \<Rightarrow> fsm_error + TunnelFSM" where
  "RecvSCCRP f = (if tState f \<noteq> TunnelWaitCtlReply then Inl ErrBadTunnelTransition
     else Inr (f\<lparr>tState := TunnelEstablished\<rparr>))"

definition RecvSCCCN :: "TunnelFSM \<Rightarrow> fsm_error + TunnelFSM" where
  "RecvSCCCN f = (if tState f \<noteq> TunnelWaitCtlConn then Inl ErrBadTunnelTransition
     else Inr (f\<lparr>tState := TunnelEstablished\<rparr>))"

definition tunnel_Stop :: "TunnelFSM \<Rightarrow> TunnelFSM" where
  "tunnel_Stop f = f\<lparr>tState := TunnelCleanup\<rparr>"

definition CanForwardSession :: "TunnelFSM \<Rightarrow> bool" where
  "CanForwardSession f \<longleftrightarrow> tState f = TunnelEstablished"

datatype SessionState = SessionIdle | SessionWaitReply | SessionEstablished | SessionCleanup
datatype SessionRole = SessionRoleLAC | SessionRoleLNS

record SessionFSM =
  sState :: SessionState
  sRole :: SessionRole

definition NewSessionFSM :: "SessionRole \<Rightarrow> SessionFSM" where
  "NewSessionFSM r = \<lparr>sState = SessionIdle, sRole = r\<rparr>"

definition SendICRQ :: "SessionFSM \<Rightarrow> fsm_error + SessionFSM" where
  "SendICRQ f = (if sState f \<noteq> SessionIdle \<or> sRole f \<noteq> SessionRoleLAC then Inl ErrBadSessionTransition
     else Inr (f\<lparr>sState := SessionWaitReply\<rparr>))"

definition RecvICRQ :: "SessionFSM \<Rightarrow> fsm_error + SessionFSM" where
  "RecvICRQ f = (if sState f \<noteq> SessionIdle \<or> sRole f \<noteq> SessionRoleLNS then Inl ErrBadSessionTransition
     else Inr (f\<lparr>sState := SessionWaitReply\<rparr>))"

definition RecvICRP :: "SessionFSM \<Rightarrow> fsm_error + SessionFSM" where
  "RecvICRP f = (if sState f \<noteq> SessionWaitReply \<or> sRole f \<noteq> SessionRoleLAC then Inl ErrBadSessionTransition
     else Inr (f\<lparr>sState := SessionEstablished\<rparr>))"

definition RecvICCN :: "SessionFSM \<Rightarrow> fsm_error + SessionFSM" where
  "RecvICCN f = (if sState f \<noteq> SessionWaitReply \<or> sRole f \<noteq> SessionRoleLNS then Inl ErrBadSessionTransition
     else Inr (f\<lparr>sState := SessionEstablished\<rparr>))"

definition session_Disconnect :: "SessionFSM \<Rightarrow> SessionFSM" where
  "session_Disconnect f = f\<lparr>sState := SessionCleanup\<rparr>"

definition CanForwardData :: "SessionFSM \<Rightarrow> bool" where
  "CanForwardData f \<longleftrightarrow> sState f = SessionEstablished"

lemmas tunnel_fsm_defs = SendSCCRQ_def RecvSCCRQ_def RecvSCCRP_def RecvSCCCN_def tunnel_Stop_def NewTunnelFSM_def
lemmas session_fsm_defs = SendICRQ_def RecvICRQ_def RecvICRP_def RecvICCN_def session_Disconnect_def NewSessionFSM_def

subsection \<open>Identifier allocation\<close>

record IDAllocator =
  idNext :: u16
  inUse :: "u16 set"
  wrapped :: bool

definition NewIDAllocator :: IDAllocator where
  "NewIDAllocator = \<lparr>idNext = 1, inUse = {}, wrapped = False\<rparr>"

definition bump :: "u16 \<Rightarrow> u16" where
  "bump n = (if n + 1 = 0 then 1 else n + 1)"

text \<open>The scan for a free identifier, \<open>n\<close> more rounds of it.\<close>

fun idScan :: "nat \<Rightarrow> IDAllocator \<Rightarrow> u16 option \<times> IDAllocator" where
  "idScan 0 a = (None, a)"
| "idScan (Suc n) a = (let i = idNext a; a' = a\<lparr>idNext := bump i\<rparr> in
     if i \<notin> inUse a then (Some i, a'\<lparr>inUse := insert i (inUse a)\<rparr>) else idScan n a')"

definition id_Allocate :: "IDAllocator \<Rightarrow> u16 option \<times> IDAllocator" where
  "id_Allocate a =
     (if \<not> wrapped a then
        (let i = idNext a;
             a' = a\<lparr>idNext := bump i, wrapped := (i + 1 = 0)\<rparr>
         in if i \<notin> inUse a then (Some i, a'\<lparr>inUse := insert i (inUse a)\<rparr>) else idScan 0xffff a')
      else idScan 0xffff a)"

definition id_Release :: "u16 \<Rightarrow> IDAllocator \<Rightarrow> IDAllocator" where
  "id_Release i a = (if i = 0 then a else a\<lparr>inUse := inUse a - {i}\<rparr>)"

definition id_Reserve :: "u16 \<Rightarrow> IDAllocator \<Rightarrow> bool \<times> IDAllocator" where
  "id_Reserve i a = (if i = 0 \<or> i \<in> inUse a then (False, a)
     else (let a' = a\<lparr>inUse := insert i (inUse a)\<rparr> in
       (True, if \<not> wrapped a \<and> idNext a \<le> i then a'\<lparr>idNext := bump i, wrapped := (i + 1 = 0)\<rparr> else a')))"

definition id_Count :: "IDAllocator \<Rightarrow> nat" where
  "id_Count a = card (inUse a)"

definition id_inv :: "IDAllocator \<Rightarrow> bool" where
  "id_inv a \<longleftrightarrow> idNext a \<noteq> 0 \<and> 0 \<notin> inUse a"

lemma bump_nonzero [simp]: "bump n \<noteq> 0"
  by (simp add: bump_def)

lemma idScan_spec:
  assumes "id_inv a" "idScan n a = (r, a')"
  shows "id_inv a' \<and> wrapped a' = wrapped a \<and>
    (case r of None \<Rightarrow> inUse a' = inUse a | Some i \<Rightarrow> i \<noteq> 0 \<and> i \<notin> inUse a \<and> inUse a' = insert i (inUse a))"
  using assms
proof (induction n arbitrary: a)
  case (Suc n)
  let ?a = "a\<lparr>idNext := bump (idNext a)\<rparr>"
  show ?case
  proof (cases "idNext a \<in> inUse a")
    case True
    then have "idScan n ?a = (r, a')" "id_inv ?a"
      using Suc.prems by (simp_all add: id_inv_def Let_def)
    from Suc.IH [OF this(2,1)] show ?thesis by (cases r) simp_all
  next
    case False
    then have "r = Some (idNext a)" "a' = ?a\<lparr>inUse := insert (idNext a) (inUse a)\<rparr>"
      using Suc.prems(2) by (auto simp: Let_def)
    with False Suc.prems(1) show ?thesis by (simp add: id_inv_def)
  qed
qed simp

text \<open>Where \<open>k\<close> steps of the counter lead: every identifier but 0 is met within 65,535 steps.\<close>

lemma unat_nonzero_bounds: "(n :: u16) \<noteq> 0 \<Longrightarrow> 1 \<le> unat n \<and> unat n \<le> 65535"
  using unat_u16_less [of n] by (simp add: Suc_le_eq unat_gt_0)

lemma unat_bump: "n \<noteq> 0 \<Longrightarrow> unat (bump n) = unat n mod 65535 + 1"
proof (cases "n + 1 = 0")
  case True
  then have "n = - 1" by (metis add_eq_0_iff add.commute)
  then show ?thesis by (simp add: bump_def unsigned_minus_1_eq_mask mask_eq_exp_minus_1)
next
  case False
  then have "unat (n + 1) = Suc (unat n)" by (metis unatSuc add.commute)
  moreover have "Suc (unat n) < 65536" using calculation unat_u16_less [of "n + 1"] by simp
  ultimately show ?thesis using False by (simp add: bump_def)
qed

lemma unat_bump_pow: "n \<noteq> 0 \<Longrightarrow> unat ((bump ^^ k) n) = (unat n - 1 + k) mod 65535 + 1 \<and> (bump ^^ k) n \<noteq> 0"
proof (induction k)
  case 0
  have "unat n - 1 < 65535" "unat n - 1 + 1 = unat n"
    using unat_nonzero_bounds [OF 0] by linarith+
  with 0 show ?case by simp
next
  case (Suc k)
  then have "unat ((bump ^^ Suc k) n) = ((unat n - 1 + k) mod 65535 + 1) mod 65535 + 1"
    using unat_bump [of "(bump ^^ k) n"] by simp
  also have "\<dots> = (unat n - 1 + Suc k) mod 65535 + 1"
    by (simp add: mod_Suc_eq)
  finally show ?case by simp
qed

lemma bump_reaches:
  assumes "n \<noteq> 0" "i \<noteq> 0"
  shows "\<exists>k < 65535. (bump ^^ k) n = i"
proof -
  let ?k = "(65535 + (unat i - 1) - (unat n - 1)) mod 65535"
  have n: "1 \<le> unat n" "unat n \<le> 65535" and i: "1 \<le> unat i" "unat i \<le> 65535"
    using assms unat_nonzero_bounds by blast+
  have "unat ((bump ^^ ?k) n) = (unat n - 1 + ?k) mod 65535 + 1"
    using unat_bump_pow [OF assms(1)] by blast
  also have "\<dots> = (unat n - 1 + (65535 + (unat i - 1) - (unat n - 1))) mod 65535 + 1"
    by (simp add: mod_add_right_eq)
  also have "\<dots> = (65535 + (unat i - 1)) mod 65535 + 1"
    using n by simp
  also have "\<dots> = (unat i - 1) mod 65535 + 1" by (simp only: mod_add_self1)
  also have "\<dots> = unat i" using i by (subst mod_less) linarith+
  finally have "(bump ^^ ?k) n = i" by (simp add: word_unat_eq_iff)
  then show ?thesis by (intro exI [of _ ?k]) simp
qed

lemma idScan_None: "idScan n a = (None, a') \<Longrightarrow> \<forall>k < n. (bump ^^ k) (idNext a) \<in> inUse a"
proof (induction n a arbitrary: a' rule: idScan.induct)
  case (2 n a)
  from "2.prems" have i: "idNext a \<in> inUse a" and r: "idScan n (a\<lparr>idNext := bump (idNext a)\<rparr>) = (None, a')"
    by (auto simp: Let_def split: if_splits)
  from "2.IH" [OF refl refl _ r] i have "\<forall>k < n. (bump ^^ k) (bump (idNext a)) \<in> inUse a" by simp
  then show ?case using i by (auto simp: less_Suc_eq_0_disj funpow_swap1)
qed simp

lemma idScan_full:
  assumes "id_inv a" "idScan 0xffff a = (None, a')"
  shows "inUse a = - {0}"
proof -
  have "i \<in> inUse a" if "i \<noteq> 0" for i
    using bump_reaches [of "idNext a" i] idScan_None [OF assms(2)] assms(1) that by (auto simp: id_inv_def)
  then show ?thesis using assms(1) by (auto simp: id_inv_def)
qed

lemma id_Allocate_spec:
  assumes "id_inv a" "id_Allocate a = (r, a')"
  shows "id_inv a' \<and> (case r of None \<Rightarrow> inUse a = - {0} \<and> inUse a' = inUse a
    | Some i \<Rightarrow> i \<noteq> 0 \<and> i \<notin> inUse a \<and> inUse a' = insert i (inUse a))"
proof -
  let ?i = "idNext a"
  let ?a = "if wrapped a then a else a\<lparr>idNext := bump ?i, wrapped := (?i + 1 = 0)\<rparr>"
  show ?thesis
  proof (cases "\<not> wrapped a \<and> ?i \<notin> inUse a")
    case True
    with assms show ?thesis by (auto simp: id_Allocate_def id_inv_def Let_def)
  next
    case False
    then have s: "idScan 0xffff ?a = (r, a')"
      using assms(2) by (auto simp: id_Allocate_def Let_def split: if_splits)
    have inv: "id_inv ?a" using assms(1) by (simp add: id_inv_def)
    have u: "inUse ?a = inUse a" by simp
    from idScan_spec [OF inv s] show ?thesis
    proof (cases r)
      case None
      with idScan_full [OF inv, of a'] s have "inUse ?a = - {0}" by simp
      with None idScan_spec [OF inv s] u show ?thesis by simp
    next
      case (Some i)
      with idScan_spec [OF inv s] u show ?thesis by simp
    qed
  qed
qed

lemma id_Release_inv: "id_inv a \<Longrightarrow> id_inv (id_Release i a)"
  by (simp add: id_Release_def id_inv_def)

lemma id_Reserve_inv: "id_inv a \<Longrightarrow> id_inv (snd (id_Reserve i a))"
  by (auto simp: id_Reserve_def id_inv_def Let_def)

lemma NewIDAllocator_inv: "id_inv NewIDAllocator"
  by (simp add: NewIDAllocator_def id_inv_def)

end
