(* ===== verification/L2TP_Theorems.thy ===== *)
theory L2TP_Theorems
  imports L2TP_Messages L2TP_Link L2TP_Window L2TP_State
begin

section \<open>Properties of the L2TP protocol library\<close>

text \<open>
  The properties of \<^verbatim>\<open>pkg/l2tp\<close> and of the identifier allocator, each followed by an instance at a concrete
  input. A channel with the default configuration serves the instances.
\<close>

definition demo_cfg :: ChanConfig where
  "demo_cfg = \<lparr>RTOInitial = 0, RTOMax = 0, MaxRetries = 0, PeerRWS = 0, ZLBDelay = 0\<rparr>"

definition demo_chan :: ControlChannel where
  "demo_chan = NewControlChannel demo_cfg True (\<lambda>_. False)"

lemma demo_chan_eq:
  "demo_chan = \<lparr>hasDead = True, rtoInitial = second, rtoMax = 8 * second, maxRetries = 5, zlbDelay = 200000000, cns = 0,
     cnr = 0, cwnd = 1, ssthresh = 4, peerWindow = 4, queue = [], nextRTO = 0, zlbDeadline = 0, ctrace = [],
     sendFails = (\<lambda>_. False)\<rparr>"
  by (simp add: demo_chan_def demo_cfg_def NewControlChannel_def)

text \<open>The channel after one message was submitted at time \<open>t\<close>.\<close>

lemma demo_send:
  "snd (SendSession body sid t demo_chan) = demo_chan\<lparr>cns := 1,
     queue := [\<lparr>mBody = body, mSession = sid, mNs = 0, attempts = 1, deadline = t + second\<rparr>], nextRTO := t + second,
     ctrace := [CSend body sid 0 0]\<rparr>"
  by (simp add: demo_chan_eq SendSession_def driveSend_def callSend_def recomputeNextRTO_def countInflight_def Let_def)

subsection \<open>The control channel\<close>



text \<open>
  C28: at any time the messages a channel holds are numbered consecutively up to the next number it will
  assign, the transmitted ones come first, and no more of them are in flight than the peer's window, for a
  window that is not negative. The congestion window stays between 1 and the peer's window.
\<close>

theorem channel_window:
  assumes "0 \<le> PeerRWS cfg" "chan_reach (NewControlChannel cfg dead fails) c"
  shows "seq_from (cns c - of_nat (length (queue c))) (queue c) \<and> flight_ok (queue c) \<and>
    countInflight (queue c) \<le> peerWindow c \<and> 1 \<le> cwnd c \<and> cwnd c \<le> peerWindow c"
  using chan_reach_inv [OF assms(2) new_channel_inv [OF assms(1)]] by (simp add: chan_inv_def)

theorem channel_window_witness:
  "flight_ok (queue (snd (SendSession [1] 0 0 demo_chan))) \<and> cwnd (snd (SendSession [1] 0 0 demo_chan)) \<le> 4"
proof -
  have "chan_reach (NewControlChannel demo_cfg True (\<lambda>_. False)) (snd (SendSession [1] 0 0 demo_chan))"
    unfolding demo_chan_def by (intro creach_step [OF creach_refl] step_send)
  from channel_window [OF _ this] show ?thesis by (simp add: demo_cfg_def demo_send) (simp add: demo_chan_eq)
qed



text \<open>
  C30: a peer that stops answering is detected: when the oldest message in flight is never acknowledged and
  the channel is ticked at or after each of its deadlines, at most \<^verbatim>\<open>maxRetries\<close> more ticks call the dead
  callback and clear the queue, whatever else is in the queue and whether the transmissions succeed.
\<close>

theorem channel_detects_dead_peer:
  assumes "queue c = m # ms" "1 \<le> attempts m" "attempts m \<le> maxRetries c" "hasDead c"
    and "\<forall>d \<in> set ds. 0 \<le> d" "maxRetries c - attempts m < int (length ds)"
  shows "CDead \<in> set (ctrace (lateTicks ds c)) \<and> queue (lateTicks ds c) = []"
  using lateTicks_dead [OF assms(1,2,4,5,6,3)] .

theorem channel_detects_dead_peer_witness:
  "CDead \<in> set (ctrace (lateTicks [0, 0, 0, 0, 0] (snd (SendSession [1] 0 0 demo_chan))))"
  using channel_detects_dead_peer [of "snd (SendSession [1] 0 0 demo_chan)"
      "\<lparr>mBody = [1], mSession = 0, mNs = 0, attempts = 1, deadline = second\<rparr>" "[]" "[0, 0, 0, 0, 0]"]
  by (simp add: demo_send) (simp add: demo_chan_eq)

text \<open>
  A frame without a message (ZLB) that carries the next expected number is counted as one: the message that
  follows with the same number, as it must, is refused as a duplicate.
\<close>

lemma zlb_consumes_number:
  assumes "ns = cnr c" "chan_Recv ns nr now c = (accept, c1)"
  shows "accept \<and> \<not> fst (chan_Recv ns nr' now' c1)"
proof -
  have r: "cnr (ackThrough nr now c) = cnr c" by simp
  with assms have c1: "accept" "cnr c1 = cnr c + 1"
    by (auto simp: chan_Recv_def Let_def scheduleZLB_def)
  have "cnr (ackThrough nr' now' c1) = cnr c + 1" by (simp add: c1)
  with c1(1) assms(1) show ?thesis by (simp add: chan_Recv_def Let_def)
qed

subsection \<open>The wire format\<close>

text \<open>
  C31: what the header writer puts in front of a body is what the reader takes off: for every header with
  consistent optional fields, every flag, identifier, sequence number and the offset come back, with the
  length filled in, and the body is unchanged, up to frames of 65,535 bytes.
\<close>

theorem header_round_trip:
  assumes "header_wf h" "HeaderLenBytes h + length body < 65536"
  shows "Parse (AppendTo h [] (length body) @ body) =
    Inr (h\<lparr>Length := (if HasLength h then of_nat (HeaderLenBytes h + length body) else 0),
           HeaderLen := HeaderLenBytes h\<rparr>, body)"
  by (rule Parse_AppendTo [OF assms])

theorem header_round_trip_witness:
  "Parse (AppendTo (NewControl 7 9 3 2) [] 1 @ [42]) = Inr ((NewControl 7 9 3 2)\<lparr>Length := 13, HeaderLen := 12\<rparr>, [42])"
  using header_round_trip [of "NewControl 7 9 3 2" "[42]"]
  by (simp add: header_wf_def NewControl_def zeroHeader_def HeaderLenBytes_def)

definition appendAll :: "AVP list \<Rightarrow> bytes option" where
  "appendAll avps = foldl (\<lambda>b a. Option.bind b (\<lambda>d.
     AppendAVP d (Mandatory a) (Hidden a) (VendorID a) (avpType a) (Value a))) (Some []) avps"

lemma AppendAVP_fields:
  "AppendAVP d (Mandatory a) (Hidden a) (VendorID a) (avpType a) (Value a) =
     (if avp_fits a then Some (d @ avp_bytes a) else None)"
  by (cases a) (simp add: AppendAVP_eq Let_def)

lemma appendAll_from:
  "foldl (\<lambda>b a. Option.bind b (\<lambda>d. AppendAVP d (Mandatory a) (Hidden a) (VendorID a) (avpType a) (Value a))) (Some dst) avps
     = (if \<forall>a \<in> set avps. avp_fits a then Some (dst @ concat (map avp_bytes avps)) else None)"
proof (induction avps arbitrary: dst)
  case (Cons a avps)
  have "foldl (\<lambda>b a. Option.bind b (\<lambda>d. AppendAVP d (Mandatory a) (Hidden a) (VendorID a) (avpType a) (Value a))) None avps = None"
    for avps :: "AVP list" by (induction avps) simp_all
  with Cons.IH show ?case by (simp add: AppendAVP_fields)
qed simp

text \<open>
  C32: a list of AVPs that fit and that hide a value only after a random vector is written and read back
  unchanged, and nothing that does not fit is written.
\<close>

theorem avp_round_trip:
  assumes "hidden_ok False avps"
  shows "(if \<forall>a \<in> set avps. avp_fits a then \<exists>b. appendAll avps = Some b \<and> ParseAVPs b = Inr avps
    else appendAll avps = None)"
proof -
  have "ParseAVPs (concat (map avp_bytes avps)) = Inr avps" if "\<forall>a \<in> set avps. avp_fits a"
    using ParseAVPs_from_bytes [OF that assms] by (simp add: ParseAVPs_def)
  then show ?thesis by (auto simp: appendAll_def appendAll_from)
qed

theorem avp_round_trip_witness:
  "\<exists>b. appendAll [plainAVP True 0 [0, 6]] = Some b \<and> ParseAVPs b = Inr [plainAVP True 0 [0, 6]]"
  using avp_round_trip [of "[plainAVP True 0 [0, 6]]"] by (simp add: avp_fits_def)

text \<open>
  The reply an LNS builds to start a control connection is read by the other side as such, with the
  assigned tunnel identifier, the window, the challenge and the challenge response that were put in.
\<close>

theorem sccrp_round_trip:
  assumes "BuildSCCRP p = Some body"
  shows "\<exists>avps. ParseAVPs body = Inr avps \<and> DecodeMessageType avps = MsgTypeSCCRP \<and>
    Option.bind (FindFirst avps 0 AVPAssignedTunnelID) DecodeUint16 = Some (rpLocalTunnelID p) \<and>
    Option.bind (FindFirst avps 0 AVPReceiveWindowSize) DecodeUint16 = Some (rpReceiveWindowSize p) \<and>
    map_option DecodeString (FindFirst avps 0 AVPHostName) = Some (rpHostName p) \<and>
    map_option Value (FindFirst avps 0 AVPChallenge) = (if rpChallenge p = [] then None else Some (rpChallenge p)) \<and>
    map_option Value (FindFirst avps 0 AVPChallengeResponse) =
      (if rpChallengeResponse p = [] then None else Some (rpChallengeResponse p))"
proof -
  have "ParseAVPs body = Inr (SCCRP_avps p)"
    using assms by (intro ParseAVPs_appendAVPs) (simp_all add: BuildSCCRP_eq messages_plain)
  then show ?thesis
    by (simp add: messages_type) (simp add: SCCRP_avps_def FindFirst_append FindFirst_opt_avp DecodeUint16_def DecodeString_def)
qed

definition demo_sccrp :: SCCRPParams where
  "demo_sccrp = \<lparr>rpLocalTunnelID = 7, rpReceiveWindowSize = 16, rpHostName = [108, 110, 115], rpVendorName = [],
     rpFramingCaps = 2, rpBearerCaps = 2, rpFirmwareRevision = 0, rpChallenge = [1, 2], rpChallengeResponse = []\<rparr>"

theorem sccrp_round_trip_instance:
  "\<exists>body avps. BuildSCCRP demo_sccrp = Some body \<and> ParseAVPs body = Inr avps \<and>
     Option.bind (FindFirst avps 0 AVPAssignedTunnelID) DecodeUint16 = Some 7"
proof -
  have "\<exists>body. BuildSCCRP demo_sccrp = Some body"
    by (simp add: BuildSCCRP_eq appendAVPs_def SCCRP_avps_def demo_sccrp_def avp_fits_def)
  then obtain body where b: "BuildSCCRP demo_sccrp = Some body" by blast
  from sccrp_round_trip [OF this] b show ?thesis by (auto simp: demo_sccrp_def)
qed

subsection \<open>Authentication and identifiers\<close>

text \<open>
  C33: a challenge response is accepted exactly when it has at least 16 bytes and its first 16 are the MD5 digest
  of the message type, the secret and the challenge.
\<close>

theorem challenge_response_iff:
  "VerifyChallengeResponse mt secret ch obs = None \<longleftrightarrow>
     16 \<le> length obs \<and> take 16 obs = md5 ([mt] @ secret @ ch)"
  by (rule VerifyChallengeResponse_None_iff)

text \<open>
  The tunnel identifier an allocator returns is not 0 and not in use, and it fails only when all 65,535
  identifiers are taken; nothing but that identifier changes hands, and the next call keeps to the same terms.
\<close>

theorem tunnel_id_allocation:
  assumes "id_inv a" "id_Allocate a = (r, a')"
  shows "id_inv a' \<and> (case r of None \<Rightarrow> inUse a = - {0} \<and> inUse a' = inUse a
    | Some i \<Rightarrow> i \<noteq> 0 \<and> i \<notin> inUse a \<and> inUse a' = insert i (inUse a))"
  by (rule id_Allocate_spec [OF assms])

theorem tunnel_id_allocation_instance:
  "\<exists>i a'. id_Allocate NewIDAllocator = (Some i, a') \<and> i \<noteq> 0 \<and> inUse a' = {i}"
proof -
  have "\<exists>i a'. id_Allocate NewIDAllocator = (Some i, a')" by (simp add: id_Allocate_def NewIDAllocator_def Let_def)
  then obtain i a' where a: "id_Allocate NewIDAllocator = (Some i, a')" by blast
  from tunnel_id_allocation [OF NewIDAllocator_inv a] a show ?thesis by (auto simp: NewIDAllocator_def)
qed

end
