(* ===== verification/Go_Text.thy ===== *)
theory Go_Text
  imports Go_Parse
begin

section \<open>Numbers and addresses as text\<close>

text \<open>
  What the code uses of \<^verbatim>\<open>strconv\<close> and of \<^verbatim>\<open>net.IP.String\<close>: decimal numbers, unsigned parsing with a bit size, dotted
  IPv4 addresses, and that what is written is read back.
\<close>

text \<open>\<^verbatim>\<open>net.IP.String\<close> on an IPv4 address in either form, and on nil.\<close>

fun decStr :: "nat \<Rightarrow> string" where
  "decStr n = (if n < 10 then [char_of (48 + n)] else decStr (n div 10) @ [char_of (48 + n mod 10)])"

declare decStr.simps [simp del]

definition ip4String :: "bytes \<Rightarrow> string" where
  "ip4String ip = (case To4 ip of
       [a, b, c, d] \<Rightarrow> decStr (unat a) @ ''.'' @ decStr (unat b) @ ''.'' @ decStr (unat c) @ ''.'' @ decStr (unat d)
     | _ \<Rightarrow> ''<nil>'')"

text \<open>\<^verbatim>\<open>strconv.ParseUint(s, 10, n)\<close>.\<close>

definition ParseUint :: "nat \<Rightarrow> string \<Rightarrow> nat option" where
  "ParseUint n s = (if s = [] \<or> \<not> list_all isDigit s \<or> 2 ^ n \<le> decNum s then None else Some (decNum s))"

subsection \<open>Dotted addresses read back\<close>

text \<open>What \<^verbatim>\<open>net.IP.String\<close> writes for an IPv4 address, \<^verbatim>\<open>net.ParseIP\<close> reads.\<close>

lemma isDigit_dig [simp]: "d < 10 \<Longrightarrow> isDigit (char_of (48 + d :: nat))" "d < 10 \<Longrightarrow> digitVal (char_of (48 + d :: nat)) = d"
  by (simp_all add: isDigit_def digitVal_def)

lemma decStr_byte:
  assumes "n < 256"
  obtains "n < 10" "decStr n = [char_of (48 + n)]"
  | "10 \<le> n" "n < 100" "decStr n = [char_of (48 + n div 10), char_of (48 + n mod 10)]"
  | "100 \<le> n" "decStr n = [char_of (48 + n div 100), char_of (48 + n div 10 mod 10), char_of (48 + n mod 10)]"
proof -
  consider "n < 10" | "10 \<le> n" "n < 100" | "100 \<le> n" by linarith
  then show ?thesis
  proof cases
    case 1
    then show ?thesis by (intro that(1)) (simp_all add: decStr.simps [of n])
  next
    case 2
    then have "n div 10 < 10" by simp
    with 2 show ?thesis by (intro that(2)) (simp_all add: decStr.simps [of n] decStr.simps [of "n div 10"])
  next
    case 3
    have "10 \<le> n div 10" "n div 10 div 10 < 10" "n div 10 div 10 = n div 100"
      using 3 assms by (simp_all add: div_mult2_eq [symmetric])
    with 3 show ?thesis
      by (intro that(3)) (simp_all add: decStr.simps [of n] decStr.simps [of "n div 10"] decStr.simps [of "n div 100"])
  qed
qed

lemma parse_decStr:
  assumes "n < 256"
  shows "\<exists>d. parseIPv4Fields st 0 0 fs (decStr n @ rest) = parseIPv4Fields False n d fs rest"
  using assms
proof (cases rule: decStr_byte)
  case 1
  then show ?thesis by (intro exI [of _ 1]) simp
next
  case 2
  have "n div 10 < 10" "n mod 10 < 10" "n div 10 * 10 + n mod 10 = n" "n div 10 \<noteq> 0" "\<not> 255 < n" using 2 by simp_all
  with 2(3) show ?thesis by (intro exI [of _ 2]) (simp add: numeral_2_eq_2)
next
  case 3
  have "n div 100 < 10" "n div 10 mod 10 < 10" "n mod 10 < 10" "n div 100 \<noteq> 0" "n div 100 * 10 + n div 10 mod 10 = n div 10"
    "n div 10 * 10 + n mod 10 = n"
    using 3 assms div_mult_mod_eq [of "n div 10" 10] by (simp_all add: div_mult2_eq [symmetric])
  moreover have "\<not> 255 < n div 10" "\<not> 255 < n" using assms by simp_all
  ultimately show ?thesis using 3(2) by (intro exI [of _ 3]) (simp add: numeral_3_eq_3)
qed

lemma parse_dot: "cs \<noteq> [] \<Longrightarrow> length fs < 3 \<Longrightarrow>
    parseIPv4Fields False v dig fs (CHR ''.'' # cs) = parseIPv4Fields True 0 0 (fs @ [of_nat v]) cs"
  by (simp add: isDigit_def)

lemma decStr_nonempty [simp]: "decStr n \<noteq> []"
  by (subst decStr.simps) simp

lemma parse_dotted:
  "parseIPv4Fields True 0 0 [] (decStr (unat a) @ ''.'' @ decStr (unat b) @ ''.'' @ decStr (unat c) @ ''.'' @ decStr (unat d))
     = Some [a, b, c, d]" for a b c d :: byte
proof -
  note lt = unat_byte_less
  have step: "parseIPv4Fields st 0 0 fs (decStr (unat x) @ CHR ''.'' # cs) = parseIPv4Fields True 0 0 (fs @ [x]) cs"
    if "cs \<noteq> []" "length fs < 3" for st fs cs and x :: byte
  proof -
    obtain dig where "parseIPv4Fields st 0 0 fs (decStr (unat x) @ CHR ''.'' # cs) =
        parseIPv4Fields False (unat x) dig fs (CHR ''.'' # cs)"
      using parse_decStr [OF lt [of x], of st fs "CHR ''.'' # cs"] by blast
    also have "\<dots> = parseIPv4Fields True 0 0 (fs @ [x]) cs" using parse_dot [OF that, of "unat x" dig] by simp
    finally show ?thesis .
  qed
  have last: "parseIPv4Fields True 0 0 [a, b, c] (decStr (unat d)) = Some [a, b, c, d]"
    using parse_decStr [OF lt [of d], of True "[a, b, c]" "[]"] by auto
  show ?thesis using last by (simp add: step)
qed

lemma ParseAddr_digits:
  "(\<And>c. c \<in> set ds \<Longrightarrow> isDigit c) \<Longrightarrow> ParseAddr_from s (ds @ CHR ''.'' # cs) = parseIPv4 s"
proof (induction ds)
  case (Cons c ds)
  have "isDigit c" using Cons.prems by simp
  then have "c \<noteq> CHR ''.''" "c \<noteq> CHR '':''" "c \<noteq> CHR ''%''" by (auto simp: isDigit_def)
  with Cons show ?case by simp
qed simp

lemma decStr_digits: "c \<in> set (decStr n) \<Longrightarrow> isDigit c"
proof (induction n rule: less_induct)
  case (less n)
  have "c \<in> set (if n < 10 then [char_of (48 + n)] else decStr (n div 10) @ [char_of (48 + n mod 10)])"
    using less.prems by (simp only: decStr.simps [of n])
  then consider "n < 10" "c = char_of (48 + n)" | "\<not> n < 10" "c \<in> set (decStr (n div 10))" | "c = char_of (48 + n mod 10)"
    by (auto split: if_splits)
  then show ?case
  proof cases
    case 2
    then show ?thesis using less.IH [of "n div 10"] by simp
  qed simp_all
qed

theorem ParseIP_ip4String:
  assumes "To4 ip \<noteq> []"
  shows "ParseIP (ip4String ip) = Some (v4InV6Prefix @ To4 ip)"
proof -
  obtain a b c d where ip: "To4 ip = [a, b, c, d]"
    using length_To4 [of ip] assms by (auto simp: numeral_eq_Suc length_Suc_conv)
  let ?s = "decStr (unat a) @ ''.'' @ decStr (unat b) @ ''.'' @ decStr (unat c) @ ''.'' @ decStr (unat d)"
  have "ParseAddr ?s = parseIPv4 ?s"
    using ParseAddr_digits [of "decStr (unat a)" ?s "decStr (unat b) @ ''.'' @ decStr (unat c) @ ''.'' @ decStr (unat d)"]
      decStr_digits by (simp add: ParseAddr_def)
  then have "ParseAddr ?s = Some (V4 (get32 [a, b, c, d]))" unfolding parseIPv4_def parse_dotted by simp
  then show ?thesis by (simp add: ParseIP_def ip4String_def ip put32_get32)
qed

lemma ip4String_inj:
  assumes "To4 a \<noteq> []" "To4 b \<noteq> []"
  shows "ip4String a = ip4String b \<longleftrightarrow> To4 a = To4 b"
proof
  assume "ip4String a = ip4String b"
  then have "v4InV6Prefix @ To4 a = v4InV6Prefix @ To4 b"
    using ParseIP_ip4String [OF assms(1)] ParseIP_ip4String [OF assms(2)] by simp
  then show "To4 a = To4 b" by simp
qed (simp add: ip4String_def)

end
