(* ===== verification/Svc_Group.thy ===== *)
theory Svc_Group
  imports Go_Text
begin

section \<open>Service groups\<close>

text \<open>
  \<^verbatim>\<open>pkg/svcgroup\<close>: the resolver that merges the default group, the group AAA names and single AAA attributes
  (\<^verbatim>\<open>resolver.go\<close>), and the policy bindings of a session (\<^verbatim>\<open>apply.go\<close>). The dataplane's answers are an argument and
  the calls made are a trace. A floating-point attribute is its conversion to 64 bits and its text.
\<close>

record svcGroup =
  sgName :: string
  sgVRF :: string
  sgUnnumbered :: string
  sgURPF :: string
  sgACLIngress :: string
  sgACLEgress :: string
  sgQoSIngress :: string
  sgQoSEgress :: string
  sgUploadRate :: u64
  sgDownloadRate :: u64
  sgPool :: string
  sgIANAPool :: string
  sgPDPool :: string
  sgIPv4Profile :: string
  sgIPv6Profile :: string

definition zeroGroup :: svcGroup where
  "zeroGroup = \<lparr>sgName = [], sgVRF = [], sgUnnumbered = [], sgURPF = [], sgACLIngress = [], sgACLEgress = [],
     sgQoSIngress = [], sgQoSEgress = [], sgUploadRate = 0, sgDownloadRate = 0, sgPool = [], sgIANAPool = [],
     sgPDPool = [], sgIPv4Profile = [], sgIPv6Profile = []\<rparr>"

record groupConfig =
  gcVRF :: string
  gcUnnumbered :: string
  gcURPF :: string
  gcACL :: "(string \<times> string) option"
  gcQoS :: "(string \<times> string \<times> u64 \<times> u64) option"
  gcPool :: string
  gcIANAPool :: string
  gcPDPool :: string
  gcIPv4Profile :: string
  gcIPv6Profile :: string

type_synonym svcResolver = "string \<rightharpoonup> groupConfig"

datatype attrVal = VStr string | VUint64 u64 | VFloat u64 string | VInt int | VOther string

text \<open>\<^verbatim>\<open>fmt.Sprintf("%v", v)\<close>.\<close>

fun attrText :: "attrVal \<Rightarrow> string" where
  "attrText (VStr s) = s"
| "attrText (VUint64 n) = decStr (unat n)"
| "attrText (VFloat _ t) = t"
| "attrText (VInt i) = (if i < 0 then ''-'' @ decStr (nat (- i)) else decStr (nat i))"
| "attrText (VOther t) = t"

definition getStringAttr :: "(string \<rightharpoonup> attrVal) \<Rightarrow> string \<Rightarrow> string" where
  "getStringAttr attrs key = (case attrs key of None \<Rightarrow> [] | Some v \<Rightarrow> attrText v)"

definition getUint64Attr :: "(string \<rightharpoonup> attrVal) \<Rightarrow> string \<Rightarrow> u64" where
  "getUint64Attr attrs key = (case attrs key of None \<Rightarrow> 0
     | Some (VUint64 n) \<Rightarrow> n | Some (VFloat n _) \<Rightarrow> n | Some (VInt i) \<Rightarrow> of_int i
     | Some (VStr s) \<Rightarrow> (case ParseUint 64 s of None \<Rightarrow> 0 | Some n \<Rightarrow> of_nat n)
     | Some (VOther _) \<Rightarrow> 0)"

text \<open>A setting replaces the one below it unless it is the zero value.\<close>

definition over :: "'a list \<Rightarrow> 'a list \<Rightarrow> 'a list" where
  "over v old = (if v \<noteq> [] then v else old)"

definition overRate :: "u64 \<Rightarrow> u64 \<Rightarrow> u64" where
  "overRate v old = (if v \<noteq> 0 then v else old)"

definition applyConfig :: "groupConfig \<Rightarrow> svcGroup \<Rightarrow> svcGroup" where
  "applyConfig cfg r =
     (let r = r\<lparr>sgVRF := over (gcVRF cfg) (sgVRF r), sgUnnumbered := over (gcUnnumbered cfg) (sgUnnumbered r),
            sgURPF := over (gcURPF cfg) (sgURPF r)\<rparr>;
          r = (case gcACL cfg of None \<Rightarrow> r
            | Some (ing, eg) \<Rightarrow> r\<lparr>sgACLIngress := over ing (sgACLIngress r), sgACLEgress := over eg (sgACLEgress r)\<rparr>);
          r = (case gcQoS cfg of None \<Rightarrow> r
            | Some (ing, eg, up, down) \<Rightarrow> r\<lparr>sgQoSIngress := over ing (sgQoSIngress r), sgQoSEgress := over eg (sgQoSEgress r),
                sgUploadRate := overRate up (sgUploadRate r), sgDownloadRate := overRate down (sgDownloadRate r)\<rparr>)
      in r\<lparr>sgPool := over (gcPool cfg) (sgPool r), sgIANAPool := over (gcIANAPool cfg) (sgIANAPool r),
           sgPDPool := over (gcPDPool cfg) (sgPDPool r), sgIPv4Profile := over (gcIPv4Profile cfg) (sgIPv4Profile r),
           sgIPv6Profile := over (gcIPv6Profile cfg) (sgIPv6Profile r)\<rparr>)"

definition applyAAAOverrides :: "(string \<rightharpoonup> attrVal) \<Rightarrow> svcGroup \<Rightarrow> svcGroup" where
  "applyAAAOverrides attrs r = r\<lparr>
     sgVRF := over (getStringAttr attrs ''vrf'') (sgVRF r),
     sgUnnumbered := over (getStringAttr attrs ''unnumbered'') (sgUnnumbered r),
     sgURPF := over (getStringAttr attrs ''urpf'') (sgURPF r),
     sgACLIngress := over (getStringAttr attrs ''acl.ingress'') (sgACLIngress r),
     sgACLEgress := over (getStringAttr attrs ''acl.egress'') (sgACLEgress r),
     sgQoSIngress := over (getStringAttr attrs ''qos.ingress-policy'') (sgQoSIngress r),
     sgQoSEgress := over (getStringAttr attrs ''qos.egress-policy'') (sgQoSEgress r),
     sgUploadRate := overRate (getUint64Attr attrs ''qos.upload-rate'') (sgUploadRate r),
     sgDownloadRate := overRate (getUint64Attr attrs ''qos.download-rate'') (sgDownloadRate r),
     sgIPv4Profile := over (getStringAttr attrs ''ipv4-profile'') (sgIPv4Profile r),
     sgIPv6Profile := over (getStringAttr attrs ''ipv6-profile'') (sgIPv6Profile r)\<rparr>"

text \<open>One of the two configuration layers: an unknown name is logged and changes nothing.\<close>

definition applyNamed :: "svcResolver \<Rightarrow> string \<Rightarrow> svcGroup \<Rightarrow> svcGroup" where
  "applyNamed groups name r =
     (if name = [] then r else case groups name of None \<Rightarrow> r | Some cfg \<Rightarrow> applyConfig cfg (r\<lparr>sgName := name\<rparr>))"

definition Resolve :: "svcResolver \<Rightarrow> string \<Rightarrow> string \<Rightarrow> (string \<rightharpoonup> attrVal) \<Rightarrow> svcGroup" where
  "Resolve groups sg defaultSG attrs =
     applyAAAOverrides attrs (applyNamed groups sg (applyNamed groups defaultSG zeroGroup))"

text \<open>The layer of a group name, and the precedence: AAA attribute, then AAA group, then default group.\<close>

definition layer :: "svcResolver \<Rightarrow> string \<Rightarrow> (groupConfig \<Rightarrow> 'a list) \<Rightarrow> 'a list" where
  "layer groups name f = (if name = [] then [] else case groups name of None \<Rightarrow> [] | Some cfg \<Rightarrow> f cfg)"

lemma over_simps [simp]: "over [] x = x" "over x [] = x" "over (over a b) c = over a (over b c)"
  by (simp_all add: over_def)

lemma applyNamed_fields:
  "sgVRF (applyNamed g n r) = over (layer g n gcVRF) (sgVRF r)"
  "sgUnnumbered (applyNamed g n r) = over (layer g n gcUnnumbered) (sgUnnumbered r)"
  "sgURPF (applyNamed g n r) = over (layer g n gcURPF) (sgURPF r)"
  "sgPool (applyNamed g n r) = over (layer g n gcPool) (sgPool r)"
  "sgACLIngress (applyNamed g n r) = over (layer g n (\<lambda>c. case gcACL c of None \<Rightarrow> [] | Some (i, _) \<Rightarrow> i)) (sgACLIngress r)"
  "sgACLEgress (applyNamed g n r) = over (layer g n (\<lambda>c. case gcACL c of None \<Rightarrow> [] | Some (_, e) \<Rightarrow> e)) (sgACLEgress r)"
  "sgIPv4Profile (applyNamed g n r) = over (layer g n gcIPv4Profile) (sgIPv4Profile r)"
  "sgIPv6Profile (applyNamed g n r) = over (layer g n gcIPv6Profile) (sgIPv6Profile r)"
  by (auto simp: applyNamed_def applyConfig_def layer_def Let_def split: option.splits prod.splits)

theorem Resolve_precedence:
  "sgVRF (Resolve g n d attrs) = over (getStringAttr attrs ''vrf'') (over (layer g n gcVRF) (layer g d gcVRF))"
  "sgUnnumbered (Resolve g n d attrs) =
     over (getStringAttr attrs ''unnumbered'') (over (layer g n gcUnnumbered) (layer g d gcUnnumbered))"
  "sgURPF (Resolve g n d attrs) = over (getStringAttr attrs ''urpf'') (over (layer g n gcURPF) (layer g d gcURPF))"
  "sgPool (Resolve g n d attrs) = over (layer g n gcPool) (layer g d gcPool)"
  by (simp_all add: Resolve_def applyAAAOverrides_def applyNamed_fields zeroGroup_def)

subsection \<open>Policy bindings\<close>

record qosPolicy =
  qpCIR :: u32
  qpScheduler :: "nat option"

datatype policyCall =
    ApplyIngressACL string
  | ApplyEgressACL string
  | RemoveIngressACL
  | RemoveEgressACL
  | EnableSourceVerify bool
  | DisableSourceVerify
  | ApplyQoS "qosPolicy option" "qosPolicy option"
  | RemoveQoS
  | ApplyScheduler u32 nat
  | RemoveScheduler

datatype apply_error = URPFFailed | ACLIngressFailed | ACLEgressFailed

text \<open>
  The bindings in the order they are made: a binding whose failure ends the function, with its error, or one whose
  failure is only logged.
\<close>

definition urpfCalls :: "string \<Rightarrow> (policyCall \<times> apply_error option) list" where
  "urpfCalls u = (if u = ''strict'' then [(EnableSourceVerify True, Some URPFFailed)]
     else if u = ''loose'' then [(EnableSourceVerify False, Some URPFFailed)] else [])"

definition qosCalls :: "svcGroup \<Rightarrow> (string \<rightharpoonup> qosPolicy) \<Rightarrow> (policyCall \<times> apply_error option) list" where
  "qosCalls sg policies =
     (let ingress = (if sgQoSIngress sg \<noteq> [] then policies (sgQoSIngress sg) else None);
          egress = (if sgQoSEgress sg \<noteq> [] then policies (sgQoSEgress sg) else None)
      in if ingress = None \<and> egress = None then []
         else (case egress of
             Some e \<Rightarrow> (case qpScheduler e of
                 Some sched \<Rightarrow>
                   (let rate = (if 0 < sgDownloadRate sg then ucast (sgDownloadRate sg div 1000) else qpCIR e) in
                    (if 0 < rate then [(ApplyScheduler rate sched, None)] else [])
                    @ (if ingress \<noteq> None then [(ApplyQoS ingress None, None)] else []))
               | None \<Rightarrow> [(ApplyQoS ingress egress, None)])
           | None \<Rightarrow> [(ApplyQoS ingress egress, None)]))"

fun runCalls :: "(policyCall \<Rightarrow> bool) \<Rightarrow> (policyCall \<times> apply_error option) list \<Rightarrow> policyCall list \<times> apply_error option" where
  "runCalls dp [] = ([], None)"
| "runCalls dp ((c, e) # cs) =
     (if \<not> dp c \<and> e \<noteq> None then ([c], e) else (case runCalls dp cs of (t, r) \<Rightarrow> (c # t, r)))"

definition ApplyToSession ::
  "(policyCall \<Rightarrow> bool) \<Rightarrow> svcGroup \<Rightarrow> (string \<rightharpoonup> qosPolicy) \<Rightarrow> policyCall list \<times> apply_error option" where
  "ApplyToSession dp sg policies = runCalls dp (urpfCalls (sgURPF sg)
     @ (if sgACLIngress sg \<noteq> [] then [(ApplyIngressACL (sgACLIngress sg), Some ACLIngressFailed)] else [])
     @ (if sgACLEgress sg \<noteq> [] then [(ApplyEgressACL (sgACLEgress sg), Some ACLEgressFailed)] else [])
     @ qosCalls sg policies)"

definition ReverseFromSession :: "svcGroup \<Rightarrow> policyCall list" where
  "ReverseFromSession sg = [RemoveScheduler, RemoveQoS]
     @ (if sgACLIngress sg \<noteq> [] then [RemoveIngressACL] else [])
     @ (if sgACLEgress sg \<noteq> [] then [RemoveEgressACL] else [])
     @ (if sgURPF sg \<noteq> [] \<and> sgURPF sg \<noteq> ''off'' then [DisableSourceVerify] else [])"

fun undoes :: "policyCall \<Rightarrow> policyCall" where
  "undoes (ApplyIngressACL _) = RemoveIngressACL"
| "undoes (ApplyEgressACL _) = RemoveEgressACL"
| "undoes (EnableSourceVerify _) = DisableSourceVerify"
| "undoes (ApplyQoS _ _) = RemoveQoS"
| "undoes (ApplyScheduler _ _) = RemoveScheduler"
| "undoes c = c"

lemma runCalls_subset: "set (fst (runCalls dp cs)) \<subseteq> fst ` set cs"
proof (induction cs)
  case (Cons x cs)
  then show ?case by (cases x) (auto split: prod.splits)
qed simp

lemma urpf_undone: "c \<in> fst ` set (urpfCalls u) \<Longrightarrow> undoes c = DisableSourceVerify \<and> u \<noteq> [] \<and> u \<noteq> ''off''"
  by (auto simp: urpfCalls_def split: if_splits)

lemma qos_undone: "c \<in> fst ` set (qosCalls sg policies) \<Longrightarrow> undoes c \<in> {RemoveScheduler, RemoveQoS}"
  by (auto simp: qosCalls_def Let_def split: if_splits option.splits)

text \<open>Every binding of a session, also of a bring-up that stopped at an error, is undone when the session ends.\<close>

theorem ReverseFromSession_undoes:
  assumes "c \<in> set (fst (ApplyToSession dp sg policies))"
  shows "undoes c \<in> set (ReverseFromSession sg)"
proof -
  from assms runCalls_subset consider "c \<in> fst ` set (urpfCalls (sgURPF sg))"
    | "sgACLIngress sg \<noteq> []" "c = ApplyIngressACL (sgACLIngress sg)"
    | "sgACLEgress sg \<noteq> []" "c = ApplyEgressACL (sgACLEgress sg)"
    | "c \<in> fst ` set (qosCalls sg policies)"
    unfolding ApplyToSession_def by (force split: if_splits)
  then show ?thesis
  proof cases
    case 1
    from urpf_undone [OF this] show ?thesis by (simp add: ReverseFromSession_def)
  next
    case 4
    from qos_undone [OF this] show ?thesis by (auto simp: ReverseFromSession_def)
  qed (simp_all add: ReverseFromSession_def)
qed

subsection \<open>The table of groups\<close>

definition sg_Set :: "string \<Rightarrow> groupConfig \<Rightarrow> svcResolver \<Rightarrow> svcResolver" where
  "sg_Set name cfg r = r(name \<mapsto> cfg)"

definition sg_Delete :: "string \<Rightarrow> svcResolver \<Rightarrow> svcResolver" where
  "sg_Delete name r = r(name := None)"

definition sg_Get :: "string \<Rightarrow> svcResolver \<Rightarrow> groupConfig option" where
  "sg_Get name r = r name"

text \<open>A change of a group that a session names in neither layer does not change what the session resolves to.\<close>

lemma applyNamed_other:
  "name \<noteq> x \<Longrightarrow> applyNamed (sg_Set name cfg r) x = applyNamed r x" "name \<noteq> x \<Longrightarrow> applyNamed (sg_Delete name r) x = applyNamed r x"
  by (rule ext, simp add: applyNamed_def sg_Set_def sg_Delete_def)+

lemma Resolve_other_group:
  "name \<noteq> a \<Longrightarrow> name \<noteq> b \<Longrightarrow> Resolve (sg_Set name cfg r) a b attrs = Resolve r a b attrs"
  "name \<noteq> a \<Longrightarrow> name \<noteq> b \<Longrightarrow> Resolve (sg_Delete name r) a b attrs = Resolve r a b attrs"
  by (simp_all add: Resolve_def applyNamed_other)

end
