(* ===== verification/LNS_Session.thy ===== *)
theory LNS_Session
  imports PPP_Dispatcher PPP_Auth Alloc_Registry Svc_Group
begin

section \<open>A PPP session terminated on the LNS\<close>

text \<open>
  \<^verbatim>\<open>internal/l2tp/lns_lifecycle.go\<close> and \<^verbatim>\<open>ppp.go\<close>: one subscriber session from LCP through authentication by AAA to an
  open session, composed of the automata, the dispatcher, the registry and the service groups.
  \<^item> The fields of \<^verbatim>\<open>Session\<close> that PPP uses are the record \<open>lns\<close>; the registry of the component travels with it.
  \<^item> Callbacks of an automaton are run in the order in which the call has appended them to its trace.
  \<^item> Frames, AAA requests, dataplane calls and lifecycle events are appended to \<open>lOut\<close>.
  \<^item> What a call takes from outside (random bytes, fresh identifiers, configuration) is in the record \<open>lnsEnv\<close>.
\<close>

record subGroup =
  ugAccessLNS :: bool
  ugAAAPolicy :: string
  ugDefaultServiceGroup :: string
  ugIPv4Profile :: string
  ugIPv6Profile :: string

record lnsEnv =
  eSend :: bool
  eBus :: bool
  eVPP :: bool
  eHostname :: bytes
  eChallenge :: bytes
  eRequestID :: string
  eAcctID :: string
  eGroups :: "subGroup option list"
  eResolver :: "svcResolver option"
  eProfiles :: "string \<rightharpoonup> string \<times> string list"

datatype lnsOut =
    OFrame u16 bytes
  | OAAARequest string bytes string "(string \<times> string) list"
  | OUnnumbered u32 string
  | OSetIPv4 u32 bytes
  | OSetIPv6 u32 bytes
  | OSetPrefix u32 IPNet bytes
  | OActive string bytes bytes bytes "IPNet option" string string

record lns =
  lSessionID :: string
  lAcctID :: string
  lLCP :: "LCP FSM"
  lIPCP :: "IPCP FSM"
  lIPv6CP :: "IPv6CP FSM"
  lPhase :: Phase
  lPendingID :: string
  lPendingType :: string
  lPendingPAP :: byte
  lPendingCHAP :: byte
  lChapID :: byte
  lChallenge :: bytes
  lTimer :: bool
  lRetries :: int
  lAttrs :: "string \<rightharpoonup> string"
  lVRF :: string
  lGroup :: svcGroup
  lCtx :: "Context option"
  lUser :: bytes
  lIPv4 :: bytes
  lIPv6 :: bytes
  lPrefix :: "IPNet option"
  lPool :: string
  lIANAPool :: string
  lPDPool :: string
  lIPCPOpen :: bool
  lIPv6CPOpen :: bool
  lPublished :: bool
  lMagic :: u32
  lSwIf :: u32
  lReg :: "Registry option"
  lOut :: "lnsOut list"

definition lnsEmit :: "lnsOut list \<Rightarrow> lns \<Rightarrow> lns" where
  "lnsEmit os s = s\<lparr>lOut := lOut s @ os\<rparr>"

subsection \<open>Frames\<close>

definition buildPPPPacket :: "byte \<Rightarrow> byte \<Rightarrow> bytes \<Rightarrow> bytes" where
  "buildPPPPacket code i data = [code, i] @ put16 (of_nat (4 + length data)) @ data"

definition sendPPPFrame :: "lnsEnv \<Rightarrow> u16 \<Rightarrow> byte \<Rightarrow> byte \<Rightarrow> bytes \<Rightarrow> lns \<Rightarrow> lns" where
  "sendPPPFrame e p code i data s = (if eSend e then lnsEmit [OFrame p (buildPPPPacket code i data)] s else s)"

fun sendAuth :: "lnsEnv \<Rightarrow> u16 \<Rightarrow> auth_call list \<Rightarrow> lns \<Rightarrow> lns" where
  "sendAuth e p [] s = s"
| "sendAuth e p (AuthSend c i d # as) s = sendAuth e p as (sendPPPFrame e p c i d s)"
| "sendAuth e p (AuthResult _ _ # as) s = sendAuth e p as s"

subsection \<open>Opening the session\<close>

definition programSessionVPP :: "lnsEnv \<Rightarrow> lns \<Rightarrow> lns" where
  "programSessionVPP e s =
     (if \<not> eVPP e \<or> lSwIf s = 0 then s
      else lnsEmit
        ((if sgUnnumbered (lGroup s) \<noteq> [] then [OUnnumbered (lSwIf s) (sgUnnumbered (lGroup s))] else [])
         @ (if lIPv4 s \<noteq> [] then [OSetIPv4 (lSwIf s) (lIPv4 s)] else [])
         @ (if lIPv6 s \<noteq> [] then [OSetIPv6 (lSwIf s) (lIPv6 s)] else [])
         @ (case lPrefix s of None \<Rightarrow> []
            | Some p \<Rightarrow> [OSetPrefix (lSwIf s) p (if lIPv6 s = [] then replicate 16 0 else lIPv6 s)])) s)"

definition publishSessionLifecycle :: "lnsEnv \<Rightarrow> lns \<Rightarrow> lns" where
  "publishSessionLifecycle e s = (if \<not> eBus e then s
     else lnsEmit [OActive (lSessionID s) (lUser s) (lIPv4 s) (lIPv6 s) (lPrefix s) (lPool s) (lIANAPool s)] s)"

definition checkSessionOpen :: "lnsEnv \<Rightarrow> lns \<Rightarrow> lns" where
  "checkSessionOpen e s =
     (if lPhase s \<noteq> PhaseNetwork then s
      else if \<not> lIPCPOpen s \<and> \<not> lIPv6CPOpen s then s
      else if lPublished s then s
      else publishSessionLifecycle e (programSessionVPP e (s\<lparr>lPhase := PhaseOpen, lPublished := True\<rparr>)))"

definition onIPCPUp :: "lnsEnv \<Rightarrow> lns \<Rightarrow> lns" where
  "onIPCPUp e s = checkSessionOpen e (s\<lparr>lIPv4 := Address (ipcpPeer (handler (lIPCP s))), lIPCPOpen := True\<rparr>)"

definition onIPCPDown :: "lns \<Rightarrow> lns" where
  "onIPCPDown s = s\<lparr>lIPCPOpen := False\<rparr>"

definition onIPv6CPUp :: "lnsEnv \<Rightarrow> lns \<Rightarrow> lns" where
  "onIPv6CPUp e s = checkSessionOpen e (s\<lparr>lIPv6CPOpen := True\<rparr>)"

definition onIPv6CPDown :: "lns \<Rightarrow> lns" where
  "onIPv6CPDown s = s\<lparr>lIPv6CPOpen := False\<rparr>"

text \<open>The callbacks of a call, in order, after the automaton has the value the call left.\<close>

fun ipcpAction :: "lnsEnv \<Rightarrow> lns \<Rightarrow> Action \<Rightarrow> lns" where
  "ipcpAction e s (ASend c i d) = sendPPPFrame e ProtoIPCP c i d s"
| "ipcpAction e s ALayerUp = onIPCPUp e s"
| "ipcpAction e s ALayerDown = onIPCPDown s"
| "ipcpAction e s _ = s"

fun ipv6cpAction :: "lnsEnv \<Rightarrow> lns \<Rightarrow> Action \<Rightarrow> lns" where
  "ipv6cpAction e s (ASend c i d) = sendPPPFrame e ProtoIPv6CP c i d s"
| "ipv6cpAction e s ALayerUp = onIPv6CPUp e s"
| "ipv6cpAction e s ALayerDown = onIPv6CPDown s"
| "ipv6cpAction e s _ = s"

definition newActions :: "'h FSM \<Rightarrow> 'h FSM \<Rightarrow> Action list" where
  "newActions f g = drop (length (out f)) (out g)"

definition ipcpCall :: "lnsEnv \<Rightarrow> IPCP FSM \<Rightarrow> lns \<Rightarrow> lns" where
  "ipcpCall e g s = foldl (ipcpAction e) (s\<lparr>lIPCP := g\<rparr>) (newActions (lIPCP s) g)"

definition ipv6cpCall :: "lnsEnv \<Rightarrow> IPv6CP FSM \<Rightarrow> lns \<Rightarrow> lns" where
  "ipv6cpCall e g s = foldl (ipv6cpAction e) (s\<lparr>lIPv6CP := g\<rparr>) (newActions (lIPv6CP s) g)"

subsection \<open>Addresses and the network protocols\<close>

definition allocateIPv4 :: "lns \<Rightarrow> lns" where
  "allocateIPv4 s = (case (lReg s, lCtx s) of
       (Some r, Some ctx) \<Rightarrow>
         (if ProfileName ctx = [] then s
          else (case AllocateFromProfile (ProfileName ctx) (PoolOverride ctx) (Context.VRF ctx) (lSessionID s) r of
              (Inl _, r') \<Rightarrow> s\<lparr>lReg := Some r'\<rparr>
            | (Inr (ip, pool), r') \<Rightarrow> s\<lparr>lReg := Some r', lIPv4 := ip, lPool := pool, lCtx := Some (ctx\<lparr>AllocatedPool := pool\<rparr>)\<rparr>))
     | _ \<Rightarrow> s)"

definition allocateIANA :: "lns \<Rightarrow> lns" where
  "allocateIANA s = (case (lReg s, lCtx s) of
       (Some r, Some ctx) \<Rightarrow>
         (if IPv6ProfileName ctx = [] then s
          else (case AllocateIANAFromProfile (IPv6ProfileName ctx) (IANAPoolOverride ctx) (Context.VRF ctx) (lSessionID s) r of
              (Inl _, r') \<Rightarrow> s\<lparr>lReg := Some r'\<rparr>
            | (Inr (ip, pool), r') \<Rightarrow> s\<lparr>lReg := Some r', lIPv6 := ip, lIANAPool := pool, lCtx := Some (ctx\<lparr>AllocatedIANAPool := pool\<rparr>)\<rparr>))
     | _ \<Rightarrow> s)"

definition allocatePD :: "lns \<Rightarrow> lns" where
  "allocatePD s = (case (lReg s, lCtx s) of
       (Some r, Some ctx) \<Rightarrow>
         (if IPv6ProfileName ctx = [] then s
          else (case AllocatePDFromProfile (IPv6ProfileName ctx) (PDPoolOverride ctx) (Context.VRF ctx) (lSessionID s) r of
              (Inl _, r') \<Rightarrow> s\<lparr>lReg := Some r'\<rparr>
            | (Inr (p, pool), r') \<Rightarrow> s\<lparr>lReg := Some r', lPrefix := p, lPDPool := pool, lCtx := Some (ctx\<lparr>AllocatedPDPool := pool\<rparr>)\<rparr>))
     | _ \<Rightarrow> s)"

definition setIPCP :: "(IPCP \<Rightarrow> IPCP) \<Rightarrow> lns \<Rightarrow> lns" where
  "setIPCP f s = s\<lparr>lIPCP := (lIPCP s)\<lparr>handler := f (handler (lIPCP s))\<rparr>\<rparr>"

definition dnsAt :: "nat \<Rightarrow> string list \<Rightarrow> bytes" where
  "dnsAt i ds = (if i < length ds then ipOrNil (ParseIP (ds ! i)) else [])"

definition applyIPv4ProfileToIPCP :: "lnsEnv \<Rightarrow> lns \<Rightarrow> lns" where
  "applyIPv4ProfileToIPCP e s = (case lCtx s of None \<Rightarrow> s | Some ctx \<Rightarrow>
     if ProfileName ctx = [] then s
     else (case eProfiles e (ProfileName ctx) of None \<Rightarrow> s | Some (gateway, dns) \<Rightarrow>
       (let s = (case ParseIP gateway of None \<Rightarrow> s | Some gw \<Rightarrow> setIPCP (ipcp_SetAddress gw) s);
            dns1 = dnsAt 0 dns; dns2 = dnsAt 1 dns
        in if dns1 \<noteq> [] \<or> dns2 \<noteq> [] then setIPCP (ipcp_SetDNS dns1 dns2) s else s)))"

definition startNCP :: "lnsEnv \<Rightarrow> lns \<Rightarrow> lns" where
  "startNCP e s =
     (let s = (if lIPv4 s = [] then allocateIPv4 s else s);
          s = (if lIPv6 s = [] then allocateIANA s else s);
          s = (if lPrefix s = None then allocatePD s else s);
          s = (if lIPv4 s \<noteq> [] then setIPCP (ipcp_SetPeerAddress (lIPv4 s)) s else s);
          s = applyIPv4ProfileToIPCP e s;
          s = (case lAttrs s ''dns_primary'' of None \<Rightarrow> s
            | Some d1 \<Rightarrow> setIPCP (ipcp_SetDNS (ipOrNil (ParseIP d1))
                (case lAttrs s ''dns_secondary'' of None \<Rightarrow> [] | Some d2 \<Rightarrow> ipOrNil (ParseIP d2))) s);
          s = ipcpCall e (Up ipcp_handler (lIPCP s)) s;
          s = ipcpCall e (Open ipcp_handler (lIPCP s)) s;
          s = ipv6cpCall e (Up ipv6cp_handler (lIPv6CP s)) s
      in ipv6cpCall e (Open ipv6cp_handler (lIPv6CP s)) s)"

subsection \<open>LCP and authentication\<close>

definition sendCHAPChallenge :: "lnsEnv \<Rightarrow> lns \<Rightarrow> lns" where
  "sendCHAPChallenge e s =
     (let s = s\<lparr>lChallenge := eChallenge e, lChapID := lChapID s + 1\<rparr>;
          s = sendAuth e ProtoCHAP (SendChallenge (lChapID s) (lChallenge s) (eHostname e)) s
      in s\<lparr>lTimer := True\<rparr>)"

definition startCHAPAuth :: "lnsEnv \<Rightarrow> lns \<Rightarrow> lns" where
  "startCHAPAuth e s = sendCHAPChallenge e (s\<lparr>lRetries := 0\<rparr>)"

definition onLCPUp :: "lnsEnv \<Rightarrow> lns \<Rightarrow> lns" where
  "onLCPUp e s =
     (let cfg = lcpLocal (handler (lLCP s)); s = s\<lparr>lMagic := Magic cfg\<rparr> in
      if WantAuth cfg then startCHAPAuth e (s\<lparr>lPhase := PhaseAuthenticate\<rparr>)
      else startNCP e (s\<lparr>lPhase := PhaseNetwork\<rparr>))"

definition onLCPDown :: "lns \<Rightarrow> lns" where
  "onLCPDown s = s\<lparr>lPhase := PhaseEstablish\<rparr>"

fun lcpAction :: "lnsEnv \<Rightarrow> lns \<Rightarrow> Action \<Rightarrow> lns" where
  "lcpAction e s (ASend c i d) = sendPPPFrame e ProtoLCP c i d s"
| "lcpAction e s ALayerUp = onLCPUp e s"
| "lcpAction e s ALayerDown = onLCPDown s"
| "lcpAction e s _ = s"

definition lcpCall :: "lnsEnv \<Rightarrow> LCP FSM \<Rightarrow> lns \<Rightarrow> lns" where
  "lcpCall e g s = foldl (lcpAction e) (s\<lparr>lLCP := g\<rparr>) (newActions (lLCP s) g)"

definition chapMaxRetries :: int where
  "chapMaxRetries = 10"

definition handleCHAPTimeout :: "lnsEnv \<Rightarrow> lns \<Rightarrow> lns" where
  "handleCHAPTimeout e s =
     (if lPhase s \<noteq> PhaseAuthenticate then s
      else (let s = s\<lparr>lRetries := lRetries s + 1\<rparr> in
        if chapMaxRetries \<le> lRetries s then lcpCall e (Close (lLCP s)) s
        else sendCHAPChallenge e s))"

text \<open>The first group in the order of the map that has the access type.\<close>

definition resolveLNSSubscriberGroup :: "lnsEnv \<Rightarrow> subGroup option" where
  "resolveLNSSubscriberGroup e = (case find (\<lambda>g. case g of None \<Rightarrow> False | Some u \<Rightarrow> ugAccessLNS u) (eGroups e) of
     Some g \<Rightarrow> g | None \<Rightarrow> None)"

definition publishAAARequest :: "lnsEnv \<Rightarrow> (string \<times> string) list \<Rightarrow> lns \<Rightarrow> lns" where
  "publishAAARequest e attrs s =
     (if \<not> eBus e then s
      else (let s = s\<lparr>lPendingID := eRequestID e\<rparr>;
                policy = (case resolveLNSSubscriberGroup e of None \<Rightarrow> [] | Some u \<Rightarrow> ugAAAPolicy u);
                s = (if lAcctID s = [] then s\<lparr>lAcctID := eAcctID e\<rparr> else s)
            in lnsEmit [OAAARequest (eRequestID e) (lUser s) policy attrs] s))"

text \<open>\<^verbatim>\<open>hex.EncodeToString\<close>, and a Go string of arbitrary bytes.\<close>

definition hexDigit :: "nat \<Rightarrow> char" where
  "hexDigit n = (if n < 10 then char_of (48 + n) else char_of (87 + n))"

definition hexEncode :: "bytes \<Rightarrow> string" where
  "hexEncode bs = concat (map (\<lambda>b. [hexDigit (unat b div 16), hexDigit (unat b mod 16)]) bs)"

definition asString :: "bytes \<Rightarrow> string" where
  "asString bs = map (\<lambda>b. char_of (unat b)) bs"

definition handleCHAPPacket :: "lnsEnv \<Rightarrow> byte \<Rightarrow> byte \<Rightarrow> bytes \<Rightarrow> lns \<Rightarrow> lns" where
  "handleCHAPPacket e code i data s =
     (if lPhase s \<noteq> PhaseAuthenticate then s
      else if code \<noteq> CHAPResponse then s
      else (let s = s\<lparr>lTimer := False\<rparr> in
        if length data < 1 then s
        else (let valueLen = unat (data ! 0) in
          if length data < 1 + valueLen then s
          else (let response = take valueLen (drop 1 data) in
            publishAAARequest e
              [(''chap-id'', hexEncode [i]), (''chap-challenge'', hexEncode (lChallenge s)), (''chap-response'', hexEncode response)]
              (s\<lparr>lUser := drop (1 + valueLen) data, lPendingType := ''chap'', lPendingCHAP := i\<rparr>)))))"

definition handlePAPPacket :: "lnsEnv \<Rightarrow> byte \<Rightarrow> byte \<Rightarrow> bytes \<Rightarrow> lns \<Rightarrow> lns" where
  "handlePAPPacket e code i data s =
     (if lPhase s \<noteq> PhaseAuthenticate then s
      else if code \<noteq> PAPAuthReq then s
      else if length data < 2 then s
      else (let userLen = unat (data ! 0) in
        if length data < 1 + userLen + 1 then s
        else (let passLen = unat (data ! (1 + userLen)) in
          if length data < 2 + userLen + passLen then s
          else publishAAARequest e [(''password'', asString (take passLen (drop (2 + userLen) data)))]
              (s\<lparr>lUser := take userLen (drop 1 data), lPendingType := ''pap'', lPendingPAP := i\<rparr>))))"

definition extractIPFromAttributes :: "lns \<Rightarrow> lns" where
  "extractIPFromAttributes s =
     (let s = (case lAttrs s ''ipv4_address'' of None \<Rightarrow> s | Some t \<Rightarrow> (case ParseIP t of None \<Rightarrow> s | Some ip \<Rightarrow> s\<lparr>lIPv4 := ip\<rparr>));
          s = (case lAttrs s ''ipv6_address'' of None \<Rightarrow> s | Some t \<Rightarrow> (case ParseIP t of None \<Rightarrow> s | Some ip \<Rightarrow> s\<lparr>lIPv6 := ip\<rparr>))
      in (case lAttrs s ''ipv6_prefix'' of None \<Rightarrow> s | Some t \<Rightarrow> (case ParseCIDR t of None \<Rightarrow> s | Some (_, n) \<Rightarrow> s\<lparr>lPrefix := Some n\<rparr>)))"

definition resolveServiceGroup :: "lnsEnv \<Rightarrow> (string \<rightharpoonup> attrVal) \<Rightarrow> lns \<Rightarrow> lns" where
  "resolveServiceGroup e attrs s = (case eResolver e of None \<Rightarrow> s
     | Some groups \<Rightarrow>
        (let name = (case attrs ''service-group'' of Some (VStr n) \<Rightarrow> n | _ \<Rightarrow> []);
             dflt = (case resolveLNSSubscriberGroup e of None \<Rightarrow> [] | Some u \<Rightarrow> ugDefaultServiceGroup u);
             g = Resolve groups name dflt attrs
         in s\<lparr>lGroup := g, lVRF := sgVRF g\<rparr>))"

fun attrOf :: "attrVal \<Rightarrow> attr" where
  "attrOf (VStr s) = AStr s"
| "attrOf _ = AOther"

definition buildAllocContext :: "lnsEnv \<Rightarrow> (string \<rightharpoonup> attrVal) \<Rightarrow> lns \<Rightarrow> Context" where
  "buildAllocContext e attrs s =
     (let u = resolveLNSSubscriberGroup e;
          v4 = (case u of None \<Rightarrow> [] | Some u \<Rightarrow> ugIPv4Profile u);
          v6 = (case u of None \<Rightarrow> [] | Some u \<Rightarrow> ugIPv6Profile u);
          ctx = NewContext (lSessionID s) [] 0 0 (lVRF s) (sgName (lGroup s)) v4 v6 (map_option attrOf \<circ> attrs)
      in ctx\<lparr>PoolOverride := over (PoolOverride ctx) (sgPool (lGroup s)),
             IANAPoolOverride := over (IANAPoolOverride ctx) (sgIANAPool (lGroup s)),
             PDPoolOverride := over (PDPoolOverride ctx) (sgPDPool (lGroup s))\<rparr>)"

definition onAuthResult :: "lnsEnv \<Rightarrow> bool \<Rightarrow> (string \<rightharpoonup> attrVal) \<Rightarrow> lns \<Rightarrow> lns" where
  "onAuthResult e allowed attrs s =
     (let s = (if allowed then
        (let s = s\<lparr>lAttrs := (\<lambda>k. case attrs k of Some (VStr v) \<Rightarrow> Some v | _ \<Rightarrow> lAttrs s k)\<rparr>;
             s = resolveServiceGroup e attrs (extractIPFromAttributes s);
             s = s\<lparr>lCtx := Some (buildAllocContext e attrs s)\<rparr>;
             s = (if lPendingType s = ''pap'' then sendAuth e ProtoPAP (sendAuthAck (lPendingPAP s) (go_string ''Login OK'')) s
                  else if lPendingType s = ''chap'' then sendAuth e ProtoCHAP (sendSuccess (lPendingCHAP s) (go_string ''Welcome'')) s
                  else s)
         in startNCP e (s\<lparr>lPhase := PhaseNetwork\<rparr>))
      else
        (let s = (if lPendingType s = ''pap'' then sendAuth e ProtoPAP (sendAuthNak (lPendingPAP s) (go_string ''Authentication failed'')) s
                  else if lPendingType s = ''chap'' then sendAuth e ProtoCHAP (sendFailure (lPendingCHAP s) (go_string ''Authentication failed'')) s
                  else s)
         in lcpCall e (Close (lLCP s)) s))
      in s\<lparr>lPendingType := [], lPendingID := []\<rparr>)"

definition handleAAAResponse :: "lnsEnv \<Rightarrow> string \<Rightarrow> bool \<Rightarrow> (string \<rightharpoonup> attrVal) \<Rightarrow> lns \<Rightarrow> lns" where
  "handleAAAResponse e rid allowed attrs s = (if lPendingID s \<noteq> rid then s else onAuthResult e allowed attrs s)"

subsection \<open>Frames in, and the run of a session\<close>

definition initSessionPPP :: "lnsEnv \<Rightarrow> u32 \<Rightarrow> (nat \<Rightarrow> bytes) \<Rightarrow> lns \<Rightarrow> lns" where
  "initSessionPPP e magic rnd s =
     (let cb = \<lparr>cbSend = True, cbLayerUp = True, cbLayerDown = True, cbLayerStarted = False, cbLayerFinished = False\<rparr>;
          s = s\<lparr>lLCP := NewFSM ProtoLCP cb (lcp_SetAuthProto ProtoCHAP CHAPMD5 (NewLCP magic)),
                lIPCP := NewFSM ProtoIPCP cb NewIPCP, lIPv6CP := NewFSM ProtoIPv6CP cb (NewIPv6CP rnd),
                lPhase := PhaseEstablish\<rparr>;
          s = lcpCall e (Up lcp_handler (lLCP s)) s
      in lcpCall e (Open lcp_handler (lLCP s)) s)"

definition onEchoReq :: "lnsEnv \<Rightarrow> byte \<Rightarrow> bytes \<Rightarrow> lns \<Rightarrow> lns" where
  "onEchoReq e i data s =
     (if lPhase s \<noteq> PhaseOpen \<and> lPhase s \<noteq> PhaseNetwork then s
      else sendPPPFrame e ProtoLCP EchoRep i
        (put32 (Magic (lcpLocal (handler (lLCP s)))) @ (if 4 < length data then drop 4 data else [])) s)"

definition onProtocolReject :: "lnsEnv \<Rightarrow> u16 \<Rightarrow> lns \<Rightarrow> lns" where
  "onProtocolReject e p s =
     (if p = ProtoIPCP then ipcpCall e (Close (lIPCP s)) s
      else if p = ProtoIPv6CP then ipv6cpCall e (Close (lIPv6CP s)) s else s)"

fun hostCall :: "lnsEnv \<Rightarrow> lns \<Rightarrow> host_call \<Rightarrow> lns" where
  "hostCall e s (HPAP c i d) = handlePAPPacket e c i d s"
| "hostCall e s (HCHAP c i d) = handleCHAPPacket e c i d s"
| "hostCall e s (HEchoReq i d) = onEchoReq e i d s"
| "hostCall e s (HProtocolReject p) = onProtocolReject e p s"
| "hostCall e s _ = s"

definition pppDispatcher :: "lns \<Rightarrow> unit Dispatcher" where
  "pppDispatcher s = \<lparr>dLCP = Some (lLCP s), dIPCP = Some (lIPCP s), dIPv6CP = Some (lIPv6CP s), PhaseFn = Some (lPhase s),
     HandlePAP = Some (\<lambda>_ _ _. None), HandleCHAP = Some (\<lambda>_ _ _. None), OnEchoReq = True, OnEchoRep = False,
     OnProtocolReject = True, SendProtocolReject = False, HandleIPv6 = None\<rparr>"

datatype ppp_frame_error = PPPFrameShort | FrameError | FramePanics | FrameNeverReturns

definition dispatchPPPFrame :: "lnsEnv \<Rightarrow> bytes \<Rightarrow> lns \<Rightarrow> ppp_frame_error + lns" where
  "dispatchPPPFrame e frame s =
     (let frame = (if 2 \<le> length frame \<and> frame ! 0 = 0xff \<and> frame ! 1 = 0x03 then drop 2 frame else frame) in
      if length frame < 2 then Inl PPPFrameShort
      else (let p = get16 frame in
        if p = 0x0021 \<or> p = ProtoIPv6 then Inr s
        else (case HandleFrame (pppDispatcher s) p (drop 2 frame) of
            FrameDone d calls _ \<Rightarrow>
              (let s = (if p = ProtoLCP then lcpCall e (the (dLCP d)) s
                        else if p = ProtoIPCP then ipcpCall e (the (dIPCP d)) s
                        else if p = ProtoIPv6CP then ipv6cpCall e (the (dIPv6CP d)) s else s)
               in Inr (foldl (hostCall e) s calls))
          | FramePanic \<Rightarrow> Inl FramePanics
          | FrameLoops \<Rightarrow> Inl FrameNeverReturns
          | _ \<Rightarrow> Inl FrameError)))"

text \<open>
  What can happen to a session: a frame, an answer of AAA, the timers. The CHAP timer may also run after it was
  stopped, when it waited for the lock. \<open>None\<close> is a call that panics or never returns.
\<close>

datatype lnsEvent = EvFrame bytes | EvAAA string bool "string \<rightharpoonup> attrVal" | EvChapTimer | EvLCPTimer | EvIPCPTimer | EvIPv6CPTimer

fun lnsStep :: "lnsEnv \<times> lnsEvent \<Rightarrow> lns \<Rightarrow> lns option" where
  "lnsStep (e, EvFrame b) s = (case dispatchPPPFrame e b s of Inr s' \<Rightarrow> Some s'
     | Inl FramePanics \<Rightarrow> None | Inl FrameNeverReturns \<Rightarrow> None | Inl _ \<Rightarrow> Some s)"
| "lnsStep (e, EvAAA rid ok attrs) s = Some (handleAAAResponse e rid ok attrs s)"
| "lnsStep (e, EvChapTimer) s = Some (handleCHAPTimeout e s)"
| "lnsStep (e, EvLCPTimer) s = Some (lcpCall e (TimerFire lcp_handler (lLCP s)) s)"
| "lnsStep (e, EvIPCPTimer) s = Some (ipcpCall e (TimerFire ipcp_handler (lIPCP s)) s)"
| "lnsStep (e, EvIPv6CPTimer) s = Some (ipv6cpCall e (TimerFire ipv6cp_handler (lIPv6CP s)) s)"

fun lnsRun :: "(lnsEnv \<times> lnsEvent) list \<Rightarrow> lns \<Rightarrow> lns option" where
  "lnsRun [] s = Some s"
| "lnsRun (ev # evs) s = (case lnsStep ev s of None \<Rightarrow> None | Some s' \<Rightarrow> lnsRun evs s')"

subsection \<open>Nothing before AAA accepts\<close>

text \<open>
  The effects that put a subscriber on the network, and the state of a session that AAA has not accepted: LCP still
  wants authentication, the phase is before the network phase, both network protocols are as they were created, the
  registry is untouched, nothing is programmed, and a pending request identifier belongs to a published request.
\<close>

fun isService :: "lnsOut \<Rightarrow> bool" where
  "isService (OFrame _ _) = False"
| "isService (OAAARequest _ _ _ _) = False"
| "isService _ = True"

definition unauthenticated :: "Registry option \<Rightarrow> lns \<Rightarrow> bool" where
  "unauthenticated r s \<longleftrightarrow> WantAuth (lcpLocal (handler (lLCP s)))
     \<and> (lPhase s = PhaseEstablish \<or> lPhase s = PhaseAuthenticate)
     \<and> fstate (lIPCP s) = Initial \<and> timer (lIPCP s) = NoTimer
     \<and> fstate (lIPv6CP s) = Initial \<and> timer (lIPv6CP s) = NoTimer
     \<and> lReg s = r \<and> (\<forall>x\<in>set (lOut s). \<not> isService x)
     \<and> (lPendingID s \<noteq> [] \<longrightarrow> (\<exists>u p a. OAAARequest (lPendingID s) u p a \<in> set (lOut s)))"

lemma unauth_emit [simp]:
  "unauthenticated r s \<Longrightarrow> unauthenticated r (sendPPPFrame e p c i d s)"
  by (auto simp: unauthenticated_def sendPPPFrame_def lnsEmit_def)

lemma unauth_sendAuth [simp]: "unauthenticated r s \<Longrightarrow> unauthenticated r (sendAuth e p as s)"
  by (induction e p as s rule: sendAuth.induct) auto

lemma unauth_challenge: "unauthenticated r s \<Longrightarrow> unauthenticated r (sendCHAPChallenge e s)"
proof -
  assume "unauthenticated r s"
  then have "unauthenticated r (s\<lparr>lChallenge := eChallenge e, lChapID := lChapID s + 1\<rparr>)"
    by (simp add: unauthenticated_def)
  then have "unauthenticated r (sendAuth e ProtoCHAP (SendChallenge (lChapID s + 1) (eChallenge e) (eHostname e))
      (s\<lparr>lChallenge := eChallenge e, lChapID := lChapID s + 1\<rparr>))" by (rule unauth_sendAuth)
  then show ?thesis by (simp add: sendCHAPChallenge_def unauthenticated_def)
qed

lemma unauth_lcpAction: "unauthenticated r s \<Longrightarrow> unauthenticated r (lcpAction e s a)"
proof (cases a)
  case ALayerUp
  assume s: "unauthenticated r s"
  then have "unauthenticated r (s\<lparr>lMagic := m, lPhase := PhaseAuthenticate, lRetries := 0\<rparr>)" for m
    by (simp add: unauthenticated_def)
  from unauth_challenge [OF this] s ALayerUp show ?thesis
    by (simp add: onLCPUp_def Let_def startCHAPAuth_def unauthenticated_def [of r s])
qed (auto simp: onLCPDown_def unauthenticated_def [of r "lPhase_update _ _"] unauthenticated_def [of r s] unauth_emit)

lemma unauth_lcpCall:
  assumes "unauthenticated r s" "handler_step lcp_handler (handler (lLCP s)) (handler g)"
  shows "unauthenticated r (lcpCall e g s)"
proof -
  have "WantAuth (lcpLocal (handler g))"
    using assms by (auto simp: unauthenticated_def elim!: handler_step.cases dest!: lcp_ProcessConfReq_local)
  then have "unauthenticated r (s\<lparr>lLCP := g\<rparr>)" using assms(1) by (simp add: unauthenticated_def)
  then show ?thesis unfolding lcpCall_def
    by (rule foldl_invariant [where P = "unauthenticated r"]) (rule unauth_lcpAction)
qed

lemma newActions_same [simp]: "newActions f f = []"
  by (simp add: newActions_def)

lemma ncpCall_same [simp]: "ipcpCall e (lIPCP s) s = s" "ipv6cpCall e (lIPv6CP s) s = s"
  by (simp_all add: ipcpCall_def ipv6cpCall_def)

lemma lcp_call_step:
  "handler_step lcp_handler (handler f) (handler (Up lcp_handler f))"
  "handler_step lcp_handler (handler f) (handler (Open lcp_handler f))"
  "handler_step lcp_handler (handler f) (handler (Close f))"
  "handler_step lcp_handler (handler f) (handler (TimerFire lcp_handler f))"
  using fsm_call_handler_step [of lcp_handler CUp f] fsm_call_handler_step [of lcp_handler COpen f]
    fsm_call_handler_step [of lcp_handler CClose f] fsm_call_handler_step [of lcp_handler CTimer f] by simp_all

lemma unauth_publish:
  "unauthenticated r s \<Longrightarrow> unauthenticated r (publishAAARequest e attrs s)"
  by (auto simp: publishAAARequest_def Let_def lnsEmit_def unauthenticated_def)

lemma unauth_fields:
  "unauthenticated r (s\<lparr>lTimer := t\<rparr>) = unauthenticated r s"
  "unauthenticated r (s\<lparr>lRetries := n\<rparr>) = unauthenticated r s"
  "unauthenticated r (s\<lparr>lUser := u, lPendingType := ty, lPendingCHAP := i\<rparr>) = unauthenticated r s"
  "unauthenticated r (s\<lparr>lUser := u, lPendingType := ty, lPendingPAP := i\<rparr>) = unauthenticated r s"
  by (simp_all add: unauthenticated_def)

lemma unauth_CHAP: "unauthenticated r s \<Longrightarrow> unauthenticated r (handleCHAPPacket e c i d s)"
  by (auto simp: handleCHAPPacket_def Let_def unauth_fields intro!: unauth_publish)

lemma unauth_PAP: "unauthenticated r s \<Longrightarrow> unauthenticated r (handlePAPPacket e c i d s)"
  by (auto simp: handlePAPPacket_def Let_def unauth_fields intro!: unauth_publish)

lemma unauth_phase: "unauthenticated r s \<Longrightarrow> lPhase s \<noteq> PhaseOpen \<and> lPhase s \<noteq> PhaseNetwork"
  by (auto simp: unauthenticated_def)

lemma unauth_ncp:
  assumes "unauthenticated r s"
  shows "Close (lIPCP s) = lIPCP s" "Close (lIPv6CP s) = lIPv6CP s"
    "TimerFire ipcp_handler (lIPCP s) = lIPCP s" "TimerFire ipv6cp_handler (lIPv6CP s) = lIPv6CP s"
  using assms by (simp_all add: unauthenticated_def Close_def TimerFire_def)

lemma unauth_hostCall: "unauthenticated r s \<Longrightarrow> unauthenticated r (hostCall e s h)"
  using unauth_phase [of r s] unauth_ncp [of r s]
  by (cases h) (auto simp: onEchoReq_def onProtocolReject_def unauth_CHAP unauth_PAP)

lemma HandleFrame_LCP_step:
  assumes "HandleFrame d p payload = FrameDone d' calls err" "dLCP d = Some f"
  shows "\<exists>g. dLCP d' = Some g \<and> handler_step lcp_handler (handler f) (handler g)"
  using assms fsm_call_handler_step [of lcp_handler "CInput _ _ _" f]
  by (auto simp: HandleFrame_def routeFrame_def handleLCP_def Let_def hs_same split: if_splits option.splits)

lemma unauth_frame:
  assumes "unauthenticated r s" "dispatchPPPFrame e b s = Inr s'"
  shows "unauthenticated r s'"
proof -
  let ?d = "pppDispatcher s"
  have fin: "unauthenticated r (foldl (hostCall e) t calls)" if "unauthenticated r t" for t calls
    by (rule foldl_invariant [where P = "unauthenticated r"]) (simp_all add: that unauth_hostCall)
  have gate: "\<not> inNetworkPhase ?d"
    using unauth_phase [OF assms(1)] by (simp add: inNetworkPhase_def pppDispatcher_def)
  from assms(2) consider "s' = s"
    | d' calls err p q where "HandleFrame ?d p q = FrameDone d' calls err"
      "s' = foldl (hostCall e) (if p = ProtoLCP then lcpCall e (the (dLCP d')) s
         else if p = ProtoIPCP then ipcpCall e (the (dIPCP d')) s
         else if p = ProtoIPv6CP then ipv6cpCall e (the (dIPv6CP d')) s else s) calls"
    by (auto simp: dispatchPPPFrame_def Let_def split: if_splits frame_result.splits)
  then show ?thesis
  proof cases
    case (2 d' calls err p q)
    obtain g where g: "dLCP d' = Some g" "handler_step lcp_handler (handler (lLCP s)) (handler g)"
      using HandleFrame_LCP_step [OF 2(1)] by (auto simp: pppDispatcher_def)
    have "dIPCP d' = Some (lIPCP s)" "dIPv6CP d' = Some (lIPv6CP s)"
      using HandleFrame_gated [OF 2(1) gate] by (simp_all add: pppDispatcher_def)
    then show ?thesis unfolding 2(2) using assms(1) g by (intro fin) (simp add: unauth_lcpCall)
  qed (use assms(1) in simp)
qed

lemma unauth_reject: "unauthenticated r s \<Longrightarrow> unauthenticated r (onAuthResult e False attrs s)"
proof -
  assume s: "unauthenticated r s"
  let ?t = "if lPendingType s = ''pap'' then sendAuth e ProtoPAP (sendAuthNak (lPendingPAP s) (go_string ''Authentication failed'')) s
    else if lPendingType s = ''chap'' then sendAuth e ProtoCHAP (sendFailure (lPendingCHAP s) (go_string ''Authentication failed'')) s
    else s"
  have "unauthenticated r ?t" using s by simp
  from unauth_lcpCall [OF this lcp_call_step(3)] show ?thesis
    by (simp add: onAuthResult_def Let_def unauthenticated_def)
qed

text \<open>Every step but the acceptance of the pending request keeps an unauthenticated session unauthenticated.\<close>

lemma unauth_step:
  assumes "unauthenticated r s" "lnsStep (e, ev) s = Some s'" "\<And>attrs. ev \<noteq> EvAAA (lPendingID s) True attrs"
  shows "unauthenticated r s'"
proof (cases ev)
  case (EvFrame b)
  with assms show ?thesis using unauth_frame by (auto split: sum.splits ppp_frame_error.splits)
next
  case (EvAAA rid ok attrs)
  with assms(1,2) assms(3) [of attrs] show ?thesis by (cases ok) (auto simp: handleAAAResponse_def unauth_reject)
next
  case EvChapTimer
  from assms(1) have c: "unauthenticated r (s\<lparr>lRetries := n\<rparr>)" for n by (simp add: unauth_fields)
  from EvChapTimer assms(2) show ?thesis
    using unauth_challenge [OF c] unauth_lcpCall [OF c, where g = "Close (lLCP s)"] lcp_call_step(3) [of "lLCP s"] assms(1)
    by (auto simp: handleCHAPTimeout_def Let_def split: if_splits)
next
  case EvLCPTimer
  with assms show ?thesis using unauth_lcpCall [OF assms(1) lcp_call_step(4)] by auto
qed (use assms unauth_ncp [OF assms(1)] in simp_all)

lemma unauth_init:
  assumes "lPendingID s = []" "lOut s = []"
  shows "unauthenticated (lReg s) (initSessionPPP e magic rnd s)"
proof -
  let ?cb = "\<lparr>cbSend = True, cbLayerUp = True, cbLayerDown = True, cbLayerStarted = False, cbLayerFinished = False\<rparr>"
  let ?s = "s\<lparr>lLCP := NewFSM ProtoLCP ?cb (lcp_SetAuthProto ProtoCHAP CHAPMD5 (NewLCP magic)),
    lIPCP := NewFSM ProtoIPCP ?cb NewIPCP, lIPv6CP := NewFSM ProtoIPv6CP ?cb (NewIPv6CP rnd), lPhase := PhaseEstablish\<rparr>"
  have "unauthenticated (lReg s) ?s"
    using assms by (simp add: unauthenticated_def NewFSM_def lcp_SetAuthProto_def)
  from unauth_lcpCall [OF unauth_lcpCall [OF this lcp_call_step(1)] lcp_call_step(2)] show ?thesis
    unfolding initSessionPPP_def Let_def .
qed

text \<open>
  A run that leaves the unauthenticated states contains the acceptance of a request which the session had published
  and was waiting for.
\<close>

fun named :: "lnsEvent \<Rightarrow> bool" where
  "named (EvAAA rid _ _) \<longleftrightarrow> rid \<noteq> []"
| "named _ \<longleftrightarrow> True"

lemma lnsRun_accept:
  assumes "unauthenticated r s" "lnsRun evs s = Some s'" "\<not> unauthenticated r s'"
    "list_all (\<lambda>x. named (snd x)) evs"
  shows "\<exists>evs1 e rid attrs evs2 s1 u p a. evs = evs1 @ (e, EvAAA rid True attrs) # evs2 \<and> lnsRun evs1 s = Some s1
    \<and> unauthenticated r s1 \<and> lPendingID s1 = rid \<and> OAAARequest rid u p a \<in> set (lOut s1)"
  using assms
proof (induction evs arbitrary: s)
  case (Cons ev evs)
  obtain e v where ev: "ev = (e, v)" by (cases ev)
  from Cons.prems(2) obtain t where t: "lnsStep ev s = Some t" "lnsRun evs t = Some s'" by (auto split: option.splits)
  show ?case
  proof (cases "\<exists>attrs. v = EvAAA (lPendingID s) True attrs")
    case True
    then obtain attrs where v: "v = EvAAA (lPendingID s) True attrs" by blast
    then have "lPendingID s \<noteq> []" using Cons.prems(4) ev by simp
    then obtain u p a where "OAAARequest (lPendingID s) u p a \<in> set (lOut s)"
      using Cons.prems(1) by (auto simp: unauthenticated_def)
    then show ?thesis using Cons.prems(1) ev v by (intro exI [of _ "[]"] exI) auto
  next
    case False
    then have u: "unauthenticated r t" using unauth_step [OF Cons.prems(1)] t(1) ev by blast
    have ne: "list_all (\<lambda>x. named (snd x)) evs" using Cons.prems(4) by simp
    from Cons.IH [OF u t(2) Cons.prems(3) ne] obtain evs1 e' rid attrs evs2 s1 u p a where
      *: "evs = evs1 @ (e', EvAAA rid True attrs) # evs2" "lnsRun evs1 t = Some s1" "unauthenticated r s1"
        "lPendingID s1 = rid" "OAAARequest rid u p a \<in> set (lOut s1)" by blast
    then have "ev # evs = (ev # evs1) @ (e', EvAAA rid True attrs) # evs2" "lnsRun (ev # evs1) s = Some s1"
      using t(1) by simp_all
    with *(3-5) show ?thesis by blast
  qed
qed simp

end
