(* ===== verification/L2TP_Component.thy ===== *)
theory L2TP_Component
  imports LNS_Session L2TP_Messages L2TP_Channel L2TP_State
begin

section \<open>The L2TP component\<close>

text \<open>
  \<^verbatim>\<open>internal/l2tp\<close>: the tunnels of the gateway as LNS and as LAC, from the packets of the punt channel down to the
  reliable channel of each tunnel and the PPP stack of each session.
  \<^item> Tunnels are objects: \<open>cHeap\<close> maps addresses to tunnels, the tables of the component hold addresses. A tunnel that
    left the tables lives on while its runner does (\<open>tuRunning\<close>).
  \<^item> Both UDP ports are always 1701 and are left out; locks are left out, each handler is one step.
  \<^item> What a call takes from outside is in the record \<open>l2Env\<close>: the time, random bytes, the answers of the dataplane, which
    optional parts are wired, the configuration. A challenge is \<open>None\<close> when the random source fails; one call may
    draw several, by the position of the candidate. \<open>vLinkFails\<close> says which transmissions of a channel fail.
  \<^item> The allocator registry is the component's, \<open>cReg\<close>; a session holds it while it runs. The timers of a session that
    was removed from its tunnel are left out: they only send frames.
  \<^item> A handler returns its error, if any, and the state it leaves; a Go panic is the error \<open>Panic\<close>.
\<close>

subsection \<open>State\<close>

type_synonym tunnelKey = "bytes \<times> u16"

record l2Session =
  ssSessionID :: string
  ssLocalID :: u16
  ssPeerID :: u16
  ssRole :: SessionRole
  ssFSM :: SessionFSM
  ssPPP :: "lns option"
  ssUsername :: bytes
  ssSwIf :: u32
  ssProgrammed :: bool
  ssPPPoEID :: u16
  ssPPPoESwIf :: u32

record l2Tunnel =
  tuLocalIP :: bytes
  tuPeerIP :: bytes
  tuLocalID :: u16
  tuPeerID :: u16
  tuRole :: TunnelRole
  tuFSM :: TunnelFSM
  tuChannel :: "ControlChannel option"
  tuLocalHostname :: bytes
  tuPeerHostname :: bytes
  tuSecret :: bytes
  tuChallenge :: bytes
  tuSessions :: "u16 \<rightharpoonup> l2Session"
  tuHello :: time
  tuHdrSkip :: byte
  tuRefCount :: int
  tuInstalled :: bool
  tuRunning :: bool

record LNSConfig =
  lcLocalHostname :: bytes
  lcVendorName :: bytes
  lcWindow :: u16
  lcSecret :: bytes
  lcChallengeRequired :: bool
  lcHello :: time
  lcHdrSkip :: byte

record TunnelSpec =
  spTag :: byte
  spServerIP :: bytes
  spClientIP :: bytes
  spPassword :: string
  spAssignmentID :: string
  spPreference :: u16
  spClientAuthID :: string
  spServerAuthID :: string
  spHdrSkip :: byte

record LACRequest =
  lqPPPoEID :: u16
  lqUsername :: bytes
  lqSpecs :: "TunnelSpec list"
  lqLocalName :: bytes
  lqLocalIP :: bytes
  lqPPPoESwIf :: u32
  lqEncapIf :: u32
  lqLastSent :: bytes
  lqLastReceived :: bytes
  lqAuthenType :: u16
  lqAuthenName :: bytes
  lqAuthenChallenge :: bytes
  lqAuthenResponse :: bytes

datatype vppCall =
    AddL2TPTunnel bytes bytes u16 u16
  | DeleteL2TPTunnel bytes bytes u16
  | AddPPPoL2TPSession bytes bytes u16 u16 u16
  | AddL2TPSessionRaw bytes bytes u16 u16 u16 u32 u32

datatype l2_error =
    ErrNotSCCRQ | ErrNotSCCCN | ErrNotICRQ | ErrNotICCN | ErrMissingHostName | ErrMissingAssignedTunnelID
  | ErrMissingAssignedSessionID | ErrMissingChallengeResponse | ErrChallengeWithoutSecret | ErrChallengeRequired
  | ErrTunnelExhaustion | ErrSessionExhaustion | ErrTunnelExists | ErrChallengeRejected l2tp_error | ErrFSM fsm_error
  | ErrRandom | ErrSend | ErrVPP | ErrPuntPacketShape | ErrV3Unsupported | ErrParse l2tp_error | ErrUnsupportedVersion
  | ErrNoSuchTunnel | ErrNoSuchSession | ErrUnsupportedMessageType | ErrLNSConfigUnresolved | ErrLACNotAuthorized
  | ErrPPP ppp_frame_error | ErrSessionPPPMissing | ErrNoTunnelCandidates | ErrAllCandidatesDenied | ErrNotSCCRP
  | ErrNotICRP | ErrUnexpectedSCCRP | ErrUnexpectedICRP | ErrLACRequestMissing | ErrNoLocalIP | ErrSendNotConfigured
  | Panic

datatype lacDecision = LACFailed u16 l2_error | LACBound u16 u16 u16 u16 u16 u32

record l2Comp =
  cHeap :: "nat \<rightharpoonup> l2Tunnel"
  cNext :: nat
  cTunnels :: "tunnelKey \<rightharpoonup> nat"
  cRunners :: "tunnelKey \<rightharpoonup> nat"
  cIDs :: "bytes \<rightharpoonup> IDAllocator"
  cPending :: "tunnelKey \<rightharpoonup> LACRequest"
  cDeny :: "bytes \<rightharpoonup> string \<times> time"
  cSerial :: u32
  cReg :: "Registry option"
  cVPP :: "vppCall list"
  cDecisions :: "lacDecision list"

record l2Env =
  vNow :: time
  vResolve :: "(bytes \<rightharpoonup> LNSConfig) option"
  vChallenge :: "nat \<Rightarrow> bytes option"
  vAnswer :: "vppCall \<Rightarrow> u32 option"
  vLinkFails :: "nat \<Rightarrow> nat \<Rightarrow> bool"
  vSources :: "(string \<times> string) list"
  vPPP :: lnsEnv
  vMagic :: u32
  vRandom :: "nat \<Rightarrow> bytes"

definition newL2 :: "Registry option \<Rightarrow> l2Comp" where
  "newL2 r = \<lparr>cHeap = Map.empty, cNext = 0, cTunnels = Map.empty, cRunners = Map.empty, cIDs = Map.empty,
     cPending = Map.empty, cDeny = Map.empty, cSerial = 0, cReg = r, cVPP = [], cDecisions = []\<rparr>"

definition makeTunnelKey :: "bytes \<Rightarrow> u16 \<Rightarrow> tunnelKey" where
  "makeTunnelKey ip i = (if To4 ip \<noteq> [] then v4InV6Prefix @ To4 ip else if length ip = 16 then ip else replicate 16 0, i)"

text \<open>\<^verbatim>\<open>peerIP.String()\<close> as a key: two addresses have the same text exactly when these agree.\<close>

definition addrText :: "bytes \<Rightarrow> bytes" where
  "addrText ip = (if To4 ip \<noteq> [] then To4 ip else ip)"

text \<open>\<^verbatim>\<open>net.IP.String\<close>: an IPv6 address has its first longest run of at least two zero groups written as two colons.\<close>

fun groups16 :: "bytes \<Rightarrow> nat list" where
  "groups16 (a # b # bs) = (256 * unat a + unat b) # groups16 bs"
| "groups16 _ = []"

fun zeroRun :: "nat \<Rightarrow> nat list \<Rightarrow> nat \<times> nat \<Rightarrow> nat \<times> nat" where
  "zeroRun i [] best = best"
| "zeroRun i (g # gs) best = (let l = length (takeWhile (\<lambda>x. x = 0) (g # gs)) in
     zeroRun (Suc i) gs (if 2 \<le> l \<and> snd best < l then (i, l) else best))"

fun hexNum :: "nat \<Rightarrow> string" where
  "hexNum n = (if n < 16 then [hexDigit n] else hexNum (n div 16) @ [hexDigit (n mod 16)])"

declare hexNum.simps [simp del]

fun joinGroups :: "nat list \<Rightarrow> string" where
  "joinGroups [] = []"
| "joinGroups [g] = hexNum g"
| "joinGroups (g # gs) = hexNum g @ '':'' @ joinGroups gs"

definition ip6String :: "bytes \<Rightarrow> string" where
  "ip6String ip = (let gs = groups16 ip in case zeroRun 0 gs (0, 0) of (i, l) \<Rightarrow>
     if l = 0 then joinGroups gs else joinGroups (take i gs) @ ''::'' @ joinGroups (drop (i + l) gs))"

definition ipString :: "bytes \<Rightarrow> string" where
  "ipString ip = (if ip = [] then ''<nil>'' else if To4 ip \<noteq> [] then ip4String ip
     else if length ip = 16 then ip6String ip else ''?'' @ hexEncode ip)"

definition makeSessionID :: "bytes \<Rightarrow> u16 \<Rightarrow> u16 \<Rightarrow> string" where
  "makeSessionID ip tid sid = ''l2tp:'' @ ipString ip @ '':'' @ decStr (unat tid) @ '':'' @ decStr (unat sid)"

definition modT :: "nat \<Rightarrow> (l2Tunnel \<Rightarrow> l2Tunnel) \<Rightarrow> l2Comp \<Rightarrow> l2Comp" where
  "modT p f c = c\<lparr>cHeap := (cHeap c)(p := map_option f (cHeap c p))\<rparr>"

definition addSession :: "l2Session \<Rightarrow> l2Tunnel \<Rightarrow> l2Tunnel" where
  "addSession s t = t\<lparr>tuSessions := (tuSessions t)(ssLocalID s \<mapsto> s), tuRefCount := tuRefCount t + 1\<rparr>"

definition removeSession :: "u16 \<Rightarrow> l2Tunnel \<Rightarrow> l2Tunnel" where
  "removeSession i t = t\<lparr>tuSessions := (tuSessions t)(i := None), tuRefCount := tuRefCount t - 1\<rparr>"

definition modS :: "u16 \<Rightarrow> (l2Session \<Rightarrow> l2Session) \<Rightarrow> l2Tunnel \<Rightarrow> l2Tunnel" where
  "modS i f t = t\<lparr>tuSessions := (tuSessions t)(i := map_option f (tuSessions t i))\<rparr>"

subsection \<open>Tables\<close>

definition LookupTunnel :: "bytes \<Rightarrow> u16 \<Rightarrow> l2Comp \<Rightarrow> nat option" where
  "LookupTunnel ip i c = cTunnels c (makeTunnelKey ip i)"

definition LookupSession :: "bytes \<Rightarrow> u16 \<Rightarrow> u16 \<Rightarrow> l2Comp \<Rightarrow> (nat \<times> l2Session) option" where
  "LookupSession ip tid sid c = (case LookupTunnel ip tid c of None \<Rightarrow> None
     | Some p \<Rightarrow> (case cHeap c p of None \<Rightarrow> None | Some t \<Rightarrow> map_option (Pair p) (tuSessions t sid)))"

text \<open>The tunnels in the order in which the map is visited.\<close>

fun ResolveLACSessionIndex :: "l2Tunnel list \<Rightarrow> u16 \<Rightarrow> u16 \<Rightarrow> u32 option" where
  "ResolveLACSessionIndex [] tid sid = None"
| "ResolveLACSessionIndex (t # ts) tid sid =
     (if tuLocalID t \<noteq> tid then ResolveLACSessionIndex ts tid sid
      else (case tuSessions t sid of None \<Rightarrow> ResolveLACSessionIndex ts tid sid
        | Some s \<Rightarrow> if ssSwIf s = 0 then None else Some (ssSwIf s)))"

definition registerTunnel :: "nat \<Rightarrow> l2Tunnel \<Rightarrow> l2Comp \<Rightarrow> bool \<times> l2Comp" where
  "registerTunnel p t c = (let k = makeTunnelKey (tuPeerIP t) (tuLocalID t) in
     if cTunnels c k \<noteq> None then (False, c) else (True, c\<lparr>cTunnels := (cTunnels c)(k \<mapsto> p)\<rparr>))"

definition unregisterTunnel :: "bytes \<Rightarrow> u16 \<Rightarrow> l2Comp \<Rightarrow> l2Comp" where
  "unregisterTunnel ip i c = c\<lparr>cTunnels := (cTunnels c)(makeTunnelKey ip i := None)\<rparr>"

definition allocateTunnelID :: "bytes \<Rightarrow> l2Comp \<Rightarrow> u16 option \<times> l2Comp" where
  "allocateTunnelID ip c =
     (let a = (case cIDs c (addrText ip) of None \<Rightarrow> NewIDAllocator | Some a \<Rightarrow> a) in
      case id_Allocate a of (r, a') \<Rightarrow> (r, c\<lparr>cIDs := (cIDs c)(addrText ip \<mapsto> a')\<rparr>))"

definition releaseTunnelID :: "bytes \<Rightarrow> u16 \<Rightarrow> l2Comp \<Rightarrow> l2Comp" where
  "releaseTunnelID ip i c = (case cIDs c (addrText ip) of None \<Rightarrow> c
     | Some a \<Rightarrow> c\<lparr>cIDs := (cIDs c)(addrText ip \<mapsto> id_Release i a)\<rparr>)"

text \<open>One call of the dataplane.\<close>

definition callVPP :: "l2Env \<Rightarrow> vppCall \<Rightarrow> l2Comp \<Rightarrow> u32 option \<times> l2Comp" where
  "callVPP e v c = (vAnswer e v, c\<lparr>cVPP := cVPP c @ [v]\<rparr>)"

definition installTunnelVPP :: "l2Env \<Rightarrow> nat \<Rightarrow> l2Tunnel \<Rightarrow> l2Comp \<Rightarrow> bool \<times> l2Comp" where
  "installTunnelVPP e p t c =
     (if \<not> eVPP (vPPP e) \<or> tuInstalled t then (True, c)
      else (case callVPP e (AddL2TPTunnel (tuLocalIP t) (tuPeerIP t) (tuLocalID t) (tuPeerID t)) c of
          (None, c) \<Rightarrow> (False, c)
        | (Some _, c) \<Rightarrow> (True, modT p (\<lambda>t. t\<lparr>tuInstalled := True\<rparr>) c)))"

definition uninstallTunnelVPP :: "l2Env \<Rightarrow> nat \<Rightarrow> l2Tunnel \<Rightarrow> l2Comp \<Rightarrow> l2Comp" where
  "uninstallTunnelVPP e p t c =
     (if \<not> eVPP (vPPP e) then c
      else (let c = modT p (\<lambda>t. t\<lparr>tuInstalled := False\<rparr>) c in
        if \<not> tuInstalled t then c else snd (callVPP e (DeleteL2TPTunnel (tuLocalIP t) (tuPeerIP t) (tuLocalID t)) c)))"

subsection \<open>Runners\<close>

definition runnerConfig :: ChanConfig where
  "runnerConfig = \<lparr>RTOInitial = 0, RTOMax = 0, MaxRetries = 0, PeerRWS = 16, ZLBDelay = 0\<rparr>"

definition startTunnelRunner :: "l2Env \<Rightarrow> nat \<Rightarrow> l2Tunnel \<Rightarrow> l2Comp \<Rightarrow> l2Comp" where
  "startTunnelRunner e p t c =
     (if \<not> eSend (vPPP e) then c
      else (modT p (\<lambda>t. t\<lparr>tuChannel := Some (NewControlChannel runnerConfig True (vLinkFails e p)), tuRunning := True\<rparr>) c)
        \<lparr>cRunners := (cRunners c)(makeTunnelKey (tuPeerIP t) (tuLocalID t) \<mapsto> p)\<rparr>)"

definition stopTunnelRunner :: "bytes \<Rightarrow> u16 \<Rightarrow> l2Comp \<Rightarrow> l2Comp" where
  "stopTunnelRunner ip i c = (let k = makeTunnelKey ip i in
     (case cRunners c k of None \<Rightarrow> c | Some p \<Rightarrow> modT p (\<lambda>t. t\<lparr>tuRunning := False\<rparr>) c)
       \<lparr>cRunners := (cRunners c)(k := None)\<rparr>)"

text \<open>The callback of a dead channel.\<close>

definition channelDead :: "l2Env \<Rightarrow> nat \<Rightarrow> l2Tunnel \<Rightarrow> l2Comp \<Rightarrow> l2Comp" where
  "channelDead e p t c =
     (let c = modT p (\<lambda>t. t\<lparr>tuFSM := tunnel_Stop (tuFSM t)\<rparr>) c
      in uninstallTunnelVPP e p t (unregisterTunnel (tuPeerIP t) (tuLocalID t) c))"

definition died :: "ControlChannel \<Rightarrow> ControlChannel \<Rightarrow> bool" where
  "died ch ch' \<longleftrightarrow> CDead \<in> set (drop (length (ctrace ch)) (ctrace ch'))"

text \<open>One round of a runner's loop, and one tick of its Hello scheduler.\<close>

definition runnerTick :: "l2Env \<Rightarrow> nat \<Rightarrow> l2Comp \<Rightarrow> l2Comp" where
  "runnerTick e p c = (case cHeap c p of None \<Rightarrow> c | Some t \<Rightarrow>
     (case tuChannel t of None \<Rightarrow> c | Some ch \<Rightarrow>
       if \<not> tuRunning t then c
       else (let ch' = snd (chan_Tick (vNow e) ch); c = modT p (\<lambda>t. t\<lparr>tuChannel := Some ch'\<rparr>) c in
         if died ch ch' then channelDead e p t c else c)))"

definition chanSend :: "l2Env \<Rightarrow> nat \<Rightarrow> bytes option \<Rightarrow> u16 \<Rightarrow> l2Comp \<Rightarrow> l2_error option \<times> l2Comp" where
  "chanSend e p body sid c = (case body of None \<Rightarrow> (Some Panic, c) | Some b \<Rightarrow>
     (case cHeap c p of None \<Rightarrow> (Some Panic, c) | Some t \<Rightarrow>
       (case tuChannel t of None \<Rightarrow> (Some Panic, c) | Some ch \<Rightarrow>
         (case SendSession b sid (vNow e) ch of (failed, ch') \<Rightarrow>
            (if failed then Some ErrSend else None, modT p (\<lambda>t. t\<lparr>tuChannel := Some ch'\<rparr>) c)))))"

definition helloTick :: "l2Env \<Rightarrow> nat \<Rightarrow> l2Comp \<Rightarrow> l2Comp" where
  "helloTick e p c = (case cHeap c p of None \<Rightarrow> c
     | Some t \<Rightarrow> if tuRunning t then snd (chanSend e p BuildHello 0 c) else c)"

subsection \<open>Denylist\<close>

definition deny_Add :: "time \<Rightarrow> bytes \<Rightarrow> string \<Rightarrow> time \<Rightarrow> (bytes \<rightharpoonup> string \<times> time) \<Rightarrow> (bytes \<rightharpoonup> string \<times> time)" where
  "deny_Add now ip why ttl d = (if ip = [] \<or> ttl \<le> 0 then d else d(addrText ip \<mapsto> (why, now + ttl)))"

definition deny_Remove :: "bytes \<Rightarrow> (bytes \<rightharpoonup> string \<times> time) \<Rightarrow> (bytes \<rightharpoonup> string \<times> time)" where
  "deny_Remove ip d = (if ip = [] then d else d(addrText ip := None))"

definition IsDenied :: "time \<Rightarrow> bytes \<Rightarrow> (bytes \<rightharpoonup> string \<times> time) \<Rightarrow> bool" where
  "IsDenied now ip d = (ip \<noteq> [] \<and> (case d (addrText ip) of None \<Rightarrow> False | Some (_, x) \<Rightarrow> now < x))"

definition ProbeEligible :: "time \<Rightarrow> bytes \<Rightarrow> (bytes \<rightharpoonup> string \<times> time) \<Rightarrow> bool" where
  "ProbeEligible now ip d = (ip \<noteq> [] \<and> (case d (addrText ip) of None \<Rightarrow> False | Some (_, x) \<Rightarrow> \<not> now < x))"

definition deny_Reason :: "bytes \<Rightarrow> (bytes \<rightharpoonup> string \<times> time) \<Rightarrow> string" where
  "deny_Reason ip d = (if ip = [] then [] else (case d (addrText ip) of None \<Rightarrow> [] | Some (w, _) \<Rightarrow> w))"

subsection \<open>Tunnel candidates from AAA\<close>

text \<open>
  The attributes come in the order in which the map is visited, the tags likewise; the base names of the two checks
  on type and medium fall through without effect, as in the code.
\<close>

definition splitTag :: "string \<Rightarrow> string \<times> byte" where
  "splitTag k = (if CHR '':'' \<notin> set k then (k, 0)
     else (let suf = rev (takeWhile (\<lambda>c. c \<noteq> CHR '':'') (rev k)) in
       case ParseUint 8 suf of None \<Rightarrow> (k, 0) | Some t \<Rightarrow> (take (length k - length suf - 1) k, of_nat t)))"

definition newSpec :: "byte \<Rightarrow> TunnelSpec" where
  "newSpec tag = \<lparr>spTag = tag, spServerIP = [], spClientIP = [], spPassword = [], spAssignmentID = [], spPreference = 0,
     spClientAuthID = [], spServerAuthID = [], spHdrSkip = 2\<rparr>"

definition specSet :: "byte \<Rightarrow> (TunnelSpec \<Rightarrow> TunnelSpec) \<Rightarrow> (byte \<rightharpoonup> TunnelSpec) \<Rightarrow> (byte \<rightharpoonup> TunnelSpec)" where
  "specSet tag f m = m(tag \<mapsto> f (case m tag of None \<Rightarrow> newSpec tag | Some s \<Rightarrow> s))"

definition specAttr :: "string \<times> string \<Rightarrow> (byte \<rightharpoonup> TunnelSpec) \<Rightarrow> (byte \<rightharpoonup> TunnelSpec)" where
  "specAttr kv m = (case kv of (k, v) \<Rightarrow> (case splitTag k of (nm, tag) \<Rightarrow>
     if nm = ''tunnel.server-endpoint'' then specSet tag (spServerIP_update (\<lambda>_. ipOrNil (ParseIP v))) m
     else if nm = ''tunnel.client-endpoint'' then specSet tag (spClientIP_update (\<lambda>_. ipOrNil (ParseIP v))) m
     else if nm = ''tunnel.password'' then specSet tag (spPassword_update (\<lambda>_. v)) m
     else if nm = ''tunnel.assignment-id'' then specSet tag (spAssignmentID_update (\<lambda>_. v)) m
     else if nm = ''tunnel.preference'' then
       (case ParseUint 16 v of None \<Rightarrow> m | Some p \<Rightarrow> specSet tag (spPreference_update (\<lambda>_. of_nat p)) m)
     else if nm = ''tunnel.client-auth-id'' then specSet tag (spClientAuthID_update (\<lambda>_. v)) m
     else if nm = ''tunnel.server-auth-id'' then specSet tag (spServerAuthID_update (\<lambda>_. v)) m
     else m))"

definition ParseTunnelSpecs :: "(string \<times> string) list \<Rightarrow> byte list \<Rightarrow> TunnelSpec list" where
  "ParseTunnelSpecs attrs tags = (let m = fold specAttr attrs Map.empty in
     sort_key spPreference (filter (\<lambda>s. spServerIP s \<noteq> []) (List.map_filter m tags)))"

subsection \<open>Sessions of the LNS\<close>

text \<open>The first unused session identifier, from \<open>i\<close> up; 0 when the counter wraps.\<close>

function freeID :: "u16 \<Rightarrow> (u16 \<rightharpoonup> 'a) \<Rightarrow> u16" where
  "freeID i m = (if i = 0 then 0 else if m i = None then i else freeID (i + 1) m)"
  by auto
termination
proof (relation "measure (\<lambda>(i, _). if i = 0 then 0 else 65536 - unat i)")
  fix i :: u16 and m :: "u16 \<rightharpoonup> 'a"
  assume "i \<noteq> 0"
  moreover have "unat i < 2 ^ LENGTH(16)" by (rule unsigned_less)
  moreover have "unat (i + 1) = unat i + 1" if "i + 1 \<noteq> 0" using that by (metis Suc_eq_plus1 add.commute unatSuc)
  ultimately show "((i + 1, m), (i, m)) \<in> measure (\<lambda>(i, _). if i = 0 then 0 else 65536 - unat i)" by (simp, linarith)
qed simp

declare freeID.simps [simp del]

text \<open>The PPP part of a session before \<open>initSessionPPP\<close>, which creates its automata.\<close>

definition noCallbacks :: Callbacks where
  "noCallbacks = \<lparr>cbSend = False, cbLayerUp = False, cbLayerDown = False, cbLayerStarted = False, cbLayerFinished = False\<rparr>"

definition newPPP :: "l2Session \<Rightarrow> lns" where
  "newPPP s = \<lparr>lSessionID = ssSessionID s, lAcctID = [], lLCP = NewFSM ProtoLCP noCallbacks (NewLCP 0),
     lIPCP = NewFSM ProtoIPCP noCallbacks NewIPCP, lIPv6CP = NewFSM ProtoIPv6CP noCallbacks (NewIPv6CP (\<lambda>_. [])),
     lPhase = PhaseDead, lPendingID = [], lPendingType = [], lPendingPAP = 0, lPendingCHAP = 0, lChapID = 0, lChallenge = [],
     lTimer = False, lRetries = 0, lAttrs = Map.empty, lVRF = [], lGroup = zeroGroup, lCtx = None, lUser = [], lIPv4 = [],
     lIPv6 = [], lPrefix = None, lPool = [], lIANAPool = [], lPDPool = [], lIPCPOpen = False, lIPv6CPOpen = False,
     lPublished = False, lMagic = 0, lSwIf = ssSwIf s, lReg = None, lOut = []\<rparr>"

text \<open>A call into the PPP part of a session, with the registry of the component.\<close>

definition withPPP :: "nat \<Rightarrow> u16 \<Rightarrow> lns \<Rightarrow> l2Comp \<Rightarrow> l2Comp" where
  "withPPP p sid l c = modT p (modS sid (\<lambda>s. s\<lparr>ssPPP := Some l\<rparr>)) (c\<lparr>cReg := lReg l\<rparr>)"

text \<open>\<^verbatim>\<open>HandleSCCRQ\<close> in two parts: the checks of the message, and the tunnel.\<close>

definition responder :: "bytes \<Rightarrow> bytes \<Rightarrow> u16 \<Rightarrow> u16 \<Rightarrow> bytes \<Rightarrow> bytes \<Rightarrow> LNSConfig \<Rightarrow> TunnelFSM \<Rightarrow> l2Tunnel" where
  "responder localIP peerIP lid pid host ours cfg fsm =
     \<lparr>tuLocalIP = localIP, tuPeerIP = peerIP, tuLocalID = lid, tuPeerID = pid, tuRole = RoleResponder, tuFSM = fsm,
      tuChannel = None, tuLocalHostname = lcLocalHostname cfg, tuPeerHostname = host, tuSecret = lcSecret cfg,
      tuChallenge = ours, tuSessions = Map.empty, tuHello = lcHello cfg, tuHdrSkip = lcHdrSkip cfg, tuRefCount = 0,
      tuInstalled = False, tuRunning = False\<rparr>"

definition openResponder :: "l2Env \<Rightarrow> bytes \<Rightarrow> bytes \<Rightarrow> u16 \<Rightarrow> bytes \<Rightarrow> bytes \<Rightarrow> bytes \<Rightarrow> LNSConfig \<Rightarrow> l2Comp
    \<Rightarrow> (l2_error + bytes \<times> nat) \<times> l2Comp" where
  "openResponder e localIP peerIP pid host ours resp cfg c =
     (case allocateTunnelID peerIP c of
        (None, c) \<Rightarrow> (Inl ErrTunnelExhaustion, c)
      | (Some lid, c) \<Rightarrow>
     (case RecvSCCRQ (NewTunnelFSM RoleResponder) of
        Inl err \<Rightarrow> (Inl (ErrFSM err), releaseTunnelID peerIP lid c)
      | Inr fsm \<Rightarrow>
     (let t = responder localIP peerIP lid pid host ours cfg fsm; p = cNext c in
     (case registerTunnel p t c of
        (False, c) \<Rightarrow> (Inl ErrTunnelExists, releaseTunnelID peerIP lid c)
      | (True, c) \<Rightarrow>
     (let c = c\<lparr>cHeap := (cHeap c)(p \<mapsto> t), cNext := Suc p\<rparr>;
          c = startTunnelRunner e p t c in
     (case BuildSCCRP \<lparr>rpLocalTunnelID = lid, rpReceiveWindowSize = lcWindow cfg, rpHostName = lcLocalHostname cfg,
             rpVendorName = lcVendorName cfg, rpFramingCaps = FramingSync, rpBearerCaps = BearerDigital,
             rpFirmwareRevision = 0, rpChallenge = ours, rpChallengeResponse = resp\<rparr> of
        None \<Rightarrow> (Inl Panic, c)
      | Some body \<Rightarrow> (Inr (body, p), c)))))))"

definition HandleSCCRQ :: "l2Env \<Rightarrow> bytes \<Rightarrow> bytes \<Rightarrow> AVP list \<Rightarrow> LNSConfig \<Rightarrow> l2Comp \<Rightarrow> (l2_error + bytes \<times> nat) \<times> l2Comp" where
  "HandleSCCRQ e localIP peerIP avps cfg c =
     (if DecodeMessageType avps \<noteq> MsgTypeSCCRQ then (Inl ErrNotSCCRQ, c)
      else (case FindFirst avps 0 AVPHostName of None \<Rightarrow> (Inl ErrMissingHostName, c) | Some host \<Rightarrow>
      (case Option.bind (FindFirst avps 0 AVPAssignedTunnelID) DecodeUint16 of
         None \<Rightarrow> (Inl ErrMissingAssignedTunnelID, c) | Some pid \<Rightarrow>
      (let ch = FindFirst avps 0 AVPChallenge;
           want = lcChallengeRequired cfg \<and> lcSecret cfg \<noteq> [] in
       if ch \<noteq> None \<and> lcSecret cfg = [] then (Inl ErrChallengeWithoutSecret, c)
       else if ch = None \<and> lcChallengeRequired cfg then (Inl ErrChallengeRequired, c)
       else if want \<and> vChallenge e 0 = None then (Inl ErrRandom, c)
       else openResponder e localIP peerIP pid (DecodeString host) (if want then the (vChallenge e 0) else [])
         (case ch of None \<Rightarrow> [] | Some a \<Rightarrow> ComputeChallengeResponse (ucast MsgTypeSCCRP) (lcSecret cfg) (Value a))
         cfg c))))"

definition HandleSCCCN :: "l2Env \<Rightarrow> nat \<Rightarrow> l2Tunnel \<Rightarrow> AVP list \<Rightarrow> bytes \<Rightarrow> l2Comp \<Rightarrow> l2_error option \<times> l2Comp" where
  "HandleSCCCN e p t avps outstanding c =
     (if DecodeMessageType avps \<noteq> MsgTypeSCCCN then (Some ErrNotSCCCN, c)
      else (let checked = (if outstanding = [] then Inr (t, c)
              else (case FindFirst avps 0 AVPChallengeResponse of None \<Rightarrow> Inl ErrMissingChallengeResponse | Some a \<Rightarrow>
                (case VerifyChallengeResponse (ucast MsgTypeSCCCN) (tuSecret t) outstanding (Value a) of
                   Some err \<Rightarrow> Inl (ErrChallengeRejected err)
                 | None \<Rightarrow> Inr (t\<lparr>tuChallenge := []\<rparr>, modT p (\<lambda>t. t\<lparr>tuChallenge := []\<rparr>) c)))) in
        (case checked of Inl err \<Rightarrow> (Some err, c) | Inr (t, c) \<Rightarrow>
          (case RecvSCCCN (tuFSM t) of Inl err \<Rightarrow> (Some (ErrFSM err), c) | Inr fsm \<Rightarrow>
            (case installTunnelVPP e p t (modT p (\<lambda>t. t\<lparr>tuFSM := fsm\<rparr>) c) of (ok, c) \<Rightarrow>
               (if ok then None else Some ErrVPP, c))))))"

definition installLNSSessionVPP :: "l2Env \<Rightarrow> nat \<Rightarrow> l2Tunnel \<Rightarrow> l2Session \<Rightarrow> l2Comp \<Rightarrow> bool \<times> l2Comp" where
  "installLNSSessionVPP e p t s c =
     (if \<not> eVPP (vPPP e) \<or> ssProgrammed s then (True, c)
      else (case callVPP e (AddPPPoL2TPSession (tuLocalIP t) (tuPeerIP t) (tuLocalID t) (ssLocalID s) (ssPeerID s)) c of
          (None, c) \<Rightarrow> (False, c)
        | (Some i, c) \<Rightarrow> (True, modT p (modS (ssLocalID s) (\<lambda>s. s\<lparr>ssSwIf := i, ssProgrammed := True\<rparr>)) c)))"

definition HandleICRQ :: "l2Env \<Rightarrow> nat \<Rightarrow> l2Tunnel \<Rightarrow> AVP list \<Rightarrow> l2Comp \<Rightarrow> (l2_error + bytes \<times> l2Session) \<times> l2Comp" where
  "HandleICRQ e p t avps c =
     (if DecodeMessageType avps \<noteq> MsgTypeICRQ then (Inl ErrNotICRQ, c)
      else (case Option.bind (FindFirst avps 0 AVPAssignedSessionID) DecodeUint16 of
         None \<Rightarrow> (Inl ErrMissingAssignedSessionID, c) | Some peerSessionID \<Rightarrow>
      (let lid = freeID 1 (tuSessions t) in
       if lid = 0 then (Inl ErrSessionExhaustion, c)
       else (case RecvICRQ (NewSessionFSM SessionRoleLNS) of
          Inl err \<Rightarrow> (Inl (ErrFSM err), c)
        | Inr fsm \<Rightarrow>
       (let s = \<lparr>ssSessionID = makeSessionID (tuPeerIP t) (tuLocalID t) lid, ssLocalID = lid,
                ssPeerID = peerSessionID, ssRole = SessionRoleLNS, ssFSM = fsm, ssPPP = None, ssUsername = [], ssSwIf = 0,
                ssProgrammed = False, ssPPPoEID = 0, ssPPPoESwIf = 0\<rparr>;
            c = modT p (addSession s) c in
       (case installLNSSessionVPP e p t s c of
          (False, c) \<Rightarrow> (Inl ErrVPP, modT p (removeSession lid) c)
        | (True, c) \<Rightarrow> (case BuildICRP lid of None \<Rightarrow> (Inl Panic, c) | Some body \<Rightarrow> (Inr (body, s), c))))))))"

definition HandleICCN :: "l2Env \<Rightarrow> nat \<Rightarrow> l2Session \<Rightarrow> AVP list \<Rightarrow> l2Comp \<Rightarrow> l2_error option \<times> l2Comp" where
  "HandleICCN e p s avps c =
     (if DecodeMessageType avps \<noteq> MsgTypeICCN then (Some ErrNotICCN, c)
      else (case RecvICCN (ssFSM s) of Inl err \<Rightarrow> (Some (ErrFSM err), c) | Inr fsm \<Rightarrow>
        (None, withPPP p (ssLocalID s) (initSessionPPP (vPPP e) (vMagic e) (vRandom e) ((newPPP s)\<lparr>lReg := cReg c\<rparr>))
           (modT p (modS (ssLocalID s) (\<lambda>s. s\<lparr>ssFSM := fsm\<rparr>)) c))))"

definition HandleCDN :: "nat \<Rightarrow> l2Session \<Rightarrow> l2Comp \<Rightarrow> l2Comp" where
  "HandleCDN p s c = modT p (removeSession (ssLocalID s))
     (modT p (modS (ssLocalID s) (\<lambda>s. s\<lparr>ssFSM := session_Disconnect (ssFSM s)\<rparr>)) c)"

definition HandleStopCCN :: "l2Env \<Rightarrow> nat \<Rightarrow> l2Tunnel \<Rightarrow> l2Comp \<Rightarrow> l2Comp" where
  "HandleStopCCN e p t c =
     (let c = modT p (\<lambda>t. t\<lparr>tuFSM := tunnel_Stop (tuFSM t)\<rparr>) c;
          c = stopTunnelRunner (tuPeerIP t) (tuLocalID t) c;
          c = unregisterTunnel (tuPeerIP t) (tuLocalID t) c;
          c = releaseTunnelID (tuPeerIP t) (tuLocalID t) c
      in uninstallTunnelVPP e p t c)"

subsection \<open>The LAC\<close>

definition asBytes :: "string \<Rightarrow> bytes" where
  "asBytes s = map of_char s"

fun lookupConfiguredSourceIP :: "(string \<times> string) list \<Rightarrow> bytes \<Rightarrow> bytes" where
  "lookupConfiguredSourceIP [] peer = []"
| "lookupConfiguredSourceIP ((addr, src) # es) peer =
     (case ParseIP addr of None \<Rightarrow> lookupConfiguredSourceIP es peer | Some ip \<Rightarrow>
       if \<not> ip_Equal ip peer \<or> src = [] then lookupConfiguredSourceIP es peer
       else (case ParseIP src of None \<Rightarrow> lookupConfiguredSourceIP es peer | Some a \<Rightarrow> a))"

definition publishLACDecision :: "l2Env \<Rightarrow> lacDecision \<Rightarrow> l2Comp \<Rightarrow> l2Comp" where
  "publishLACDecision e d c = (if eBus (vPPP e) then c\<lparr>cDecisions := cDecisions c @ [d]\<rparr> else c)"

definition clearLACPending :: "bytes \<Rightarrow> u16 \<Rightarrow> l2Comp \<Rightarrow> l2Comp" where
  "clearLACPending ip i c = c\<lparr>cPending := (cPending c)(makeTunnelKey ip i := None)\<rparr>"

definition initiator :: "bytes \<Rightarrow> u16 \<Rightarrow> bytes \<Rightarrow> bytes \<Rightarrow> TunnelSpec \<Rightarrow> TunnelFSM \<Rightarrow> l2Tunnel" where
  "initiator localIP lid host ours spec fsm =
     \<lparr>tuLocalIP = localIP, tuPeerIP = spServerIP spec, tuLocalID = lid, tuPeerID = 0, tuRole = RoleInitiator, tuFSM = fsm,
      tuChannel = None, tuLocalHostname = host, tuPeerHostname = [], tuSecret = asBytes (spPassword spec),
      tuChallenge = ours, tuSessions = Map.empty, tuHello = 0, tuHdrSkip = spHdrSkip spec, tuRefCount = 0,
      tuInstalled = False, tuRunning = False\<rparr>"

definition openInitiator :: "l2Env \<Rightarrow> LACRequest \<Rightarrow> TunnelSpec \<Rightarrow> bytes \<Rightarrow> u16 \<Rightarrow> bytes \<Rightarrow> l2Comp \<Rightarrow> l2_error option \<times> l2Comp" where
  "openInitiator e req spec localIP lid ours c =
     (let peerIP = spServerIP spec; host = (if lqLocalName req = [] then eHostname (vPPP e) else lqLocalName req) in
     (case SendSCCRQ (NewTunnelFSM RoleInitiator) of
        Inl err \<Rightarrow> (Some (ErrFSM err), releaseTunnelID peerIP lid c)
      | Inr fsm \<Rightarrow>
     (let t = initiator localIP lid host ours spec fsm; p = cNext c in
     (case registerTunnel p t c of
        (False, c) \<Rightarrow> (Some ErrTunnelExists, releaseTunnelID peerIP lid c)
      | (True, c) \<Rightarrow>
     (let c = c\<lparr>cHeap := (cHeap c)(p \<mapsto> t), cNext := Suc p\<rparr>;
          c = startTunnelRunner e p t c;
          c = c\<lparr>cPending := (cPending c)(makeTunnelKey peerIP lid \<mapsto> req)\<rparr>;
          body = BuildSCCRQ \<lparr>rqLocalTunnelID = lid, rqReceiveWindowSize = 16, rqHostName = host, rqVendorName = [],
            rqFramingCaps = FramingSync, rqBearerCaps = BearerDigital, rqFirmwareRevision = 0, rqChallenge = ours\<rparr> in
     (case chanSend e p body 0 c of
        (None, c) \<Rightarrow> (None, c)
      | (Some err, c) \<Rightarrow>
          (Some err, if err = Panic then c else clearLACPending peerIP lid (releaseTunnelID peerIP lid
             (unregisterTunnel peerIP lid (stopTunnelRunner peerIP lid c))))))))))"

definition tryLACTunnel :: "l2Env \<Rightarrow> nat \<Rightarrow> LACRequest \<Rightarrow> TunnelSpec \<Rightarrow> l2Comp \<Rightarrow> l2_error option \<times> l2Comp" where
  "tryLACTunnel e n req spec c =
     (let peerIP = spServerIP spec;
          localIP = (if lqLocalIP req = [] then spClientIP spec else lqLocalIP req);
          localIP = (if localIP = [] then lookupConfiguredSourceIP (vSources e) peerIP else localIP);
          want = spPassword spec \<noteq> [] in
      if localIP = [] then (Some ErrNoLocalIP, c)
      else (case allocateTunnelID peerIP c of
          (None, c) \<Rightarrow> (Some ErrTunnelExhaustion, c)
        | (Some lid, c) \<Rightarrow>
            if want \<and> vChallenge e n = None then (Some ErrRandom, releaseTunnelID peerIP lid c)
            else openInitiator e req spec localIP lid (if want then the (vChallenge e n) else []) c))"

text \<open>The loop over the candidates from position \<open>n\<close>: the result is a success, a panic or the number skipped.\<close>

fun lacLoop :: "l2Env \<Rightarrow> nat \<Rightarrow> LACRequest \<Rightarrow> TunnelSpec list \<Rightarrow> nat \<Rightarrow> l2Comp \<Rightarrow> (l2_error option + nat) \<times> l2Comp" where
  "lacLoop e n req [] skipped c = (Inr skipped, c)"
| "lacLoop e n req (spec # specs) skipped c =
     (if spServerIP spec = [] then lacLoop e (Suc n) req specs skipped c
      else if IsDenied (vNow e) (spServerIP spec) (cDeny c) then lacLoop e (Suc n) req specs (Suc skipped) c
      else (case tryLACTunnel e n req spec c of
          (None, c) \<Rightarrow> (Inl None, c)
        | (Some err, c) \<Rightarrow> if err = Panic then (Inl (Some Panic), c) else lacLoop e (Suc n) req specs skipped c))"

definition StartLACSession :: "l2Env \<Rightarrow> LACRequest \<Rightarrow> l2Comp \<Rightarrow> l2_error option \<times> l2Comp" where
  "StartLACSession e req c =
     (if lqSpecs req = [] then (Some ErrNoTunnelCandidates, c)
      else if \<not> eSend (vPPP e) then (Some ErrSendNotConfigured, c)
      else (case lacLoop e 0 req (lqSpecs req) 0 c of
          (Inl r, c) \<Rightarrow> (r, c)
        | (Inr skipped, c) \<Rightarrow>
            (let err = (if 0 < skipped \<and> skipped = length (lqSpecs req) then ErrAllCandidatesDenied else ErrNoTunnelCandidates)
             in (Some err, publishLACDecision e (LACFailed (lqPPPoEID req) err) c))))"

definition openLACSession :: "l2Env \<Rightarrow> nat \<Rightarrow> LACRequest \<Rightarrow> l2Comp \<Rightarrow> l2_error option \<times> l2Comp" where
  "openLACSession e p req c = (case cHeap c p of None \<Rightarrow> (Some Panic, c) | Some t \<Rightarrow>
     (let lid = freeID 1 (tuSessions t) in
      if lid = 0 then (Some ErrSessionExhaustion, c)
      else (case SendICRQ (NewSessionFSM SessionRoleLAC) of Inl err \<Rightarrow> (Some (ErrFSM err), c) | Inr fsm \<Rightarrow>
        (let s = \<lparr>ssSessionID = makeSessionID (tuPeerIP t) (tuLocalID t) lid, ssLocalID = lid, ssPeerID = 0,
                 ssRole = SessionRoleLAC, ssFSM = fsm, ssPPP = None, ssUsername = lqUsername req, ssSwIf = 0,
                 ssProgrammed = False, ssPPPoEID = lqPPPoEID req, ssPPPoESwIf = 0\<rparr>;
             c = (modT p (addSession s) c)\<lparr>cSerial := cSerial c + 1\<rparr>
         in chanSend e p (BuildICRQ lid (cSerial c)) 0 c))))"

text \<open>\<^verbatim>\<open>handleSCCRP\<close> in two parts: up to the verified response, and the answer with the new session.\<close>

definition answerSCCRP :: "l2Env \<Rightarrow> nat \<Rightarrow> l2Tunnel \<Rightarrow> AVP list \<Rightarrow> l2Comp \<Rightarrow> l2_error option \<times> l2Comp" where
  "answerSCCRP e p t avps c = (let pc = FindFirst avps 0 AVPChallenge in
     if pc \<noteq> None \<and> tuSecret t = [] then (Some ErrChallengeWithoutSecret, c)
     else (let resp = (case pc of None \<Rightarrow> [] | Some a \<Rightarrow>
             ComputeChallengeResponse (ucast MsgTypeSCCCN) (tuSecret t) (Value a)) in
     (case RecvSCCRP (tuFSM t) of Inl err \<Rightarrow> (Some (ErrFSM err), c) | Inr fsm \<Rightarrow>
     (case chanSend e p (BuildSCCCN resp) 0 (modT p (\<lambda>t. t\<lparr>tuFSM := fsm\<rparr>) c) of (Some err, c) \<Rightarrow> (Some err, c) | (None, c) \<Rightarrow>
     (case installTunnelVPP e p t c of
        (False, c) \<Rightarrow> (Some ErrVPP, c)
      | (True, c) \<Rightarrow>
     (case cPending c (makeTunnelKey (tuPeerIP t) (tuLocalID t)) of
        None \<Rightarrow> (Some ErrLACRequestMissing, c)
      | Some req \<Rightarrow> openLACSession e p req c))))))"

definition handleSCCRP :: "l2Env \<Rightarrow> nat \<Rightarrow> l2Tunnel \<Rightarrow> AVP list \<Rightarrow> l2Comp \<Rightarrow> l2_error option \<times> l2Comp" where
  "handleSCCRP e p t avps c =
     (if DecodeMessageType avps \<noteq> MsgTypeSCCRP then (Some ErrNotSCCRP, c)
      else if tuRole t \<noteq> RoleInitiator then (Some ErrUnexpectedSCCRP, c)
      else (case Option.bind (FindFirst avps 0 AVPAssignedTunnelID) DecodeUint16 of
         None \<Rightarrow> (Some ErrMissingAssignedTunnelID, c) | Some pid \<Rightarrow>
      (let t = t\<lparr>tuPeerID := pid, tuPeerHostname := (case FindFirst avps 0 AVPHostName of
                 None \<Rightarrow> tuPeerHostname t | Some h \<Rightarrow> DecodeString h)\<rparr>;
           c = modT p (\<lambda>_. t) c in
       if tuChallenge t = [] then answerSCCRP e p t avps c
       else (case FindFirst avps 0 AVPChallengeResponse of None \<Rightarrow> (Some ErrMissingChallengeResponse, c) | Some a \<Rightarrow>
         (case VerifyChallengeResponse (ucast MsgTypeSCCRP) (tuSecret t) (tuChallenge t) (Value a) of
            Some err \<Rightarrow> (Some (ErrChallengeRejected err), c)
          | None \<Rightarrow> answerSCCRP e p (t\<lparr>tuChallenge := []\<rparr>) avps (modT p (\<lambda>t. t\<lparr>tuChallenge := []\<rparr>) c))))))"

text \<open>\<^verbatim>\<open>handleICRP\<close> likewise: up to the established session, and its binding to the PPPoE session.\<close>

definition bindLACSession :: "l2Env \<Rightarrow> nat \<Rightarrow> l2Tunnel \<Rightarrow> u16 \<Rightarrow> u16 \<Rightarrow> u32 \<Rightarrow> LACRequest \<Rightarrow> l2Comp \<Rightarrow> l2_error option \<times> l2Comp" where
  "bindLACSession e p t i pid sw req c =
     (case chanSend e p (BuildICCN \<lparr>icTxConnectSpeed = 0, icFraming = FramingSync,
             icLastSentLCPConfReq = lqLastSent req, icLastReceivedLCPConfReq = lqLastReceived req,
             icProxyAuthenType = lqAuthenType req, icProxyAuthenName = lqAuthenName req,
             icProxyAuthenChallenge = lqAuthenChallenge req, icProxyAuthenResponse = lqAuthenResponse req\<rparr>) pid c of
        (Some err, c) \<Rightarrow> (Some err, c)
      | (None, c) \<Rightarrow>
     (case (if eVPP (vPPP e)
            then callVPP e (AddL2TPSessionRaw (tuLocalIP t) (tuPeerIP t) (tuLocalID t) i pid (lqPPPoESwIf req) (lqEncapIf req)) c
            else (Some sw, c)) of
        (None, c) \<Rightarrow> (Some ErrVPP, publishLACDecision e (LACFailed (lqPPPoEID req) ErrVPP)
           (clearLACPending (tuPeerIP t) (tuLocalID t) c))
      | (Some sw, c) \<Rightarrow> (None, publishLACDecision e (LACBound (lqPPPoEID req) (tuLocalID t) (tuPeerID t) i pid sw)
           (clearLACPending (tuPeerIP t) (tuLocalID t)
             (modT p (modS i (\<lambda>s. s\<lparr>ssSwIf := sw, ssPPPoESwIf := lqPPPoESwIf req\<rparr>)) c)))))"

definition handleICRP :: "l2Env \<Rightarrow> nat \<Rightarrow> l2Tunnel \<Rightarrow> l2Session \<Rightarrow> AVP list \<Rightarrow> l2Comp \<Rightarrow> l2_error option \<times> l2Comp" where
  "handleICRP e p t s avps c =
     (if DecodeMessageType avps \<noteq> MsgTypeICRP then (Some ErrNotICRP, c)
      else if ssRole s \<noteq> SessionRoleLAC then (Some ErrUnexpectedICRP, c)
      else (case Option.bind (FindFirst avps 0 AVPAssignedSessionID) DecodeUint16 of
         None \<Rightarrow> (Some ErrMissingAssignedSessionID, c) | Some pid \<Rightarrow>
      (let i = ssLocalID s; c = modT p (modS i (\<lambda>s. s\<lparr>ssPeerID := pid\<rparr>)) c in
      (case RecvICRP (ssFSM s) of Inl err \<Rightarrow> (Some (ErrFSM err), c) | Inr fsm \<Rightarrow>
      (let c = modT p (modS i (\<lambda>s. s\<lparr>ssFSM := fsm\<rparr>)) c in
      (case cPending c (makeTunnelKey (tuPeerIP t) (tuLocalID t)) of
         None \<Rightarrow> (Some ErrLACRequestMissing, c)
       | Some req \<Rightarrow> bindLACSession e p t i pid (ssSwIf s) req c))))))"

subsection \<open>Packets\<close>

record puntPacket =
  pkIPv4 :: "(bytes \<times> bytes) option"
  pkUDP :: "bytes option"

definition framePPP :: "l2Env \<Rightarrow> nat \<Rightarrow> l2Session \<Rightarrow> bytes \<Rightarrow> l2Comp \<Rightarrow> l2_error option \<times> l2Comp" where
  "framePPP e p s frame c = (case ssPPP s of
       None \<Rightarrow> (let frame = (if 2 \<le> length frame \<and> frame ! 0 = 0xff \<and> frame ! 1 = 0x03 then drop 2 frame else frame) in
         (if length frame < 2 then Some (ErrPPP PPPFrameShort)
          else if get16 frame = 0x0021 \<or> get16 frame = ProtoIPv6 then None else Some ErrSessionPPPMissing, c))
     | Some l \<Rightarrow> (case dispatchPPPFrame (vPPP e) frame (l\<lparr>lReg := cReg c\<rparr>) of
         Inl FramePanics \<Rightarrow> (Some Panic, c)
       | Inl FrameNeverReturns \<Rightarrow> (Some Panic, c)
       | Inl err \<Rightarrow> (Some (ErrPPP err), c)
       | Inr l \<Rightarrow> (None, withPPP p (ssLocalID s) l c)))"

definition dispatchSCCRQ :: "l2Env \<Rightarrow> bytes \<Rightarrow> bytes \<Rightarrow> Header \<Rightarrow> AVP list \<Rightarrow> l2Comp \<Rightarrow> l2_error option \<times> l2Comp" where
  "dispatchSCCRQ e src dst h avps c =
     (case FindFirst avps 0 AVPHostName of None \<Rightarrow> (Some ErrMissingHostName, c) | Some host \<Rightarrow>
     (case vResolve e of None \<Rightarrow> (Some ErrLNSConfigUnresolved, c) | Some resolve \<Rightarrow>
     (case resolve (DecodeString host) of None \<Rightarrow> (Some ErrLACNotAuthorized, c) | Some cfg \<Rightarrow>
     (case HandleSCCRQ e dst src avps cfg c of
        (Inl err, c) \<Rightarrow> (Some err, c)
      | (Inr (body, p), c) \<Rightarrow>
          (case Option.bind (cHeap c p) tuChannel of None \<Rightarrow> (None, c) | Some ch \<Rightarrow>
            chanSend e p (Some body) 0
              (modT p (\<lambda>t. t\<lparr>tuChannel := Some (snd (chan_Recv (Ns h) (Nr h) (vNow e) ch))\<rparr>) c))))))"

text \<open>The handlers behind the reliable channel, for a message of tunnel \<open>p\<close> that the channel accepted.\<close>

definition dispatchTunnel :: "l2Env \<Rightarrow> bytes \<Rightarrow> Header \<Rightarrow> AVP list \<Rightarrow> nat \<Rightarrow> l2Tunnel \<Rightarrow> l2Comp \<Rightarrow> l2_error option \<times> l2Comp" where
  "dispatchTunnel e src h avps p t c =
     (let m = DecodeMessageType avps; sess = map_option snd (LookupSession src (TunnelID h) (SessionID h) c) in
      if avps = [] then (None, c)
      else if m = MsgTypeSCCRP then handleSCCRP e p t avps c
      else if m = MsgTypeICRP then
        (case sess of None \<Rightarrow> (Some ErrNoSuchSession, c) | Some s \<Rightarrow> handleICRP e p t s avps c)
      else if m = MsgTypeSCCCN then HandleSCCCN e p t avps (tuChallenge t) c
      else if m = MsgTypeHello then (None, c)
      else if m = MsgTypeStopCCN then (None, HandleStopCCN e p t c)
      else if m = MsgTypeICRQ then
        (case HandleICRQ e p t avps c of
           (Inl err, c) \<Rightarrow> (Some err, c)
         | (Inr (body, s), c) \<Rightarrow> if tuChannel t = None then (None, c) else chanSend e p (Some body) (ssPeerID s) c)
      else if m = MsgTypeICCN then
        (case sess of None \<Rightarrow> (Some ErrNoSuchSession, c) | Some s \<Rightarrow> HandleICCN e p s avps c)
      else if m = MsgTypeCDN then
        (case sess of None \<Rightarrow> (Some ErrNoSuchSession, c) | Some s \<Rightarrow> (None, HandleCDN p s c))
      else (Some ErrUnsupportedMessageType, c))"

definition dispatchControl :: "l2Env \<Rightarrow> bytes \<Rightarrow> bytes \<Rightarrow> Header \<Rightarrow> AVP list \<Rightarrow> l2Comp \<Rightarrow> l2_error option \<times> l2Comp" where
  "dispatchControl e src dst h avps c =
     (if DecodeMessageType avps = MsgTypeSCCRQ then dispatchSCCRQ e src dst h avps c
      else (case LookupTunnel src (TunnelID h) c of None \<Rightarrow> (Some ErrNoSuchTunnel, c) | Some p \<Rightarrow>
        (case cHeap c p of None \<Rightarrow> (Some ErrNoSuchTunnel, c) | Some t \<Rightarrow>
          (case tuChannel t of
             None \<Rightarrow> dispatchTunnel e src h avps p t c
           | Some ch \<Rightarrow> (case chan_Recv (Ns h) (Nr h) (vNow e) ch of (accept, ch) \<Rightarrow>
               (let t = t\<lparr>tuChannel := Some ch\<rparr>; c = modT p (\<lambda>_. t) c in
                if accept then dispatchTunnel e src h avps p t c else (None, c)))))))"

definition Dispatch :: "l2Env \<Rightarrow> puntPacket \<Rightarrow> l2Comp \<Rightarrow> l2_error option \<times> l2Comp" where
  "Dispatch e pkt c = (case (pkIPv4 pkt, pkUDP pkt) of
       (Some (src, dst), Some body) \<Rightarrow>
         (if IsL2TPv3 body then (Some ErrV3Unsupported, c)
          else (case Parse body of Inl err \<Rightarrow> (Some (ErrParse err), c) | Inr (h, payload) \<Rightarrow>
          (if Version h \<noteq> Version2 then (Some ErrUnsupportedVersion, c)
           else if \<not> IsControl h then
             (case LookupSession src (TunnelID h) (SessionID h) c of None \<Rightarrow> (Some ErrNoSuchSession, c)
              | Some (p, s) \<Rightarrow> framePPP e p s payload c)
           else (case ParseAVPs payload of Inl err \<Rightarrow> (Some (ErrParse err), c)
              | Inr avps \<Rightarrow> dispatchControl e src dst h avps c))))
     | _ \<Rightarrow> (Some ErrPuntPacketShape, c))"

subsection \<open>Answers of AAA, and the run of the component\<close>

text \<open>
  The sessions in the order in which the maps are visited; the first with that pending request gets the answer. A
  session without a PPP part has no pending request, and its automata are nil.
\<close>

definition pendingOf :: "l2Session \<Rightarrow> string" where
  "pendingOf s = (case ssPPP s of None \<Rightarrow> [] | Some l \<Rightarrow> lPendingID l)"

fun findSessionByAuthRequestID :: "string \<Rightarrow> (bytes \<times> u16 \<times> u16) list \<Rightarrow> l2Comp \<Rightarrow> (nat \<times> l2Session) option" where
  "findSessionByAuthRequestID rid [] c = None"
| "findSessionByAuthRequestID rid ((ip, tid, sid) # ks) c = (case LookupSession ip tid sid c of
       Some (p, s) \<Rightarrow> if pendingOf s = rid then Some (p, s) else findSessionByAuthRequestID rid ks c
     | None \<Rightarrow> findSessionByAuthRequestID rid ks c)"

definition aaaResponse :: "l2Env \<Rightarrow> string \<Rightarrow> bool \<Rightarrow> (string \<rightharpoonup> attrVal) \<Rightarrow> (bytes \<times> u16 \<times> u16) list \<Rightarrow> l2Comp \<Rightarrow> l2_error option \<times> l2Comp" where
  "aaaResponse e rid allowed attrs ks c = (case findSessionByAuthRequestID rid ks c of
       None \<Rightarrow> (None, c)
     | Some (p, s) \<Rightarrow> (case ssPPP s of None \<Rightarrow> (Some Panic, c)
        | Some l \<Rightarrow> (None, withPPP p (ssLocalID s) (handleAAAResponse (vPPP e) rid allowed attrs (l\<lparr>lReg := cReg c\<rparr>)) c)))"

definition pppTimer :: "l2Env \<Rightarrow> nat \<Rightarrow> u16 \<Rightarrow> lnsEvent \<Rightarrow> l2Comp \<Rightarrow> l2Comp" where
  "pppTimer e p sid ev c = (case Option.bind (cHeap c p) (\<lambda>t. Option.bind (tuSessions t sid) ssPPP) of
       None \<Rightarrow> c
     | Some l \<Rightarrow> (case lnsStep (vPPP e, ev) (l\<lparr>lReg := cReg c\<rparr>) of None \<Rightarrow> c | Some l \<Rightarrow> withPPP p sid l c))"

text \<open>A tunnel whose runner is in the table, under its own key, is stopped.\<close>

definition l2_Stop :: "l2Comp \<Rightarrow> l2Comp" where
  "l2_Stop c = c\<lparr>cHeap := (\<lambda>p. map_option (\<lambda>t. if cRunners c (makeTunnelKey (tuPeerIP t) (tuLocalID t)) = Some p
        then t\<lparr>tuRunning := False\<rparr> else t) (cHeap c p)),
     cTunnels := Map.empty, cRunners := Map.empty\<rparr>"

datatype l2Event =
    EvPunt puntPacket
  | EvLAC LACRequest
  | EvAnswer string bool "string \<rightharpoonup> attrVal" "(bytes \<times> u16 \<times> u16) list"
  | EvTick nat
  | EvHello nat
  | EvTimer nat u16 lnsEvent
  | EvDeny bytes string time
  | EvAllow bytes
  | EvStop

text \<open>One event. The errors are logged, except those that end the process: then there is no next state.\<close>

fun l2Step :: "l2Env \<times> l2Event \<Rightarrow> l2Comp \<Rightarrow> l2_error option \<times> l2Comp" where
  "l2Step (e, EvPunt pkt) c = Dispatch e pkt c"
| "l2Step (e, EvLAC req) c = StartLACSession e req c"
| "l2Step (e, EvAnswer rid ok attrs ks) c = aaaResponse e rid ok attrs ks c"
| "l2Step (e, EvTick p) c = (None, runnerTick e p c)"
| "l2Step (e, EvHello p) c = (None, helloTick e p c)"
| "l2Step (e, EvTimer p sid ev) c = (None, case ev of EvFrame _ \<Rightarrow> c | EvAAA _ _ _ \<Rightarrow> c | _ \<Rightarrow> pppTimer e p sid ev c)"
| "l2Step (e, EvDeny ip why ttl) c = (None, c\<lparr>cDeny := deny_Add (vNow e) ip why ttl (cDeny c)\<rparr>)"
| "l2Step (e, EvAllow ip) c = (None, c\<lparr>cDeny := deny_Remove ip (cDeny c)\<rparr>)"
| "l2Step (e, EvStop) c = (None, l2_Stop c)"

fun l2Run :: "(l2Env \<times> l2Event) list \<Rightarrow> l2Comp \<Rightarrow> l2Comp option" where
  "l2Run [] c = Some c"
| "l2Run (ev # evs) c = (case l2Step ev c of (r, c') \<Rightarrow> if r = Some Panic then None else l2Run evs c')"

end
