(* ===== verification/L2TP_Component_Steps.thy ===== *)
theory L2TP_Component_Steps
  imports L2TP_Component
begin

section \<open>What a handler can do to the tunnels\<close>

text \<open>
  The handlers of \<open>L2TP_Component\<close> refine a transition system with eight kinds of elementary changes to the heap of
  tunnels, the lookup table and the identifiers. A change may clear the challenge of a tunnel or establish it only as
  the predicate \<open>V\<close> allows: for an event it says that the event carries a response that verifies for that tunnel.
  The invariants of the component are proved on the elementary changes, by rule induction.
\<close>

definition idsOf :: "bytes \<Rightarrow> l2Comp \<Rightarrow> IDAllocator" where
  "idsOf k c = (case cIDs c k of None \<Rightarrow> NewIDAllocator | Some a \<Rightarrow> a)"

text \<open>Two values of a tunnel that differ only in its channel, its peer, its flags, and the contents of its sessions.\<close>

definition same :: "l2Tunnel \<Rightarrow> l2Tunnel \<Rightarrow> bool" where
  "same t t' \<longleftrightarrow> tuPeerIP t' = tuPeerIP t \<and> tuLocalID t' = tuLocalID t \<and> tuRole t' = tuRole t \<and> tuSecret t' = tuSecret t
     \<and> tuChallenge t' = tuChallenge t \<and> tuRefCount t' = tuRefCount t
     \<and> (tuFSM t' = tuFSM t \<or> tuFSM t' = tunnel_Stop (tuFSM t))
     \<and> (\<forall>i. rel_option (\<lambda>s s'. ssLocalID s' = ssLocalID s) (tuSessions t i) (tuSessions t' i))"

inductive tstep :: "(l2Tunnel \<Rightarrow> bool) \<Rightarrow> l2Comp \<Rightarrow> l2Comp \<Rightarrow> bool" for V where
  ts_keep: "cNext c' = cNext c \<Longrightarrow> cIDs c' = cIDs c \<Longrightarrow> cTunnels c' \<subseteq>\<^sub>m cTunnels c
     \<Longrightarrow> \<forall>q. rel_option same (cHeap c q) (cHeap c' q) \<Longrightarrow> tstep V c c'"
| ts_add: "cHeap c p = Some t \<Longrightarrow> tuSessions t (ssLocalID s) = None \<Longrightarrow> ssLocalID s \<noteq> 0 \<Longrightarrow> tstep V c (modT p (addSession s) c)"
| ts_rem: "cHeap c p = Some t \<Longrightarrow> tuSessions t i \<noteq> None \<Longrightarrow> tstep V c (modT p (removeSession i) c)"
| ts_clear: "cHeap c p = Some t \<Longrightarrow> V t \<Longrightarrow> tstep V c (modT p (tuChallenge_update (\<lambda>_. [])) c)"
| ts_establish: "cHeap c p = Some t \<Longrightarrow> tuChallenge t = [] \<Longrightarrow> tState (tuFSM t) \<noteq> TunnelCleanup
     \<Longrightarrow> tstep V c (modT p (tuFSM_update (tState_update (\<lambda>_. TunnelEstablished))) c)"
| ts_ids: "(id_inv (idsOf k c) \<longrightarrow> id_inv a \<and> inUse (idsOf k c) \<subseteq> inUse a) \<Longrightarrow> tstep V c (c\<lparr>cIDs := (cIDs c)(k \<mapsto> a)\<rparr>)"
| ts_new: "tuPeerIP t = ip \<Longrightarrow> tuLocalID t = i \<Longrightarrow> i \<in> inUse (idsOf (addrText ip) c) \<Longrightarrow> cTunnels c (makeTunnelKey ip i) = None
     \<Longrightarrow> tuSessions t = Map.empty \<Longrightarrow> tuRefCount t = 0 \<Longrightarrow> tState (tuFSM t) \<in> {TunnelWaitCtlConn, TunnelWaitCtlReply}
     \<Longrightarrow> tstep V c (c\<lparr>cTunnels := (cTunnels c)(makeTunnelKey ip i \<mapsto> cNext c), cHeap := (cHeap c)(cNext c \<mapsto> t), cNext := Suc (cNext c)\<rparr>)"
| ts_close: "tstep V c (releaseTunnelID ip i (unregisterTunnel ip i c))"

abbreviation tsteps :: "(l2Tunnel \<Rightarrow> bool) \<Rightarrow> l2Comp \<Rightarrow> l2Comp \<Rightarrow> bool" where
  "tsteps V \<equiv> (tstep V)\<^sup>*\<^sup>*"

lemma tsteps_trans [trans]: "tsteps V a b \<Longrightarrow> tsteps V b c \<Longrightarrow> tsteps V a c"
  by (rule rtranclp_trans)

subsection \<open>Elementary changes of the helpers\<close>

lemma same_refl [simp]: "same t t"
  by (simp add: same_def option.rel_refl)

lemma rel_same_refl [simp]: "rel_option same x x"
  by (simp add: option.rel_refl)

lemma keep_frame:
  "cHeap c' = cHeap c \<Longrightarrow> cNext c' = cNext c \<Longrightarrow> cTunnels c' = cTunnels c \<Longrightarrow> cIDs c' = cIDs c \<Longrightarrow> tsteps V c c'"
  by (auto intro!: r_into_rtranclp ts_keep)

lemma modT_simps [simp]:
  "cNext (modT p f c) = cNext c" "cIDs (modT p f c) = cIDs c" "cTunnels (modT p f c) = cTunnels c"
  "cHeap (modT p f c) = (cHeap c)(p := map_option f (cHeap c p))" "cPending (modT p f c) = cPending c"
  by (simp_all add: modT_def)

lemma keep_modT: "(\<And>t. cHeap c p = Some t \<Longrightarrow> same t (f t)) \<Longrightarrow> tsteps V c (modT p f c)"
  by (rule r_into_rtranclp, rule ts_keep) (auto simp: option.rel_map split: option.split, cases "cHeap c p", auto)

lemma same_modS: "(\<And>s. ssLocalID (f s) = ssLocalID s) \<Longrightarrow> same t (modS i f t)"
  by (simp add: same_def modS_def option.rel_map option.rel_refl)

lemma same_modS_const: "tuSessions t i = Some s0 \<Longrightarrow> ssLocalID s = ssLocalID s0 \<Longrightarrow> same t (modS i (\<lambda>_. s) t)"
  by (simp add: same_def modS_def option.rel_refl)

lemma same_fields [simp]:
  "same t (t\<lparr>tuChannel := x\<rparr>)" "same t (t\<lparr>tuInstalled := b\<rparr>)" "same t (t\<lparr>tuRunning := b\<rparr>)"
  "same t (t\<lparr>tuChannel := x, tuRunning := b\<rparr>)" "same t (t\<lparr>tuFSM := tunnel_Stop (tuFSM t)\<rparr>)"
  by (simp_all add: same_def option.rel_refl)

lemma unregister_steps: "tsteps V c (unregisterTunnel ip i c)"
  by (rule r_into_rtranclp, rule ts_keep) (auto simp: unregisterTunnel_def map_le_def)

lemma callVPP_steps: "callVPP e v c = (r, c') \<Longrightarrow> tsteps V c c'"
  by (auto simp: callVPP_def intro!: keep_frame)

lemma callVPP_simps [simp]: "callVPP e v c = (r, c') \<Longrightarrow> cHeap c' = cHeap c"
  by (auto simp: callVPP_def)

lemma installTunnel_steps: "installTunnelVPP e p t c = (r, c') \<Longrightarrow> tsteps V c c'"
  by (auto simp: installTunnelVPP_def split: if_splits prod.splits option.splits
      intro: callVPP_steps tsteps_trans [OF callVPP_steps keep_modT])

lemma uninstallTunnel_steps: "tsteps V c (uninstallTunnelVPP e p t c)"
proof -
  let ?c = "modT p (\<lambda>t. t\<lparr>tuInstalled := False\<rparr>) c"
  have 1: "tsteps V c ?c" by (rule keep_modT) simp
  have 2: "tsteps V ?c (snd (callVPP e x ?c))" for x by (rule callVPP_steps [OF prod.collapse [symmetric]])
  show ?thesis by (auto simp: uninstallTunnelVPP_def Let_def intro: 1 tsteps_trans [OF 1 2])
qed

lemma installSession_steps: "installLNSSessionVPP e p t s c = (r, c') \<Longrightarrow> tsteps V c c'"
  by (auto simp: installLNSSessionVPP_def split: if_splits prod.splits option.splits
      intro: callVPP_steps intro!: tsteps_trans [OF callVPP_steps keep_modT] same_modS)

lemma chanSend_steps: "chanSend e p b sid c = (r, c') \<Longrightarrow> tsteps V c c'"
  by (auto simp: chanSend_def split: option.splits prod.splits if_splits intro!: keep_modT)

lemma startRunner_steps: "tsteps V c (startTunnelRunner e p t c)"
proof (cases "eSend (vPPP e)")
  case True
  have "tsteps V c (modT p (\<lambda>t. t\<lparr>tuChannel := Some (NewControlChannel runnerConfig True (vLinkFails e p)), tuRunning := True\<rparr>) c)"
    by (rule keep_modT) simp
  then show ?thesis using True by (auto simp: startTunnelRunner_def elim!: tsteps_trans intro!: keep_frame)
qed (simp add: startTunnelRunner_def)

lemma stopRunner_steps: "tsteps V c (stopTunnelRunner ip i c)"
proof (cases "cRunners c (makeTunnelKey ip i)")
  case None
  then show ?thesis by (auto simp: stopTunnelRunner_def Let_def intro!: keep_frame)
next
  case (Some p)
  have "tsteps V c (modT p (\<lambda>t. t\<lparr>tuRunning := False\<rparr>) c)" by (rule keep_modT) simp
  then show ?thesis using Some by (auto simp: stopTunnelRunner_def Let_def elim!: tsteps_trans intro!: keep_frame)
qed

lemma withPPP_steps: "tsteps V c (withPPP p sid l c)"
proof -
  have "tsteps V c (c\<lparr>cReg := lReg l\<rparr>)" by (rule keep_frame) simp_all
  also have "tsteps V \<dots> (withPPP p sid l c)" unfolding withPPP_def by (intro keep_modT same_modS) simp
  finally show ?thesis .
qed

lemma close_steps: "tsteps V c (releaseTunnelID ip i (unregisterTunnel ip i c))"
  by (rule r_into_rtranclp) (rule ts_close)

lemma publish_steps: "tsteps V c (publishLACDecision e d c)"
  by (auto simp: publishLACDecision_def intro!: keep_frame)

lemma clearPending_steps: "tsteps V c (clearLACPending ip i c)"
  by (auto simp: clearLACPending_def intro!: keep_frame)

subsection \<open>Identifiers\<close>

lemma idScan_used: "idScan n a = (Some i, a') \<Longrightarrow> i \<in> inUse a'"
  by (induction n arbitrary: a) (auto simp: Let_def split: if_splits)

lemma id_Allocate_used: "id_Allocate a = (Some i, a') \<Longrightarrow> i \<in> inUse a'"
  by (auto simp: id_Allocate_def Let_def split: if_splits dest: idScan_used)

lemma allocateTunnelID_cases:
  assumes "allocateTunnelID ip c = (r, c')"
  obtains a where "id_Allocate (idsOf (addrText ip) c) = (r, a)" "c' = c\<lparr>cIDs := (cIDs c)(addrText ip \<mapsto> a)\<rparr>"
  using assms by (auto simp: allocateTunnelID_def idsOf_def Let_def split: prod.splits option.splits)

lemma allocate_steps: "allocateTunnelID ip c = (r, c') \<Longrightarrow> tsteps V c c'"
proof (erule allocateTunnelID_cases)
  fix a assume a: "id_Allocate (idsOf (addrText ip) c) = (r, a)" "c' = c\<lparr>cIDs := (cIDs c)(addrText ip \<mapsto> a)\<rparr>"
  show ?thesis unfolding a(2) using id_Allocate_spec [OF _ a(1)]
    by (intro r_into_rtranclp ts_ids) (auto split: option.splits)
qed

lemma allocate_used: "allocateTunnelID ip c = (Some i, c') \<Longrightarrow> i \<in> inUse (idsOf (addrText ip) c')"
  by (erule allocateTunnelID_cases) (auto simp: idsOf_def dest: id_Allocate_used)

lemma allocate_release_steps:
  assumes "allocateTunnelID ip c = (Some i, c')" shows "tsteps V c (releaseTunnelID ip i c')"
proof -
  from assms obtain a where a: "id_Allocate (idsOf (addrText ip) c) = (Some i, a)" "c' = c\<lparr>cIDs := (cIDs c)(addrText ip \<mapsto> a)\<rparr>"
    by (rule allocateTunnelID_cases)
  have "releaseTunnelID ip i c' = c\<lparr>cIDs := (cIDs c)(addrText ip \<mapsto> id_Release i a)\<rparr>"
    by (simp add: a(2) releaseTunnelID_def)
  moreover have "tstep V c \<dots>"
    using id_Allocate_spec [OF _ a(1)] by (intro ts_ids) (auto simp: id_Release_inv, auto simp: id_Release_def)
  ultimately show ?thesis by auto
qed

subsection \<open>Tunnels created\<close>

text \<open>What the two callers of \<^verbatim>\<open>registerTunnel\<close> do after an allocation.\<close>

lemma new_tunnel_steps:
  assumes "allocateTunnelID ip c = (Some i, c1)" "registerTunnel (cNext c1) t c1 = (True, c2)"
    and "tuPeerIP t = ip" "tuLocalID t = i" "tuSessions t = Map.empty" "tuRefCount t = 0"
    and "tState (tuFSM t) \<in> {TunnelWaitCtlConn, TunnelWaitCtlReply}"
  shows "tsteps V c (c2\<lparr>cHeap := (cHeap c2)(cNext c1 \<mapsto> t), cNext := Suc (cNext c1)\<rparr>)"
proof -
  have c2: "c2 = c1\<lparr>cTunnels := (cTunnels c1)(makeTunnelKey ip i \<mapsto> cNext c1)\<rparr>" "cTunnels c1 (makeTunnelKey ip i) = None"
    using assms(2-4) by (auto simp: registerTunnel_def Let_def split: if_splits)
  have "tsteps V c c1" by (rule allocate_steps [OF assms(1)])
  also have "tstep V c1 (c2\<lparr>cHeap := (cHeap c2)(cNext c1 \<mapsto> t), cNext := Suc (cNext c1)\<rparr>)"
    unfolding c2(1) using ts_new [OF assms(3,4) allocate_used [OF assms(1)] c2(2) assms(5-7)] by simp
  finally show ?thesis .
qed

lemma registerTunnel_False: "registerTunnel p t c = (False, c') \<Longrightarrow> c' = c"
  by (auto simp: registerTunnel_def Let_def split: if_splits)

lemma openResponder_cases:
  assumes "openResponder e localIP peerIP pid host ours resp cfg c = (r, c')"
  obtains "\<exists>err. r = Inl err" "tsteps V c c'"
  | i c1 c2 t where "allocateTunnelID peerIP c = (Some i, c1)"
      "t = responder localIP peerIP i pid host ours cfg \<lparr>tState = TunnelWaitCtlConn, tRole = RoleResponder\<rparr>"
      "registerTunnel (cNext c1) t c1 = (True, c2)"
      "c' = startTunnelRunner e (cNext c1) t (c2\<lparr>cHeap := (cHeap c2)(cNext c1 \<mapsto> t), cNext := Suc (cNext c1)\<rparr>)"
      "r = Inl Panic \<or> (\<exists>body. r = Inr (body, cNext c1))"
proof (cases "allocateTunnelID peerIP c")
  case (Pair j c1)
  have fsm: "RecvSCCRQ (NewTunnelFSM RoleResponder) = Inr \<lparr>tState = TunnelWaitCtlConn, tRole = RoleResponder\<rparr>"
    by (simp add: tunnel_fsm_defs)
  show ?thesis
  proof (cases j)
    case None
    then show ?thesis using assms Pair allocate_steps [OF Pair] by (intro that(1)) (auto simp: openResponder_def)
  next
    case (Some i)
    let ?t = "responder localIP peerIP i pid host ours cfg \<lparr>tState = TunnelWaitCtlConn, tRole = RoleResponder\<rparr>"
    obtain b c2 where reg: "registerTunnel (cNext c1) ?t c1 = (b, c2)" by (cases "registerTunnel (cNext c1) ?t c1")
    show ?thesis
    proof (cases b)
      case True
      with Some Pair reg assms show ?thesis
        by (intro that(2) [of i c1 ?t c2]) (auto simp: openResponder_def fsm Let_def split: option.splits)
    next
      case False
      with reg have "c2 = c1" by (auto dest: registerTunnel_False)
      with False Some Pair reg assms show ?thesis using allocate_release_steps [of peerIP c i c1]
        by (intro that(1)) (auto simp: openResponder_def fsm)
    qed
  qed
qed

lemma responder_simps [simp]:
  "tuPeerIP (responder l ip i pid h o' cfg f) = ip" "tuLocalID (responder l ip i pid h o' cfg f) = i"
  "tuSessions (responder l ip i pid h o' cfg f) = Map.empty" "tuRefCount (responder l ip i pid h o' cfg f) = 0"
  "tuFSM (responder l ip i pid h o' cfg f) = f" "tuChallenge (responder l ip i pid h o' cfg f) = o'"
  "tuSecret (responder l ip i pid h o' cfg f) = lcSecret cfg" "tuRole (responder l ip i pid h o' cfg f) = RoleResponder"
  by (simp_all add: responder_def)

lemma openResponder_steps:
  assumes "openResponder e localIP peerIP pid host ours resp cfg c = (r, c')" shows "tsteps V c c'"
  using assms
proof (cases rule: openResponder_cases [where V = V])
  case (2 i c1 c2 t)
  have "tsteps V c (c2\<lparr>cHeap := (cHeap c2)(cNext c1 \<mapsto> t), cNext := Suc (cNext c1)\<rparr>)"
    by (rule new_tunnel_steps [OF 2(1,3)]) (simp_all add: 2(2))
  also have "tsteps V \<dots> c'" unfolding 2(4) by (rule startRunner_steps)
  finally show ?thesis .
qed

lemma HandleSCCRQ_cases:
  assumes "HandleSCCRQ e localIP peerIP avps cfg c = (r, c')"
  obtains err where "r = Inl err" "c' = c"
  | pid host ours resp where "openResponder e localIP peerIP pid host ours resp cfg c = (r, c')"
      "lcChallengeRequired cfg \<and> lcSecret cfg \<noteq> [] \<Longrightarrow> vChallenge e 0 = Some ours"
proof (cases "\<exists>pid host ours resp. openResponder e localIP peerIP pid host ours resp cfg c = (r, c')
    \<and> (lcChallengeRequired cfg \<and> lcSecret cfg \<noteq> [] \<longrightarrow> vChallenge e 0 = Some ours)")
  case True
  then show ?thesis using that(2) by blast
next
  case False
  then have "\<exists>err. r = Inl err \<and> c' = c"
    using assms by (auto simp: HandleSCCRQ_def Let_def split: if_splits option.splits) blast+
  then show ?thesis using that(1) by blast
qed

lemma HandleSCCRQ_steps:
  assumes "HandleSCCRQ e localIP peerIP avps cfg c = (r, c')" shows "tsteps V c c'"
  using assms by (cases rule: HandleSCCRQ_cases) (auto intro: openResponder_steps)

lemma openInitiator_steps:
  assumes "allocateTunnelID (spServerIP spec) c = (Some lid, c1)" "openInitiator e req spec localIP lid ours c1 = (r, c')"
  shows "tsteps V c c'"
proof -
  let ?ip = "spServerIP spec"
  let ?host = "if lqLocalName req = [] then eHostname (vPPP e) else lqLocalName req"
  let ?t = "initiator localIP lid ?host ours spec \<lparr>tState = TunnelWaitCtlReply, tRole = RoleInitiator\<rparr>"
  have fsm: "SendSCCRQ (NewTunnelFSM RoleInitiator) = Inr \<lparr>tState = TunnelWaitCtlReply, tRole = RoleInitiator\<rparr>"
    by (simp add: tunnel_fsm_defs)
  have def: "openInitiator e req spec localIP lid ours c1 =
     (case registerTunnel (cNext c1) ?t c1 of
        (False, c) \<Rightarrow> (Some ErrTunnelExists, releaseTunnelID ?ip lid c)
      | (True, c) \<Rightarrow>
     (let c = startTunnelRunner e (cNext c1) ?t (c\<lparr>cHeap := (cHeap c)(cNext c1 \<mapsto> ?t), cNext := Suc (cNext c1)\<rparr>);
          c = c\<lparr>cPending := (cPending c)(makeTunnelKey ?ip lid \<mapsto> req)\<rparr>;
          body = BuildSCCRQ \<lparr>rqLocalTunnelID = lid, rqReceiveWindowSize = 16, rqHostName = ?host, rqVendorName = [],
            rqFramingCaps = FramingSync, rqBearerCaps = BearerDigital, rqFirmwareRevision = 0, rqChallenge = ours\<rparr> in
     (case chanSend e (cNext c1) body 0 c of
        (None, c) \<Rightarrow> (None, c)
      | (Some err, c) \<Rightarrow> (Some err, if err = Panic then c else clearLACPending ?ip lid (releaseTunnelID ?ip lid
             (unregisterTunnel ?ip lid (stopTunnelRunner ?ip lid c)))))))"
    unfolding openInitiator_def fsm Let_def by (simp only: sum.case)
  obtain b c2 where reg: "registerTunnel (cNext c1) ?t c1 = (b, c2)" by (cases "registerTunnel (cNext c1) ?t c1")
  show ?thesis
  proof (cases b)
    case False
    with reg have "c2 = c1" by (auto dest: registerTunnel_False)
    then have "c' = releaseTunnelID ?ip lid c1" using assms(2) False reg unfolding def by simp
    with allocate_release_steps [OF assms(1)] show ?thesis by simp
  next
    case True
    define c3 where "c3 = startTunnelRunner e (cNext c1) ?t (c2\<lparr>cHeap := (cHeap c2)(cNext c1 \<mapsto> ?t), cNext := Suc (cNext c1)\<rparr>)"
    define c4 where "c4 = c3\<lparr>cPending := (cPending c3)(makeTunnelKey ?ip lid \<mapsto> req)\<rparr>"
    define body where "body = BuildSCCRQ \<lparr>rqLocalTunnelID = lid, rqReceiveWindowSize = 16, rqHostName = ?host, rqVendorName = [],
            rqFramingCaps = FramingSync, rqBearerCaps = BearerDigital, rqFirmwareRevision = 0, rqChallenge = ours\<rparr>"
    obtain r1 c5 where send: "chanSend e (cNext c1) body 0 c4 = (r1, c5)" by (cases "chanSend e (cNext c1) body 0 c4")
    have "tsteps V c (c2\<lparr>cHeap := (cHeap c2)(cNext c1 \<mapsto> ?t), cNext := Suc (cNext c1)\<rparr>)"
      using reg True by (intro new_tunnel_steps [OF assms(1)]) (simp_all add: initiator_def)
    also have "tsteps V \<dots> c3" unfolding c3_def by (rule startRunner_steps)
    also have "tsteps V c3 c4" unfolding c4_def by (rule keep_frame) simp_all
    also have "tsteps V c4 c5" by (rule chanSend_steps [OF send])
    finally have upto: "tsteps V c c5" .
    have "c' = c5 \<or> c' = clearLACPending ?ip lid (releaseTunnelID ?ip lid (unregisterTunnel ?ip lid (stopTunnelRunner ?ip lid c5)))"
      using assms(2) reg True unfolding def by (auto simp: Let_def c3_def [symmetric] c4_def [symmetric] body_def [symmetric] send split: option.splits if_splits)
    moreover have "tsteps V c5 (clearLACPending ?ip lid (releaseTunnelID ?ip lid (unregisterTunnel ?ip lid (stopTunnelRunner ?ip lid c5))))"
      by (rule tsteps_trans [OF stopRunner_steps tsteps_trans [OF close_steps clearPending_steps]])
    ultimately show ?thesis using upto by (auto elim: tsteps_trans)
  qed
qed

lemma tryLACTunnel_steps:
  assumes "tryLACTunnel e n req spec c = (r, c')" shows "tsteps V c c'"
proof (cases "allocateTunnelID (spServerIP spec) c")
  case (Pair j c1)
  then show ?thesis
    using assms allocate_steps [OF Pair] allocate_release_steps [of "spServerIP spec" c _ c1]
    by (auto simp: tryLACTunnel_def Let_def split: if_splits option.splits elim!: openInitiator_steps [rotated])
qed

lemma lacLoop_steps: "lacLoop e n req specs k c = (r, c') \<Longrightarrow> tsteps V c c'"
proof (induction specs arbitrary: n k c)
  case (Cons spec specs)
  obtain r1 c1 where t: "tryLACTunnel e n req spec c = (r1, c1)" by (cases "tryLACTunnel e n req spec c")
  have "tsteps V c c1" by (rule tryLACTunnel_steps [OF t])
  with Cons.prems t Cons.IH [of "Suc n" _ c] Cons.IH [of "Suc n" k c1] show ?case
    by (auto split: if_splits option.splits elim: tsteps_trans)
qed simp

lemma StartLACSession_steps:
  assumes "StartLACSession e req c = (r, c')" shows "tsteps V c c'"
proof (cases "lacLoop e 0 req (lqSpecs req) 0 c")
  case (Pair x c1)
  with assms lacLoop_steps [OF Pair] show ?thesis
    by (auto simp: StartLACSession_def Let_def split: if_splits sum.splits intro: tsteps_trans [OF _ publish_steps])
qed

subsection \<open>Messages of a tunnel\<close>

lemma freeID_spec: "freeID i m \<noteq> 0 \<Longrightarrow> m (freeID i m) = None"
proof (induction i m rule: freeID.induct)
  case (1 i m)
  then show ?case using freeID.simps [of i m] by (auto split: if_splits)
qed

lemma add_steps:
  "cHeap c p = Some t \<Longrightarrow> ssLocalID s = freeID 1 (tuSessions t) \<Longrightarrow> ssLocalID s \<noteq> 0 \<Longrightarrow> tsteps V c (modT p (addSession s) c)"
  using freeID_spec [of 1 "tuSessions t"] by (intro r_into_rtranclp ts_add) simp_all

lemma rem_steps: "cHeap c p = Some t \<Longrightarrow> tuSessions t i \<noteq> None \<Longrightarrow> tsteps V c (modT p (removeSession i) c)"
  by (rule r_into_rtranclp) (rule ts_rem)

lemma HandleICRQ_steps:
  assumes t: "cHeap c p = Some t" and r: "HandleICRQ e p t avps c = (r, c')"
  shows "tsteps V c c'"
proof (cases "DecodeMessageType avps = MsgTypeICRQ \<and> freeID 1 (tuSessions t) \<noteq> 0
    \<and> Option.bind (FindFirst avps 0 AVPAssignedSessionID) DecodeUint16 \<noteq> None")
  case True
  then obtain pid where pid: "Option.bind (FindFirst avps 0 AVPAssignedSessionID) DecodeUint16 = Some pid" by auto
  let ?i = "freeID 1 (tuSessions t)"
  define s where "s = \<lparr>ssSessionID = makeSessionID (tuPeerIP t) (tuLocalID t) ?i, ssLocalID = ?i, ssPeerID = pid,
     ssRole = SessionRoleLNS, ssFSM = \<lparr>sState = SessionWaitReply, sRole = SessionRoleLNS\<rparr>, ssPPP = None, ssUsername = [],
     ssSwIf = 0, ssProgrammed = False, ssPPPoEID = 0, ssPPPoESwIf = 0\<rparr>"
  obtain ok c1 where inst: "installLNSSessionVPP e p t s (modT p (addSession s) c) = (ok, c1)"
    by (cases "installLNSSessionVPP e p t s (modT p (addSession s) c)")
  have fsm: "RecvICRQ (NewSessionFSM SessionRoleLNS) = Inr \<lparr>sState = SessionWaitReply, sRole = SessionRoleLNS\<rparr>"
    by (simp add: session_fsm_defs)
  have i: "ssLocalID s = ?i" by (simp add: s_def)
  have "tsteps V c (modT p (addSession s) c)" using t True i by (intro add_steps) simp_all
  also have "tsteps V \<dots> c1" by (rule installSession_steps [OF inst])
  finally have 1: "tsteps V c c1" .
  have h: "\<not> ok \<Longrightarrow> cHeap c1 p = Some (addSession s t)"
    using inst t by (auto simp: installLNSSessionVPP_def split: if_splits prod.splits option.splits)
  have 2: "c' = (if ok then c1 else modT p (removeSession ?i) c1)"
    using r True pid inst by (auto simp: HandleICRQ_def fsm s_def [symmetric] split: option.splits)
  show ?thesis
  proof (cases ok)
    case False
    have "tsteps V c1 (modT p (removeSession ?i) c1)" by (rule rem_steps [OF h [OF False]]) (simp add: addSession_def i)
    with 1 2 False show ?thesis by (auto elim: tsteps_trans)
  qed (use 1 2 in simp)
next
  case False
  with r show ?thesis by (auto simp: HandleICRQ_def split: option.splits if_splits)
qed

lemma HandleICCN_steps: "HandleICCN e p s avps c = (r, c') \<Longrightarrow> tsteps V c c'"
  by (auto simp: HandleICCN_def split: if_splits sum.splits intro!: tsteps_trans [OF keep_modT withPPP_steps] same_modS)

lemma HandleCDN_steps:
  assumes "cHeap c p = Some t" "tuSessions t (ssLocalID s) = Some s0" shows "tsteps V c (HandleCDN p s c)"
  unfolding HandleCDN_def
proof (rule tsteps_trans [OF keep_modT rem_steps])
  let ?f = "\<lambda>s. s\<lparr>ssFSM := session_Disconnect (ssFSM s)\<rparr>"
  show "same t (modS (ssLocalID s) ?f t)" for t by (rule same_modS) simp
  show "cHeap (modT p (modS (ssLocalID s) ?f) c) p = Some (modS (ssLocalID s) ?f t)" using assms by simp
  show "tuSessions (modS (ssLocalID s) ?f t) (ssLocalID s) \<noteq> None" using assms by (simp add: modS_def)
qed

lemma HandleStopCCN_steps: "tsteps V c (HandleStopCCN e p t c)"
proof -
  let ?c = "modT p (\<lambda>t. t\<lparr>tuFSM := tunnel_Stop (tuFSM t)\<rparr>) c"
  have "tsteps V c ?c" by (rule keep_modT) simp
  also have "tsteps V ?c (stopTunnelRunner (tuPeerIP t) (tuLocalID t) ?c)" by (rule stopRunner_steps)
  also have "tsteps V \<dots> (releaseTunnelID (tuPeerIP t) (tuLocalID t) (unregisterTunnel (tuPeerIP t) (tuLocalID t) \<dots>))"
    by (rule close_steps)
  also have "tsteps V \<dots> (HandleStopCCN e p t c)" unfolding HandleStopCCN_def Let_def by (rule uninstallTunnel_steps)
  finally show ?thesis .
qed

text \<open>A response that verifies for a tunnel, and the messages that may establish it.\<close>

definition verifies :: "bytes \<Rightarrow> l2Tunnel \<Rightarrow> bool" where
  "verifies r t \<longleftrightarrow> VerifyChallengeResponse (ucast MsgTypeSCCCN) (tuSecret t) (tuChallenge t) r = None
     \<or> tuRole t = RoleInitiator \<and> VerifyChallengeResponse (ucast MsgTypeSCCRP) (tuSecret t) (tuChallenge t) r = None"

definition allows :: "(l2Tunnel \<Rightarrow> bool) \<Rightarrow> AVP list \<Rightarrow> bool" where
  "allows V avps \<longleftrightarrow> (\<forall>a t. FindFirst avps 0 AVPChallengeResponse = Some a \<longrightarrow> verifies (Value a) t \<longrightarrow> V t)"

lemma modT_cong: "cHeap c p = Some t \<Longrightarrow> f t = g t \<Longrightarrow> modT p f c = modT p g c"
  by (simp add: modT_def)

lemma clear_steps: "cHeap c p = Some t \<Longrightarrow> V t \<Longrightarrow> f t = t\<lparr>tuChallenge := []\<rparr> \<Longrightarrow> tsteps V c (modT p f c)"
  by (subst modT_cong [where g = "tuChallenge_update (\<lambda>_. [])"]) (auto intro: r_into_rtranclp ts_clear)

lemma establish_steps:
  "cHeap c p = Some t \<Longrightarrow> tuChallenge t = [] \<Longrightarrow> RecvSCCCN (tuFSM t) = Inr fsm \<or> RecvSCCRP (tuFSM t) = Inr fsm
    \<Longrightarrow> f t = t\<lparr>tuFSM := fsm\<rparr> \<Longrightarrow> tsteps V c (modT p f c)"
  by (subst modT_cong [where g = "tuFSM_update (tState_update (\<lambda>_. TunnelEstablished))"])
    (auto intro!: r_into_rtranclp ts_establish simp: RecvSCCCN_def RecvSCCRP_def split: if_splits)

lemma HandleSCCCN_steps:
  assumes t: "cHeap c p = Some t" and V: "allows V avps" and r: "HandleSCCCN e p t avps (tuChallenge t) c = (r, c')"
  shows "tsteps V c c'"
proof -
  have est: "tsteps V c0 c'" if t0: "cHeap c0 p = Some t0" "tuChallenge t0 = []"
    and r0: "(case RecvSCCCN (tuFSM t0) of Inl err \<Rightarrow> (Some (ErrFSM err), c0) | Inr fsm \<Rightarrow>
       (case installTunnelVPP e p t0 (modT p (\<lambda>t. t\<lparr>tuFSM := fsm\<rparr>) c0) of (ok, c) \<Rightarrow> (if ok then None else Some ErrVPP, c))) = (r, c')"
    for c0 t0
  proof (cases "RecvSCCCN (tuFSM t0)")
    case (Inr fsm)
    let ?c = "modT p (\<lambda>t. t\<lparr>tuFSM := fsm\<rparr>) c0"
    have "tsteps V c0 ?c" using t0 Inr by (intro establish_steps) auto
    also have "tsteps V ?c c'" using r0 Inr installTunnel_steps [of e p t0 ?c _ _ V] by (auto split: prod.splits)
    finally show ?thesis .
  qed (use r0 in simp)
  show ?thesis
  proof (cases "tuChallenge t = []")
    case True
    then show ?thesis using r est [OF t] by (auto simp: HandleSCCCN_def split: if_splits)
  next
    case False
    let ?c = "modT p (\<lambda>t. t\<lparr>tuChallenge := []\<rparr>) c"
    consider "c' = c"
      | a where "DecodeMessageType avps = MsgTypeSCCCN" "FindFirst avps 0 AVPChallengeResponse = Some a"
          "VerifyChallengeResponse (ucast MsgTypeSCCCN) (tuSecret t) (tuChallenge t) (Value a) = None"
      using False r by (auto simp: HandleSCCCN_def split: if_splits option.splits)
    then show ?thesis
    proof cases
      case (2 a)
      have "tsteps V c ?c" using V 2 t by (intro clear_steps) (auto simp: allows_def verifies_def)
      also have "tsteps V ?c c'"
        using r False 2 t by (intro est [of ?c "t\<lparr>tuChallenge := []\<rparr>"]) (auto simp: HandleSCCCN_def split: if_splits)
      finally show ?thesis .
    qed simp
  qed
qed

lemma openLACSession_steps:
  assumes r: "openLACSession e p req c = (r, c')" shows "tsteps V c c'"
proof (cases "\<exists>t. cHeap c p = Some t \<and> freeID 1 (tuSessions t) \<noteq> 0")
  case True
  then obtain t where t: "cHeap c p = Some t" "freeID 1 (tuSessions t) \<noteq> 0" by auto
  let ?i = "freeID 1 (tuSessions t)"
  define s where "s = \<lparr>ssSessionID = makeSessionID (tuPeerIP t) (tuLocalID t) ?i, ssLocalID = ?i, ssPeerID = 0,
     ssRole = SessionRoleLAC, ssFSM = \<lparr>sState = SessionWaitReply, sRole = SessionRoleLAC\<rparr>, ssPPP = None,
     ssUsername = lqUsername req, ssSwIf = 0, ssProgrammed = False, ssPPPoEID = lqPPPoEID req, ssPPPoESwIf = 0\<rparr>"
  let ?c = "(modT p (addSession s) c)\<lparr>cSerial := cSerial c + 1\<rparr>"
  have fsm: "SendICRQ (NewSessionFSM SessionRoleLAC) = Inr \<lparr>sState = SessionWaitReply, sRole = SessionRoleLAC\<rparr>"
    by (simp add: session_fsm_defs)
  have "tsteps V c (modT p (addSession s) c)" using t by (intro add_steps) (simp_all add: s_def)
  also have "tsteps V \<dots> ?c" by (rule keep_frame) simp_all
  also have "tsteps V ?c c'"
    using r t unfolding openLACSession_def fsm Let_def by (auto simp: s_def [symmetric] dest: chanSend_steps)
  finally show ?thesis .
next
  case False
  with r show ?thesis by (auto simp: openLACSession_def split: option.splits)
qed

lemma answerSCCRP_steps:
  assumes t: "cHeap c p = Some t" "tuChallenge t = []" and r: "answerSCCRP e p t avps c = (r, c')"
  shows "tsteps V c c'"
proof -
  consider "c' = c" | fsm body where "RecvSCCRP (tuFSM t) = Inr fsm"
      "(case chanSend e p body 0 (modT p (\<lambda>t. t\<lparr>tuFSM := fsm\<rparr>) c) of (Some err, c) \<Rightarrow> (Some err, c) | (None, c) \<Rightarrow>
       (case installTunnelVPP e p t c of
          (False, c) \<Rightarrow> (Some ErrVPP, c)
        | (True, c) \<Rightarrow> (case cPending c (makeTunnelKey (tuPeerIP t) (tuLocalID t)) of
          None \<Rightarrow> (Some ErrLACRequestMissing, c)
        | Some req \<Rightarrow> openLACSession e p req c))) = (r, c')"
    using r unfolding answerSCCRP_def Let_def by (auto split: if_splits sum.splits)
  then show ?thesis
  proof cases
    case (2 fsm body)
    let ?c = "modT p (\<lambda>t. t\<lparr>tuFSM := fsm\<rparr>) c"
    obtain r1 c1 where send: "chanSend e p body 0 ?c = (r1, c1)" by (cases "chanSend e p body 0 ?c")
    obtain ok c2 where inst: "installTunnelVPP e p t c1 = (ok, c2)" by (cases "installTunnelVPP e p t c1")
    have "tsteps V c ?c" using t 2(1) by (intro establish_steps) auto
    also have "tsteps V ?c c1" by (rule chanSend_steps [OF send])
    finally have 1: "tsteps V c c1" .
    have 12: "tsteps V c1 c2" by (rule installTunnel_steps [OF inst])
    have "c' = c1 \<or> c' = c2 \<or> (\<exists>req. openLACSession e p req c2 = (r, c'))"
      using 2(2) send inst by (auto split: option.splits bool.splits)
    moreover have "tsteps V c c2" by (rule tsteps_trans [OF 1 12])
    ultimately show ?thesis using 1 tsteps_trans [OF _ openLACSession_steps, where V = V] by blast
  qed simp
qed

lemma handleSCCRP_steps:
  assumes t: "cHeap c p = Some t" and V: "allows V avps" and r: "handleSCCRP e p t avps c = (r, c')"
  shows "tsteps V c c'"
proof -
  show ?thesis
  proof (cases "DecodeMessageType avps = MsgTypeSCCRP \<and> tuRole t = RoleInitiator
      \<and> Option.bind (FindFirst avps 0 AVPAssignedTunnelID) DecodeUint16 \<noteq> None")
    case False
    then show ?thesis using r by (auto simp: handleSCCRP_def split: if_splits option.splits)
  next
    case True
    then obtain pid where pid: "Option.bind (FindFirst avps 0 AVPAssignedTunnelID) DecodeUint16 = Some pid" by auto
    define host where "host = (case FindFirst avps 0 AVPHostName of None \<Rightarrow> tuPeerHostname t | Some h \<Rightarrow> DecodeString h)"
    have 2: "handleSCCRP e p t avps c =
      (let t = t\<lparr>tuPeerID := pid, tuPeerHostname := host\<rparr>; c = modT p (\<lambda>_. t) c in
       if tuChallenge t = [] then answerSCCRP e p t avps c
       else (case FindFirst avps 0 AVPChallengeResponse of None \<Rightarrow> (Some ErrMissingChallengeResponse, c) | Some a \<Rightarrow>
         (case VerifyChallengeResponse (ucast MsgTypeSCCRP) (tuSecret t) (tuChallenge t) (Value a) of
            Some err \<Rightarrow> (Some (ErrChallengeRejected err), c)
          | None \<Rightarrow> answerSCCRP e p (t\<lparr>tuChallenge := []\<rparr>) avps (modT p (\<lambda>t. t\<lparr>tuChallenge := []\<rparr>) c))))"
      unfolding handleSCCRP_def pid host_def using True by simp
    let ?t = "t\<lparr>tuPeerID := pid, tuPeerHostname := host\<rparr>"
    let ?c = "modT p (\<lambda>_. ?t) c"
    have h: "cHeap ?c p = Some ?t" using t by simp
    have 1: "tsteps V c ?c" by (rule keep_modT) (use t in \<open>simp add: same_def option.rel_refl\<close>)
    consider "c' = ?c" | "tuChallenge ?t = []" "answerSCCRP e p ?t avps ?c = (r, c')"
      | a where "FindFirst avps 0 AVPChallengeResponse = Some a" "verifies (Value a) ?t"
          "answerSCCRP e p (?t\<lparr>tuChallenge := []\<rparr>) avps (modT p (\<lambda>t. t\<lparr>tuChallenge := []\<rparr>) ?c) = (r, c')"
      using r True unfolding 2 Let_def verifies_def by (auto split: if_splits option.splits)
    then have "tsteps V ?c c'"
    proof cases
      case 2
      show ?thesis by (rule answerSCCRP_steps [OF h 2])
    next
      case (3 a)
      have "tsteps V ?c (modT p (\<lambda>t. t\<lparr>tuChallenge := []\<rparr>) ?c)"
        using V 3 by (intro clear_steps [OF h]) (auto simp: allows_def)
      also have "tsteps V \<dots> c'" by (rule answerSCCRP_steps [OF _ _ 3(3)]) (simp_all add: t)
      finally show ?thesis .
    qed simp
    with 1 show ?thesis by (rule tsteps_trans)
  qed
qed

lemma bindLACSession_steps:
  assumes r: "bindLACSession e p t i pid sw req c = (r, c')" shows "tsteps V c c'"
proof -
  obtain body where def: "bindLACSession e p t i pid sw req c = (case chanSend e p body pid c of
        (Some err, c) \<Rightarrow> (Some err, c)
      | (None, c) \<Rightarrow>
     (case (if eVPP (vPPP e)
            then callVPP e (AddL2TPSessionRaw (tuLocalIP t) (tuPeerIP t) (tuLocalID t) i pid (lqPPPoESwIf req) (lqEncapIf req)) c
            else (Some sw, c)) of
        (None, c) \<Rightarrow> (Some ErrVPP, publishLACDecision e (LACFailed (lqPPPoEID req) ErrVPP)
           (clearLACPending (tuPeerIP t) (tuLocalID t) c))
      | (Some sw, c) \<Rightarrow> (None, publishLACDecision e (LACBound (lqPPPoEID req) (tuLocalID t) (tuPeerID t) i pid sw)
           (clearLACPending (tuPeerIP t) (tuLocalID t)
             (modT p (modS i (\<lambda>s. s\<lparr>ssSwIf := sw, ssPPPoESwIf := lqPPPoESwIf req\<rparr>)) c)))))"
    unfolding bindLACSession_def by blast
  obtain r1 c1 where send: "chanSend e p body pid c = (r1, c1)" by (cases "chanSend e p body pid c")
  let ?v = "if eVPP (vPPP e)
    then callVPP e (AddL2TPSessionRaw (tuLocalIP t) (tuPeerIP t) (tuLocalID t) i pid (lqPPPoESwIf req) (lqEncapIf req)) c1
    else (Some sw, c1)"
  obtain r2 c2 where v: "?v = (r2, c2)" by (cases ?v)
  have 1: "tsteps V c c1" by (rule chanSend_steps [OF send])
  also have "tsteps V c1 c2" using v by (auto split: if_splits intro: callVPP_steps)
  finally have 2: "tsteps V c c2" .
  have fin: "tsteps V x (publishLACDecision e d (clearLACPending ip j x))" for x d ip j
    by (rule tsteps_trans [OF clearPending_steps publish_steps])
  have mod: "tsteps V c2 (modT p (modS i (\<lambda>s. s\<lparr>ssSwIf := k, ssPPPoESwIf := j\<rparr>)) c2)" for k j
    by (intro keep_modT same_modS) simp
  have "c' = c1 \<or> (\<exists>d. c' = publishLACDecision e d (clearLACPending (tuPeerIP t) (tuLocalID t) c2))
    \<or> (\<exists>d k j. c' = publishLACDecision e d (clearLACPending (tuPeerIP t) (tuLocalID t)
          (modT p (modS i (\<lambda>s. s\<lparr>ssSwIf := k, ssPPPoESwIf := j\<rparr>)) c2)))"
    using r unfolding def send using v by (auto split: option.splits)
  then show ?thesis
    using 1 tsteps_trans [OF 2 fin] tsteps_trans [OF tsteps_trans [OF 2 mod] fin] by auto
qed

lemma handleICRP_steps:
  assumes r: "handleICRP e p t s avps c = (r, c')" shows "tsteps V c c'"
proof -
  let ?c1 = "\<lambda>pid. modT p (modS (ssLocalID s) (\<lambda>s. s\<lparr>ssPeerID := pid\<rparr>)) c"
  let ?c2 = "\<lambda>pid fsm. modT p (modS (ssLocalID s) (\<lambda>s. s\<lparr>ssFSM := fsm\<rparr>)) (?c1 pid)"
  have 1: "tsteps V c (?c1 pid)" for pid by (intro keep_modT same_modS) simp
  have 2: "tsteps V (?c1 pid) (?c2 pid fsm)" for pid fsm by (intro keep_modT same_modS) simp
  have "c' = c \<or> (\<exists>pid. c' = ?c1 pid) \<or> (\<exists>pid fsm. c' = ?c2 pid fsm)
    \<or> (\<exists>pid fsm sw req. bindLACSession e p t (ssLocalID s) pid sw req (?c2 pid fsm) = (r, c'))"
    using r unfolding handleICRP_def Let_def by (auto split: if_splits option.splits sum.splits)
  then show ?thesis
    using 1 tsteps_trans [OF 1 2] tsteps_trans [OF tsteps_trans [OF 1 2] bindLACSession_steps] by blast
qed

subsection \<open>Events\<close>

text \<open>The response that an event carries, if it is a control packet with one.\<close>

definition responseOf :: "l2Event \<Rightarrow> bytes option" where
  "responseOf ev = (case ev of EvPunt pkt \<Rightarrow>
       (case Option.bind (pkUDP pkt) (\<lambda>b. case Parse b of Inl _ \<Rightarrow> None | Inr (h, payload) \<Rightarrow> Some payload) of
          None \<Rightarrow> None
        | Some payload \<Rightarrow> (case ParseAVPs payload of Inl _ \<Rightarrow> None
            | Inr avps \<Rightarrow> map_option Value (FindFirst avps 0 AVPChallengeResponse)))
     | _ \<Rightarrow> None)"

definition authorises :: "l2Event \<Rightarrow> l2Tunnel \<Rightarrow> bool" where
  "authorises ev t \<longleftrightarrow> (case responseOf ev of None \<Rightarrow> False | Some r \<Rightarrow> verifies r t)"

lemma framePPP_steps: "framePPP e p s frame c = (r, c') \<Longrightarrow> tsteps V c c'"
  by (auto simp: framePPP_def Let_def split: option.splits sum.splits ppp_frame_error.splits intro: withPPP_steps)

lemma dispatchSCCRQ_steps:
  assumes "dispatchSCCRQ e src dst h avps c = (r, c')" shows "tsteps V c c'"
proof -
  have fin: "tsteps V c1 c'"
    if "(case Option.bind (cHeap c1 p) tuChannel of None \<Rightarrow> (None, c1) | Some ch \<Rightarrow> chanSend e p (Some body) 0
       (modT p (\<lambda>t. t\<lparr>tuChannel := Some (snd (chan_Recv (Ns h) (Nr h) (vNow e) ch))\<rparr>) c1)) = (r, c')" for c1 p body
    using that by (auto split: option.splits intro!: tsteps_trans [OF keep_modT chanSend_steps])
  have run: "tsteps V c c'" if "(case HandleSCCRQ e dst src avps cfg c of
        (Inl err, c) \<Rightarrow> (Some err, c)
      | (Inr (body, p), c) \<Rightarrow> (case Option.bind (cHeap c p) tuChannel of None \<Rightarrow> (None, c) | Some ch \<Rightarrow>
          chanSend e p (Some body) 0
            (modT p (\<lambda>t. t\<lparr>tuChannel := Some (snd (chan_Recv (Ns h) (Nr h) (vNow e) ch))\<rparr>) c))) = (r, c')" for cfg
  proof (cases "HandleSCCRQ e dst src avps cfg c")
    case (Pair r1 c1)
    have "tsteps V c c1" by (rule HandleSCCRQ_steps [OF Pair])
    also have "tsteps V c1 c'"
      using that Pair fin [of c1] by (cases r1) (simp, clarsimp simp del: Option.bind_eq_None_conv Option.bind_eq_Some_conv)
    finally show ?thesis .
  qed
  show ?thesis
  proof (cases "FindFirst avps 0 AVPHostName")
    case (Some host)
    show ?thesis
    proof (cases "Option.bind (vResolve e) (\<lambda>f. f (DecodeString host))")
      case None
      then show ?thesis using assms Some by (auto simp: dispatchSCCRQ_def split: option.splits)
    next
      case (Some cfg)
      with \<open>FindFirst avps 0 AVPHostName = Some host\<close> show ?thesis
        using assms run [of cfg] by (cases "vResolve e") (simp_all add: dispatchSCCRQ_def)
    qed
  qed (use assms in \<open>simp add: dispatchSCCRQ_def\<close>)
qed

lemma dispatchTunnel_steps:
  assumes t: "cHeap c p = Some t" and V: "allows V avps" and s: "\<And>s. LookupSession src (TunnelID h) (SessionID h) c = Some s
      \<Longrightarrow> tuSessions t (ssLocalID (snd s)) \<noteq> None"
    and r: "dispatchTunnel e src h avps p t c = (r, c')"
  shows "tsteps V c c'"
proof -
  have 1: "tsteps V c c'" if "handleSCCRP e p t avps c = (r, c') \<or> (\<exists>s. handleICRP e p t s avps c = (r, c'))
      \<or> HandleSCCCN e p t avps (tuChallenge t) c = (r, c') \<or> (\<exists>s. HandleICCN e p s avps c = (r, c'))"
    using that by (auto intro: handleSCCRP_steps [OF t V] HandleSCCCN_steps [OF t V] handleICRP_steps HandleICCN_steps)
  have 2: "tsteps V c c'" if "(case HandleICRQ e p t avps c of (Inl err, c) \<Rightarrow> (Some err, c)
      | (Inr (body, s), c) \<Rightarrow> if tuChannel t = None then (None, c) else chanSend e p (Some body) (ssPeerID s) c) = (r, c')"
    using that by (auto split: prod.splits sum.splits if_splits
        intro: HandleICRQ_steps [OF t] tsteps_trans [OF HandleICRQ_steps [OF t] chanSend_steps])
  have 3: "tsteps V c (HandleCDN p s c)" if "map_option snd (LookupSession src (TunnelID h) (SessionID h) c) = Some s" for s
    using that s HandleCDN_steps [OF t] by auto
  show ?thesis
    using r 1 2 3 HandleStopCCN_steps [of V c e p t] unfolding dispatchTunnel_def Let_def
    by (auto split: if_splits option.splits)
qed

subsection \<open>Well-formed components\<close>

text \<open>
  The sessions of a tunnel stand under their own identifiers, which are not 0, and the reference count is their number.
  Tunnels lie below the next free address. A table entry leads to a tunnel with that key, whose identifier the
  allocator of its peer holds; allocators keep the invariant of \<open>L2TP_State\<close>.
\<close>

definition wfTunnel :: "l2Tunnel \<Rightarrow> bool" where
  "wfTunnel t \<longleftrightarrow> finite (dom (tuSessions t)) \<and> tuRefCount t = int (card (dom (tuSessions t)))
     \<and> (\<forall>i s. tuSessions t i = Some s \<longrightarrow> ssLocalID s = i \<and> i \<noteq> 0)"

definition wfIDs :: "l2Comp \<Rightarrow> bool" where
  "wfIDs c \<longleftrightarrow> (\<forall>k. id_inv (idsOf k c))"

definition wfTable :: "l2Comp \<Rightarrow> bool" where
  "wfTable c \<longleftrightarrow> (\<forall>k q. cTunnels c k = Some q \<longrightarrow> (\<exists>t. cHeap c q = Some t \<and> k = makeTunnelKey (tuPeerIP t) (tuLocalID t)
     \<and> tuLocalID t \<in> inUse (idsOf (addrText (tuPeerIP t)) c)))"

definition wfComp :: "l2Comp \<Rightarrow> bool" where
  "wfComp c \<longleftrightarrow> (\<forall>q t. cHeap c q = Some t \<longrightarrow> q < cNext c \<and> wfTunnel t) \<and> wfIDs c \<and> wfTable c"

lemma wfTableD:
  "wfComp c \<Longrightarrow> cTunnels c k = Some q \<Longrightarrow> \<exists>t. cHeap c q = Some t \<and> k = makeTunnelKey (tuPeerIP t) (tuLocalID t)
     \<and> tuLocalID t \<in> inUse (idsOf (addrText (tuPeerIP t)) c)"
  unfolding wfComp_def wfTable_def by blast

lemma wfHeapD: "wfComp c \<Longrightarrow> cHeap c q = Some t \<Longrightarrow> q < cNext c \<and> wfTunnel t"
  by (simp add: wfComp_def)

lemma wfIDsD: "wfComp c \<Longrightarrow> id_inv (idsOf k c)"
  by (simp add: wfComp_def wfIDs_def)

lemma wfComp_new: "wfComp (newL2 r)"
  by (simp add: wfComp_def wfIDs_def wfTable_def newL2_def idsOf_def NewIDAllocator_inv)

lemma same_dom: "same t t' \<Longrightarrow> dom (tuSessions t') = dom (tuSessions t)"
  unfolding same_def dom_def by (metis (no_types, lifting) option.rel_distinct(1,2) rel_option_None1 option.rel_sel)

lemma wfTunnel_same:
  assumes "same t t'" "wfTunnel t" shows "wfTunnel t'"
proof -
  have "ssLocalID s = i \<and> i \<noteq> 0" if "tuSessions t' i = Some s" for i s
  proof -
    have "rel_option (\<lambda>s s'. ssLocalID s' = ssLocalID s) (tuSessions t i) (tuSessions t' i)" using assms(1) by (simp add: same_def)
    with that obtain s0 where "tuSessions t i = Some s0" "ssLocalID s = ssLocalID s0" by (auto simp: option_rel_Some2)
    with assms(2) show ?thesis by (auto simp: wfTunnel_def)
  qed
  with assms same_dom [OF assms(1)] show ?thesis by (auto simp: wfTunnel_def same_def)
qed

lemma wfTunnel_add:
  assumes "wfTunnel t" "tuSessions t (ssLocalID s) = None" "ssLocalID s \<noteq> 0" shows "wfTunnel (addSession s t)"
  using assms by (auto simp: wfTunnel_def addSession_def card_insert_if domIff)

lemma wfTunnel_rem:
  assumes "wfTunnel t" "tuSessions t i \<noteq> None" shows "wfTunnel (removeSession i t)"
proof -
  have "i \<in> dom (tuSessions t)" "finite (dom (tuSessions t))" using assms by (auto simp: wfTunnel_def)
  then have "card (dom (tuSessions t)) = Suc (card (dom (tuSessions t) - {i}))" by (intro card.remove)
  then have "int (card (dom (tuSessions t) - {i})) = int (card (dom (tuSessions t))) - 1" by simp
  with assms show ?thesis by (auto simp: wfTunnel_def removeSession_def)
qed

lemma wfComp_modT:
  assumes c: "wfComp c" and f: "\<And>t. cHeap c p = Some t \<Longrightarrow> wfTunnel t \<Longrightarrow>
    wfTunnel (f t) \<and> tuPeerIP (f t) = tuPeerIP t \<and> tuLocalID (f t) = tuLocalID t"
  shows "wfComp (modT p f c)"
proof -
  have get: "\<exists>t0. cHeap c q = Some t0 \<and> t = (if q = p then f t0 else t0)" if "cHeap (modT p f c) q = Some t" for q t
    using that by (auto split: if_splits)
  have "wfTable (modT p f c)"
    unfolding wfTable_def
  proof (intro allI impI)
    fix k q assume "cTunnels (modT p f c) k = Some q"
    then obtain t where t: "cHeap c q = Some t" "k = makeTunnelKey (tuPeerIP t) (tuLocalID t)"
      "tuLocalID t \<in> inUse (idsOf (addrText (tuPeerIP t)) c)" using wfTableD [OF c, of k q] by auto
    moreover have "wfTunnel t" using wfHeapD [OF c t(1)] by simp
    ultimately show "\<exists>t. cHeap (modT p f c) q = Some t \<and> k = makeTunnelKey (tuPeerIP t) (tuLocalID t)
        \<and> tuLocalID t \<in> inUse (idsOf (addrText (tuPeerIP t)) (modT p f c))"
      using f by (cases "q = p") (auto simp: idsOf_def)
  qed
  moreover have "q < cNext c \<and> wfTunnel t" if "cHeap (modT p f c) q = Some t" for q t
    using get [OF that] wfHeapD [OF c] f by auto
  ultimately show ?thesis using c by (simp add: wfComp_def wfIDs_def idsOf_def)
qed

lemma key_addrText: "makeTunnelKey ip i = makeTunnelKey (addrText ip) i"
  by (auto simp: makeTunnelKey_def addrText_def To4_def)

lemma tstep_wf:
  assumes "tstep V c c'" "wfComp c" shows "wfComp c'"
  using assms
proof (cases rule: tstep.cases)
  case ts_keep
  have keep: "\<exists>t'. cHeap c' q = Some t' \<and> same t t'" if "cHeap c q = Some t" for q t
    using ts_keep(4) that by (metis option_rel_Some1)
  have prior: "\<exists>t. cHeap c q = Some t \<and> same t t'" if "cHeap c' q = Some t'" for q t'
    using ts_keep(4) that by (metis option_rel_Some2)
  show ?thesis
    unfolding wfComp_def
  proof (intro conjI allI impI)
    fix q t' assume "cHeap c' q = Some t'"
    with prior obtain t where "cHeap c q = Some t" "same t t'" by blast
    then show "q < cNext c'" "wfTunnel t'" using wfHeapD [OF assms(2)] ts_keep(1) wfTunnel_same by auto
  next
    show "wfIDs c'" using assms(2) ts_keep(2) by (simp add: wfComp_def wfIDs_def idsOf_def)
  next
    show "wfTable c'"
      unfolding wfTable_def
    proof (intro allI impI)
      fix k q assume "cTunnels c' k = Some q"
      then have "cTunnels c k = Some q" using ts_keep(3) by (metis domI map_le_def)
      then obtain t where t: "cHeap c q = Some t" "k = makeTunnelKey (tuPeerIP t) (tuLocalID t)"
        "tuLocalID t \<in> inUse (idsOf (addrText (tuPeerIP t)) c)" using wfTableD [OF assms(2)] by blast
      with keep obtain t' where "cHeap c' q = Some t'" "same t t'" by blast
      with t show "\<exists>t. cHeap c' q = Some t \<and> k = makeTunnelKey (tuPeerIP t) (tuLocalID t)
          \<and> tuLocalID t \<in> inUse (idsOf (addrText (tuPeerIP t)) c')"
        using ts_keep(2) by (auto simp: same_def idsOf_def)
    qed
  qed
next
  case (ts_add p t s)
  then show ?thesis using assms(2) by (auto intro!: wfComp_modT wfTunnel_add simp: addSession_def)
next
  case (ts_rem p t i)
  then show ?thesis using assms(2) by (auto intro!: wfComp_modT wfTunnel_rem simp: removeSession_def)
next
  case (ts_clear p t)
  then show ?thesis using assms(2) by (auto intro!: wfComp_modT simp: wfTunnel_def)
next
  case (ts_establish p t)
  then show ?thesis using assms(2) by (auto intro!: wfComp_modT simp: wfTunnel_def)
next
  case (ts_ids k a)
  have a: "id_inv a" "inUse (idsOf k c) \<subseteq> inUse a" using wfIDsD [OF assms(2), of k] ts_ids(2) by auto
  have ids: "idsOf j c' = (if j = k then a else idsOf j c)" for j using ts_ids by (simp add: idsOf_def)
  have frame: "cHeap c' = cHeap c" "cNext c' = cNext c" "cTunnels c' = cTunnels c" using ts_ids by simp_all
  have "wfTable c'"
    unfolding wfTable_def frame
  proof (intro allI impI)
    fix j q assume "cTunnels c j = Some q"
    then obtain t where t: "cHeap c q = Some t" "j = makeTunnelKey (tuPeerIP t) (tuLocalID t)"
      "tuLocalID t \<in> inUse (idsOf (addrText (tuPeerIP t)) c)" using wfTableD [OF assms(2)] by blast
    then have "tuLocalID t \<in> inUse (idsOf (addrText (tuPeerIP t)) c')" using a(2) by (auto simp: ids)
    with t(1,2) show "\<exists>t. cHeap c q = Some t \<and> j = makeTunnelKey (tuPeerIP t) (tuLocalID t)
        \<and> tuLocalID t \<in> inUse (idsOf (addrText (tuPeerIP t)) c')" by blast
  qed
  then show ?thesis using assms(2) a(1) wfIDsD [OF assms(2)] unfolding wfComp_def frame by (simp add: wfIDs_def ids)
next
  case (ts_new t ip i)
  have ids: "idsOf j c' = idsOf j c" for j using ts_new by (simp add: idsOf_def)
  have frame: "cHeap c' = (cHeap c)(cNext c \<mapsto> t)" "cNext c' = Suc (cNext c)"
    "cTunnels c' = (cTunnels c)(makeTunnelKey ip i \<mapsto> cNext c)" using ts_new by simp_all
  have fresh: "cHeap c (cNext c) = None" using wfHeapD [OF assms(2), of "cNext c"] by (cases "cHeap c (cNext c)") auto
  have "wfTunnel t" using ts_new by (simp add: wfTunnel_def)
  then have "q < cNext c' \<and> wfTunnel x" if "cHeap c' q = Some x" for q x
    using that wfHeapD [OF assms(2), of q x] unfolding frame by (auto split: if_splits)
  moreover have "wfTable c'"
    unfolding wfTable_def
  proof (intro allI impI)
    fix j q assume q: "cTunnels c' j = Some q"
    show "\<exists>t. cHeap c' q = Some t \<and> j = makeTunnelKey (tuPeerIP t) (tuLocalID t)
        \<and> tuLocalID t \<in> inUse (idsOf (addrText (tuPeerIP t)) c')"
    proof (cases "j = makeTunnelKey ip i")
      case True
      then show ?thesis using q ts_new unfolding frame ids by auto
    next
      case False
      with q have "cTunnels c j = Some q" unfolding frame by simp
      then obtain t0 where t0: "cHeap c q = Some t0" "j = makeTunnelKey (tuPeerIP t0) (tuLocalID t0)"
        "tuLocalID t0 \<in> inUse (idsOf (addrText (tuPeerIP t0)) c)" using wfTableD [OF assms(2)] by blast
      then have "cHeap c' q = Some t0" using fresh unfolding frame by auto
      with t0 show ?thesis unfolding ids by blast
    qed
  qed
  ultimately show ?thesis using wfIDsD [OF assms(2)] by (simp add: wfComp_def wfIDs_def ids)
next
  case (ts_close ip i)
  let ?k = "addrText ip"
  have frame: "cHeap c' = cHeap c" "cNext c' = cNext c" "cTunnels c' = (cTunnels c)(makeTunnelKey ip i := None)"
    using ts_close by (auto simp: releaseTunnelID_def unregisterTunnel_def split: option.splits)
  have ids: "idsOf j c' = (if j = ?k \<and> cIDs c j \<noteq> None then id_Release i (idsOf j c) else idsOf j c)" for j
    using ts_close by (auto simp: idsOf_def releaseTunnelID_def unregisterTunnel_def split: option.splits)
  have used: "x \<in> inUse (idsOf j c')" if "x \<in> inUse (idsOf j c)" "\<not> (j = ?k \<and> x = i)" for x j
    using that unfolding ids by (auto simp: id_Release_def)
  have "wfIDs c'" using assms(2) unfolding wfComp_def wfIDs_def ids by (auto intro: id_Release_inv)
  moreover have "wfTable c'"
    unfolding wfTable_def frame
  proof (intro allI impI)
    fix k q assume kq: "((cTunnels c)(makeTunnelKey ip i := None)) k = Some q"
    then obtain t where t: "cHeap c q = Some t" "k = makeTunnelKey (tuPeerIP t) (tuLocalID t)"
      "tuLocalID t \<in> inUse (idsOf (addrText (tuPeerIP t)) c)"
      using wfTableD [OF assms(2), of k q] by (auto split: if_splits)
    have "\<not> (addrText (tuPeerIP t) = ?k \<and> tuLocalID t = i)"
      using kq t(2) key_addrText [of "tuPeerIP t" i] key_addrText [of ip i] by (auto split: if_splits)
    with t used show "\<exists>t. cHeap c q = Some t \<and> k = makeTunnelKey (tuPeerIP t) (tuLocalID t)
        \<and> tuLocalID t \<in> inUse (idsOf (addrText (tuPeerIP t)) c')" by blast
  qed
  ultimately show ?thesis using assms(2) by (simp add: wfComp_def frame)
qed

lemma tsteps_wf: "tsteps V c c' \<Longrightarrow> wfComp c \<Longrightarrow> wfComp c'"
  by (induction rule: rtranclp_induct) (auto intro: tstep_wf)

subsection \<open>Every event is a sequence of elementary changes\<close>

lemma session_found:
  assumes "wfComp c" "LookupSession src tid sid c = Some (p, s)"
  obtains t where "LookupTunnel src tid c = Some p" "cHeap c p = Some t" "tuSessions t (ssLocalID s) = Some s"
proof -
  obtain t where "LookupTunnel src tid c = Some p" "cHeap c p = Some t" "tuSessions t sid = Some s"
    using assms(2) by (auto simp: LookupSession_def split: option.splits)
  moreover then have "ssLocalID s = sid" using wfHeapD [OF assms(1)] by (auto simp: wfTunnel_def)
  ultimately show ?thesis using that by simp
qed

lemma dispatch_found_steps:
  assumes wf: "wfComp c" and p: "LookupTunnel src (TunnelID h) c = Some p" "cHeap c p = Some t" and V: "allows V avps"
    and r: "dispatchTunnel e src h avps p t c = (r, c')"
  shows "tsteps V c c'"
proof (rule dispatchTunnel_steps [OF p(2) V _ r])
  fix s assume s: "LookupSession src (TunnelID h) (SessionID h) c = Some s"
  obtain q x where qx: "s = (q, x)" by (cases s)
  obtain t' where "LookupTunnel src (TunnelID h) c = Some q" "cHeap c q = Some t'" "tuSessions t' (ssLocalID x) = Some x"
    by (rule session_found [OF wf s [unfolded qx]])
  with p qx show "tuSessions t (ssLocalID (snd s)) \<noteq> None" by simp
qed

lemma dispatchControl_steps:
  assumes wf: "wfComp c" and V: "allows V avps" and r: "dispatchControl e src dst h avps c = (r, c')"
  shows "tsteps V c c'"
proof (cases "\<exists>p t. LookupTunnel src (TunnelID h) c = Some p \<and> cHeap c p = Some t \<and> DecodeMessageType avps \<noteq> MsgTypeSCCRQ")
  case True
  then obtain p t where p: "LookupTunnel src (TunnelID h) c = Some p" "cHeap c p = Some t"
    and m: "DecodeMessageType avps \<noteq> MsgTypeSCCRQ" by blast
  show ?thesis
  proof (cases "tuChannel t")
    case None
    then show ?thesis using r m p by (intro dispatch_found_steps [OF wf p V]) (simp add: dispatchControl_def)
  next
    case (Some ch)
    obtain accept ch' where recv: "chan_Recv (Ns h) (Nr h) (vNow e) ch = (accept, ch')" by (cases "chan_Recv (Ns h) (Nr h) (vNow e) ch")
    let ?t = "t\<lparr>tuChannel := Some ch'\<rparr>"
    let ?c = "modT p (\<lambda>_. ?t) c"
    have r': "(if accept then dispatchTunnel e src h avps p ?t ?c else (None, ?c)) = (r, c')"
      using r m p Some recv by (simp add: dispatchControl_def Let_def)
    have 1: "tsteps V c ?c" using p(2) by (intro keep_modT) simp
    have "LookupTunnel src (TunnelID h) ?c = Some p" "cHeap ?c p = Some ?t" using p by (simp_all add: LookupTunnel_def)
    then have "tsteps V ?c c'" using r' dispatch_found_steps [OF tsteps_wf [OF 1 wf] _ _ V] by (cases accept) auto
    with 1 show ?thesis by (rule tsteps_trans)
  qed
next
  case False
  then show ?thesis
    using r by (auto simp: dispatchControl_def split: if_splits option.splits intro: dispatchSCCRQ_steps)
qed

lemma Dispatch_steps:
  assumes wf: "wfComp c" and r: "Dispatch e pkt c = (r, c')"
  shows "tsteps (authorises (EvPunt pkt)) c c'"
proof -
  consider "c' = c"
    | p s frame where "framePPP e p s frame c = (r, c')"
    | src dst body h payload avps where "pkUDP pkt = Some body" "Parse body = Inr (h, payload)" "ParseAVPs payload = Inr avps"
        "dispatchControl e src dst h avps c = (r, c')"
    using r unfolding Dispatch_def by (auto split: option.splits sum.splits if_splits)
  then show ?thesis
  proof cases
    case (3 src dst body h payload avps)
    have "allows (authorises (EvPunt pkt)) avps"
      using 3(1-3) by (auto simp: allows_def authorises_def responseOf_def)
    then show ?thesis using 3(4) by (rule dispatchControl_steps [OF wf])
  qed (auto intro: framePPP_steps)
qed

lemma runnerTick_steps: "tsteps V c (runnerTick e p c)"
proof -
  have dead: "tsteps V x (channelDead e p t x)" for t x
    unfolding channelDead_def Let_def
    by (rule tsteps_trans [OF keep_modT tsteps_trans [OF unregister_steps uninstallTunnel_steps]]) simp
  have chan: "tsteps V c (modT p (\<lambda>t. t\<lparr>tuChannel := x\<rparr>) c)" for x by (rule keep_modT) simp
  show ?thesis by (auto simp: runnerTick_def Let_def split: option.splits intro: chan tsteps_trans [OF chan dead])
qed

lemma l2_Stop_steps: "tsteps V c (l2_Stop c)"
  by (rule r_into_rtranclp, rule ts_keep) (auto simp: l2_Stop_def option.rel_map intro!: option.rel_refl)

lemma helloTick_steps: "tsteps V c (helloTick e p c)"
  using chanSend_steps [OF prod.collapse [symmetric]] by (auto simp: helloTick_def split: option.splits)

lemma l2Step_steps:
  assumes wf: "wfComp c" and r: "l2Step (e, ev) c = (r, c')"
  shows "tsteps (authorises ev) c c'"
proof (cases ev)
  case (EvPunt pkt)
  then show ?thesis using r Dispatch_steps [OF wf] by simp
next
  case (EvAnswer rid ok attrs ks)
  then show ?thesis using r by (auto simp: aaaResponse_def split: option.splits intro: withPPP_steps)
next
  case (EvTimer p sid tev)
  then show ?thesis using r by (cases tev) (auto simp: pppTimer_def split: option.splits intro: withPPP_steps)
qed (use r in \<open>auto intro: StartLACSession_steps runnerTick_steps helloTick_steps l2_Stop_steps keep_frame\<close>)

lemma l2Step_wf: "wfComp c \<Longrightarrow> l2Step ev c = (r, c') \<Longrightarrow> wfComp c'"
  by (cases ev) (auto dest: l2Step_steps intro: tsteps_wf)

lemma l2Run_wf: "wfComp c \<Longrightarrow> l2Run evs c = Some c' \<Longrightarrow> wfComp c'"
  by (induction evs arbitrary: c) (auto split: prod.splits if_splits dest: l2Step_wf)

end
