(* ===== verification/L2TP_Component_Theorems.thy ===== *)
theory L2TP_Component_Theorems
  imports L2TP_Component_Steps
begin

section \<open>The L2TP component: properties\<close>

text \<open>
  The properties of \<open>L2TP_Component\<close> and of the sessions it terminates, from the elementary changes of
  \<open>L2TP_Component_Steps\<close> and the runs of \<open>LNS_Session\<close>; each with a run of concrete packets.
\<close>

declare generatePeerInterfaceID.simps [code]

subsection \<open>A tunnel that waits for a response\<close>

text \<open>A tunnel like \<open>t0\<close>, still waiting with its challenge outstanding or torn down.\<close>

definition waiting :: "l2Tunnel \<Rightarrow> nat \<Rightarrow> l2Comp \<Rightarrow> bool" where
  "waiting t0 p c \<longleftrightarrow> (\<exists>t. cHeap c p = Some t \<and> tuRole t = tuRole t0 \<and> tuSecret t = tuSecret t0 \<and>
     (tState (tuFSM t) = TunnelCleanup \<or> tState (tuFSM t) \<noteq> TunnelEstablished \<and> tuChallenge t = tuChallenge t0))"

lemma authorises_cong:
  "tuRole t = tuRole t' \<Longrightarrow> tuSecret t = tuSecret t' \<Longrightarrow> tuChallenge t = tuChallenge t' \<Longrightarrow> authorises ev t = authorises ev t'"
  by (simp add: authorises_def verifies_def split: option.splits)

lemma waiting_modT:
  assumes "waiting t0 p c" and "\<And>t. q = p \<Longrightarrow> cHeap c p = Some t \<Longrightarrow> tuRole t = tuRole t0 \<Longrightarrow> tuSecret t = tuSecret t0 \<Longrightarrow>
      (tState (tuFSM t) = TunnelCleanup \<or> tState (tuFSM t) \<noteq> TunnelEstablished \<and> tuChallenge t = tuChallenge t0) \<Longrightarrow>
      tuRole (f t) = tuRole t0 \<and> tuSecret (f t) = tuSecret t0 \<and>
      (tState (tuFSM (f t)) = TunnelCleanup \<or> tState (tuFSM (f t)) \<noteq> TunnelEstablished \<and> tuChallenge (f t) = tuChallenge t0)"
  shows "waiting t0 p (modT q f c)"
proof -
  from assms(1) obtain t where t: "cHeap c p = Some t" "tuRole t = tuRole t0" "tuSecret t = tuSecret t0"
    "tState (tuFSM t) = TunnelCleanup \<or> tState (tuFSM t) \<noteq> TunnelEstablished \<and> tuChallenge t = tuChallenge t0"
    by (auto simp: waiting_def)
  then show ?thesis using assms(2) [OF _ t] by (cases "q = p") (auto simp: waiting_def)
qed

lemma tstep_waiting:
  assumes "tstep (authorises ev) c c'" "wfComp c" "waiting t0 p c" "tuChallenge t0 \<noteq> []" "\<not> authorises ev t0"
  shows "waiting t0 p c'"
  using assms(1)
proof (cases rule: tstep.cases)
  case ts_keep
  from assms(3) obtain t where t: "cHeap c p = Some t" "tuRole t = tuRole t0" "tuSecret t = tuSecret t0"
    "tState (tuFSM t) = TunnelCleanup \<or> tState (tuFSM t) \<noteq> TunnelEstablished \<and> tuChallenge t = tuChallenge t0"
    by (auto simp: waiting_def)
  with ts_keep(4) obtain t' where "cHeap c' p = Some t'" "same t t'" by (metis option_rel_Some1)
  with t show ?thesis by (auto simp: waiting_def same_def tunnel_Stop_def)
next
  case (ts_add q t s)
  then show ?thesis using assms(3) by (auto intro!: waiting_modT simp: addSession_def)
next
  case (ts_rem q t i)
  then show ?thesis using assms(3) by (auto intro!: waiting_modT simp: removeSession_def)
next
  case (ts_clear q t)
  then show ?thesis
    using assms(3,5) authorises_cong [of t t0 ev] by (auto intro!: waiting_modT)
next
  case (ts_establish q t)
  then show ?thesis using assms(3,4) by (auto intro!: waiting_modT)
next
  case (ts_ids k a)
  then show ?thesis using assms(3) by (simp add: waiting_def)
next
  case (ts_new t ip i)
  have "p < cNext c" using assms(2,3) by (auto simp: waiting_def dest: wfHeapD)
  with ts_new show ?thesis using assms(3) by (auto simp: waiting_def)
next
  case (ts_close ip i)
  then show ?thesis using assms(3)
    by (auto simp: waiting_def releaseTunnelID_def unregisterTunnel_def split: option.splits)
qed

lemma tsteps_waiting:
  assumes "tsteps (authorises ev) c c'" "wfComp c" "waiting t0 p c" "tuChallenge t0 \<noteq> []" "\<not> authorises ev t0"
  shows "waiting t0 p c'"
proof -
  have "waiting t0 p c' \<and> wfComp c'"
    using assms(1)
    by (induction rule: rtranclp_induct) (auto intro: tstep_waiting [OF _ _ _ assms(4,5)] tstep_wf assms(2,3))
  then show ?thesis ..
qed

lemma run_authorised:
  assumes "wfComp c" "waiting t0 p c" "tuChallenge t0 \<noteq> []" "l2Run evs c = Some c'" "\<not> waiting t0 p c'"
  shows "\<exists>ev \<in> set evs. authorises (snd ev) t0"
  using assms
proof (induction evs arbitrary: c)
  case (Cons ev evs)
  obtain e x where ev: "ev = (e, x)" by (cases ev)
  obtain r c1 where step: "l2Step (e, x) c = (r, c1)" by (cases "l2Step (e, x) c")
  have run: "l2Run evs c1 = Some c'" using Cons.prems(4) ev step by (simp split: if_splits)
  show ?case
  proof (cases "authorises x t0")
    case False
    have "waiting t0 p c1" by (rule tsteps_waiting [OF l2Step_steps [OF Cons.prems(1) step] Cons.prems(1,2,3) False])
    from Cons.IH [OF l2Step_wf [OF Cons.prems(1) step] this Cons.prems(3) run Cons.prems(5)] show ?thesis by simp
  qed (simp add: ev)
qed simp

text \<open>A tunnel that the LNS opens for a peer it must authenticate waits for the response to a fresh challenge.\<close>

lemma HandleSCCRQ_waits:
  assumes "HandleSCCRQ e localIP peerIP avps cfg c = (Inr (body, p), c')" "lcChallengeRequired cfg" "lcSecret cfg \<noteq> []"
  obtains t ch where "vChallenge e 0 = Some ch" "cHeap c' p = Some t" "tuRole t = RoleResponder" "tuSecret t = lcSecret cfg"
    "tuChallenge t = ch" "tState (tuFSM t) = TunnelWaitCtlConn"
  using assms(1)
proof (cases rule: HandleSCCRQ_cases)
  case (2 pid host ours resp)
  then have ours: "vChallenge e 0 = Some ours" using assms(2,3) by simp
  from 2(1) show ?thesis
  proof (cases rule: openResponder_cases)
    case (2 i c1 c2 t)
    then have "\<exists>ch r. cHeap c' p = Some (t\<lparr>tuChannel := ch, tuRunning := r\<rparr>)"
      by (auto simp: startTunnelRunner_def) (metis l2Tunnel.surjective l2Tunnel.update_convs(7) l2Tunnel.update_convs(17))+
    with 2(2) ours that show ?thesis by auto
  qed auto
qed simp

subsection \<open>A concrete component\<close>

text \<open>An LNS without a transport or dataplane, one peer with the secret \<^verbatim>\<open>s\<close>, and packets of that peer.\<close>

definition exPPP :: lnsEnv where
  "exPPP = \<lparr>eSend = False, eBus = True, eVPP = False, eHostname = [1], eChallenge = replicate 16 7, eRequestID = ''r1'',
     eAcctID = ''a1'', eGroups = [], eResolver = None, eProfiles = Map.empty\<rparr>"

definition exCfg :: LNSConfig where
  "exCfg = \<lparr>lcLocalHostname = [0x6c], lcVendorName = [], lcWindow = 4, lcSecret = [0x73], lcChallengeRequired = True,
     lcHello = 0, lcHdrSkip = 2\<rparr>"

definition exEnv :: l2Env where
  "exEnv = \<lparr>vNow = 0, vResolve = Some (\<lambda>_. Some exCfg), vChallenge = (\<lambda>_. Some (replicate 16 7)), vAnswer = (\<lambda>_. None),
     vLinkFails = (\<lambda>_ _. False), vSources = [], vPPP = exPPP, vMagic = 5, vRandom = (\<lambda>_. replicate 8 9)\<rparr>"

definition exPeer :: bytes where
  "exPeer = [10, 0, 0, 2]"

definition exAVP :: "u16 \<Rightarrow> bytes \<Rightarrow> AVP" where
  "exAVP t v = \<lparr>Mandatory = True, Hidden = False, VendorID = 0, avpType = t, Value = v\<rparr>"

definition exSCCRQ :: "AVP list" where
  "exSCCRQ = [exAVP 0 [0, 1], exAVP 7 [0x41], exAVP 9 [0, 5], exAVP 11 [1, 2]]"

definition exPacket :: "bytes \<Rightarrow> l2Env \<times> l2Event" where
  "exPacket b = (exEnv, EvPunt \<lparr>pkIPv4 = Some (exPeer, [10, 0, 0, 1]), pkUDP = Some b\<rparr>)"

text \<open>SCCRQ, SCCCN with the right response, ICRQ and ICCN.\<close>

definition exOpen :: "l2Env \<times> l2Event" where
  "exOpen = exPacket ([0xC8, 2, 0, 43, 0, 0, 0, 0, 0, 0, 0, 0] @ [0x80, 8, 0, 0, 0, 0, 0, 1] @ [0x80, 7, 0, 0, 0, 7, 0x41]
     @ [0x80, 8, 0, 0, 0, 9, 0, 5] @ [0x80, 8, 0, 0, 0, 11, 1, 2])"

definition exConnect :: "l2Env \<times> l2Event" where
  "exConnect = exPacket ([0xC8, 2, 0, 42, 0, 1, 0, 0, 0, 1, 0, 0] @ [0x80, 8, 0, 0, 0, 0, 0, 3] @ [0x80, 22, 0, 0, 0, 13]
     @ [126, 59, 38, 129, 29, 2, 136, 167, 144, 237, 14, 75, 168, 151, 133, 162])"

definition exCall :: "l2Env \<times> l2Event" where
  "exCall = exPacket ([0xC8, 2, 0, 28, 0, 1, 0, 0, 0, 1, 0, 0] @ [0x80, 8, 0, 0, 0, 0, 0, 10] @ [0x80, 8, 0, 0, 0, 14, 0, 9])"

definition exConnected :: "l2Env \<times> l2Event" where
  "exConnected = exPacket ([0xC8, 2, 0, 20, 0, 1, 0, 1, 0, 2, 0, 0] @ [0x80, 8, 0, 0, 0, 0, 0, 12])"

subsection \<open>Properties\<close>

text \<open>
  C6: The tables of the L2TP component are well formed in every state it can reach, whatever packets, AAA answers,
  dataplane answers, timers and LAC requests arrive: the sessions of every tunnel stand under their own non-zero
  identifier and the reference count is their number, every entry of the lookup table leads to a tunnel whose peer
  address and local identifier give exactly that key, that identifier is held in the allocator of the peer, and no
  allocator holds 0.
\<close>

theorem l2tp_component_well_formed:
  assumes "l2Run evs (newL2 reg) = Some c"
  shows "wfComp c"
  using l2Run_wf [OF wfComp_new assms] .

lemma example_run:
  "map_option (\<lambda>c. (cTunnels c (makeTunnelKey exPeer 1), map_option tuRefCount (cHeap c 0)))
     (l2Run [exOpen, exConnect, exCall, exConnected] (newL2 None)) = Some (Some 0, Some 1)"
  by code_simp

text \<open>Witness: a tunnel set up, authenticated, with one session.\<close>

theorem l2tp_component_well_formed_witness:
  "\<exists>c. l2Run [exOpen, exConnect, exCall, exConnected] (newL2 None) = Some c
     \<and> cTunnels c (makeTunnelKey exPeer 1) = Some 0 \<and> wfComp c"
proof -
  obtain c where c: "l2Run [exOpen, exConnect, exCall, exConnected] (newL2 None) = Some c"
    "cTunnels c (makeTunnelKey exPeer 1) = Some 0" using example_run by auto
  with l2tp_component_well_formed [OF c(1)] show ?thesis by blast
qed

text \<open>
  C4: When the configuration of a peer requires a challenge and has a secret, a tunnel that the LNS opened on that
  peer's SCCRQ is established only by a control message that carries the response to the challenge the LNS drew for
  it: the MD5 digest of the SCCCN type byte, the secret and the challenge. So no sequence of packets, timers and
  answers establishes the tunnel for a peer that cannot produce that response.
\<close>

theorem lns_tunnel_established_only_authenticated:
  assumes "l2Run evs0 (newL2 reg) = Some c"
    and "HandleSCCRQ e localIP peerIP avps cfg c = (Inr (body, p), c0)" "lcChallengeRequired cfg" "lcSecret cfg \<noteq> []"
    and "\<forall>ch. vChallenge e 0 = Some ch \<longrightarrow> length ch = 16"
    and "l2Run evs c0 = Some c1" "cHeap c1 p = Some t" "tState (tuFSM t) = TunnelEstablished"
  shows "\<exists>ev ch r. ev \<in> set evs \<and> vChallenge e 0 = Some ch \<and> responseOf (snd ev) = Some r
    \<and> take 16 r = ComputeChallengeResponse (ucast MsgTypeSCCCN) (lcSecret cfg) ch"
proof -
  have wf: "wfComp c" by (rule l2Run_wf [OF wfComp_new assms(1)])
  from assms(2-4) obtain t0 ch where t0: "vChallenge e 0 = Some ch" "cHeap c0 p = Some t0" "tuRole t0 = RoleResponder"
    "tuSecret t0 = lcSecret cfg" "tuChallenge t0 = ch" "tState (tuFSM t0) = TunnelWaitCtlConn" by (rule HandleSCCRQ_waits)
  have wf0: "wfComp c0" by (rule tsteps_wf [OF HandleSCCRQ_steps [OF assms(2)] wf])
  have "ch \<noteq> []" using assms(5) t0(1) by auto
  moreover have "waiting t0 p c0" using t0 by (simp add: waiting_def)
  moreover have "\<not> waiting t0 p c1" using assms(7,8) by (simp add: waiting_def)
  ultimately obtain ev where ev: "ev \<in> set evs" "authorises (snd ev) t0"
    using run_authorised [OF wf0 _ _ assms(6)] t0(5) by blast
  then obtain r where r: "responseOf (snd ev) = Some r" "verifies r t0" by (auto simp: authorises_def split: option.splits)
  then have "take 16 r = ComputeChallengeResponse (ucast MsgTypeSCCCN) (lcSecret cfg) ch"
    using t0 by (auto simp: verifies_def VerifyChallengeResponse_def split: if_splits)
  with ev(1) t0(1) r(1) show ?thesis by blast
qed

lemma example_authenticated:
  "case HandleSCCRQ exEnv [10, 0, 0, 1] exPeer exSCCRQ exCfg (newL2 None) of
     (Inl _, _) \<Rightarrow> False
   | (Inr (_, p), c0) \<Rightarrow> p = 0 \<and> map_option (\<lambda>c. map_option (\<lambda>t. tState (tuFSM t)) (cHeap c 0)) (l2Run [exConnect] c0)
       = Some (Some TunnelEstablished)"
  by code_simp

text \<open>Witness: the peer with the right secret.\<close>

theorem lns_tunnel_established_only_authenticated_witness:
  "\<exists>ev ch r. ev \<in> set [exConnect] \<and> vChallenge exEnv 0 = Some ch \<and> responseOf (snd ev) = Some r
    \<and> take 16 r = ComputeChallengeResponse (ucast MsgTypeSCCCN) (lcSecret exCfg) ch"
proof -
  obtain x c0 where H: "HandleSCCRQ exEnv [10, 0, 0, 1] exPeer exSCCRQ exCfg (newL2 None) = (x, c0)"
    by (cases "HandleSCCRQ exEnv [10, 0, 0, 1] exPeer exSCCRQ exCfg (newL2 None)")
  with example_authenticated obtain body where x: "x = Inr (body, 0)" by (cases x) auto
  with H example_authenticated obtain c1 t where c1: "l2Run [exConnect] c0 = Some c1" "cHeap c1 0 = Some t"
    "tState (tuFSM t) = TunnelEstablished" by auto
  show ?thesis
    by (rule lns_tunnel_established_only_authenticated [OF _ H [unfolded x] _ _ _ c1, of "[]" None])
      (simp_all add: exCfg_def exEnv_def)
qed











subsection \<open>Tunnel candidates\<close>

text \<open>The attributes that name the type and the medium of a tunnel have no effect on the candidates.\<close>

lemma ParseTunnelSpecs_ignores_type:
  assumes "fst (splitTag k) \<in> {''tunnel.type'', ''tunnel.medium-type''}"
  shows "ParseTunnelSpecs (xs @ (k, v) # ys) tags = ParseTunnelSpecs (xs @ ys) tags"
proof -
  obtain nm tag where k: "splitTag k = (nm, tag)" by (cases "splitTag k")
  with assms consider "nm = ''tunnel.type''" | "nm = ''tunnel.medium-type''" by auto
  then have "specAttr (k, v) m = m" for m by cases (simp_all add: specAttr_def k)
  then show ?thesis by (simp add: ParseTunnelSpecs_def)
qed

text \<open>The candidates are in the order of their preference, and each has a server address.\<close>

lemma ParseTunnelSpecs_sorted:
  "sorted (map spPreference (ParseTunnelSpecs attrs tags))"
  "s \<in> set (ParseTunnelSpecs attrs tags) \<Longrightarrow> spServerIP s \<noteq> []"
  by (auto simp: ParseTunnelSpecs_def Let_def)

text \<open>A denied peer is denied until its time has passed, then it may be probed; never both.\<close>

lemma deny_probe:
  "ip \<noteq> [] \<Longrightarrow> 0 < ttl \<Longrightarrow> IsDenied now' ip (deny_Add now ip why ttl d) \<longleftrightarrow> now' < now + ttl"
  "ip \<noteq> [] \<Longrightarrow> 0 < ttl \<Longrightarrow> ProbeEligible now' ip (deny_Add now ip why ttl d) \<longleftrightarrow> now + ttl \<le> now'"
  "\<not> (IsDenied now ip d \<and> ProbeEligible now ip d)"
  "\<not> IsDenied now ip (deny_Remove ip d)"
  by (auto simp: IsDenied_def ProbeEligible_def deny_Add_def deny_Remove_def split: option.splits)

end
