(* ===== verification/CGNAT_Config.thy ===== *)
theory CGNAT_Config
  imports Go_Parse
begin

section \<open>The configuration of a NAT pool\<close>

text \<open>
  \<^verbatim>\<open>pkg/config/cgnat/cgnat.go\<close>: the pool as it is written in the configuration, the getters that fill in its
  defaults, and the validation of the whole section. A pointer that may be nil is an option. The port range is read
  with \<^verbatim>\<open>fmt.Sscanf(s, "%d-%d", ...)\<close> into two 16-bit integers; \<open>Sscanf_range\<close> is what that call does on a
  string of ASCII characters.
\<close>

record InsidePrefix =
  ipPrefix :: string
  ipVRF :: string

record ALGConfig =
  algFTP :: "bool option"
  algTFTP :: "bool option"
  algPPTP :: "bool option"
  algSIP :: "bool option"
  algRTSP :: "bool option"
  algDNS :: "bool option"

record TimeoutConfig =
  TCPEstablished :: u32
  TCPTransitory :: u32
  tUDP :: u32
  tICMP :: u32

record cgPool =
  OutsideInterfaces :: "string list"
  cgMode :: string
  InsidePrefixes :: "InsidePrefix list"
  OutsideAddresses :: "string list"
  BlockSize :: u16
  MaxBlocksPerSubscriber :: byte
  MaxSessionsPerSubscriber :: u32
  ExhaustionBehavior :: string
  PortReuseTimeout :: u16
  SubscriberRatio :: u16
  PortRange :: string
  AddressPooling :: string
  Filtering :: string
  ExcludedAddresses :: "string list"
  BlacklistMode :: string
  cgALG :: "ALGConfig option"
  cgTimeouts :: "TimeoutConfig option"

record ReconcileConfig =
  OnDivergence :: string
  DropOrphans :: "bool option"
  AllowPoolDisruption :: "bool option"

record cgConfig =
  LegacyOutsideInterfaces :: "string list"
  LegacyOutsideInterface :: "string option"
  cgPools :: "(string \<times> cgPool option) list"
  cgReconcile :: "ReconcileConfig option"

subsection \<open>Reading the port range\<close>

text \<open>
  \<^verbatim>\<open>SkipSpace\<close> fails on a newline, since \<^verbatim>\<open>Sscanf\<close> does not take newlines as space; a number that does not fit
  the target is an error; what follows the second number is not read.
\<close>

fun skipSpace :: "string \<Rightarrow> string option" where
  "skipSpace [] = Some []"
| "skipSpace (c # cs) = (if of_char c = (10 :: nat) then None else if isSpace c then skipSpace cs else Some (c # cs))"

definition scanUint16 :: "string \<Rightarrow> (u16 \<times> string) option" where
  "scanUint16 s = (case skipSpace s of None \<Rightarrow> None
     | Some s \<Rightarrow> (let tok = takeWhile isDigit s in
         if tok = [] \<or> 65535 < decNum tok then None else Some (of_nat (decNum tok), dropWhile isDigit s)))"

definition Sscanf_range :: "string \<Rightarrow> (u16 \<times> u16) option" where
  "Sscanf_range s = (case scanUint16 s of None \<Rightarrow> None
     | Some (start, rest) \<Rightarrow> (case rest of [] \<Rightarrow> None
       | c # cs \<Rightarrow> if c \<noteq> CHR ''-'' then None else map_option (\<lambda>(end, _). (start, end)) (scanUint16 cs)))"

definition parsePortRange :: "string \<Rightarrow> u16 \<times> u16" where
  "parsePortRange s = (case Sscanf_range s of Some r \<Rightarrow> r | None \<Rightarrow> (1024, 65535))"

subsection \<open>Getters\<close>

definition GetMode :: "cgPool \<Rightarrow> string" where
  "GetMode p = (if cgMode p = '''' then ''pba'' else cgMode p)"

definition GetPortRangeStart :: "cgPool \<Rightarrow> u16" where
  "GetPortRangeStart p = (if PortRange p \<noteq> '''' then fst (parsePortRange (PortRange p)) else 1024)"

definition GetPortRangeEnd :: "cgPool \<Rightarrow> u16" where
  "GetPortRangeEnd p = (if PortRange p \<noteq> '''' then snd (parsePortRange (PortRange p)) else 65535)"

definition GetPortRangeSize :: "cgPool \<Rightarrow> u32" where
  "GetPortRangeSize p = ucast (GetPortRangeEnd p) - ucast (GetPortRangeStart p) + 1"

definition GetBlockSize :: "cgPool \<Rightarrow> u16" where
  "GetBlockSize p =
     (if 0 < BlockSize p then BlockSize p
      else if 0 < SubscriberRatio p then ucast (GetPortRangeSize p div ucast (SubscriberRatio p))
      else 512)"

definition GetMaxBlocksPerSubscriber :: "cgPool \<Rightarrow> byte" where
  "GetMaxBlocksPerSubscriber p = (if 0 < MaxBlocksPerSubscriber p then MaxBlocksPerSubscriber p else 4)"

definition GetMaxSessionsPerSubscriber :: "cgPool \<Rightarrow> u32" where
  "GetMaxSessionsPerSubscriber p = (if 0 < MaxSessionsPerSubscriber p then MaxSessionsPerSubscriber p else 2000)"

definition GetPortReuseTimeout :: "cgPool \<Rightarrow> u16" where
  "GetPortReuseTimeout p = (if 0 < PortReuseTimeout p then PortReuseTimeout p else 120)"

definition GetAddressPooling :: "cgPool \<Rightarrow> string" where
  "GetAddressPooling p = (if AddressPooling p = '''' then ''paired'' else AddressPooling p)"

definition GetFiltering :: "cgPool \<Rightarrow> string" where
  "GetFiltering p = (if Filtering p = '''' then ''endpoint-independent'' else Filtering p)"

definition GetBlacklistMode :: "cgPool \<Rightarrow> string" where
  "GetBlacklistMode p = (if BlacklistMode p = '''' then ''new-only'' else BlacklistMode p)"

definition GetExhaustionBehavior :: "cgPool \<Rightarrow> string" where
  "GetExhaustionBehavior p = (if ExhaustionBehavior p = '''' then ''drop-icmp'' else ExhaustionBehavior p)"

definition GetTimeouts :: "cgPool \<Rightarrow> TimeoutConfig" where
  "GetTimeouts p =
     (let t = \<lparr>TCPEstablished = 7200, TCPTransitory = 240, tUDP = 300, tICMP = 60\<rparr> in
      case cgTimeouts p of None \<Rightarrow> t
      | Some c \<Rightarrow>
         (let t = (if 0 < TCPEstablished c then t\<lparr>TCPEstablished := TCPEstablished c\<rparr> else t);
              t = (if 0 < TCPTransitory c then t\<lparr>TCPTransitory := TCPTransitory c\<rparr> else t);
              t = (if 0 < tUDP c then t\<lparr>tUDP := tUDP c\<rparr> else t)
          in if 0 < tICMP c then t\<lparr>tICMP := tICMP c\<rparr> else t))"

definition GetALGBitmask :: "cgPool \<Rightarrow> byte" where
  "GetALGBitmask p = (case cgALG p of None \<Rightarrow> 0x1F
     | Some a \<Rightarrow>
        (let on = (\<lambda>b. b = None \<or> b = Some True);
             m = (if on (algFTP a) then 0x01 else 0);
             m = (if on (algTFTP a) then m OR 0x02 else m);
             m = (if on (algPPTP a) then m OR 0x04 else m);
             m = (if on (algSIP a) then m OR 0x08 else m);
             m = (if on (algRTSP a) then m OR 0x10 else m)
         in if algDNS a = Some True then m OR 0x20 else m))"

text \<open>The getters of the reconcile section take a nil receiver.\<close>

definition GetOnDivergence :: "ReconcileConfig option \<Rightarrow> string" where
  "GetOnDivergence r = (case r of None \<Rightarrow> ''reconcile''
     | Some r \<Rightarrow> if OnDivergence r = '''' then ''reconcile'' else OnDivergence r)"

definition GetDropOrphans :: "ReconcileConfig option \<Rightarrow> bool" where
  "GetDropOrphans r = (case r of None \<Rightarrow> True | Some r \<Rightarrow> (case DropOrphans r of None \<Rightarrow> True | Some b \<Rightarrow> b))"

definition GetAllowPoolDisruption :: "ReconcileConfig option \<Rightarrow> bool" where
  "GetAllowPoolDisruption r = (case r of None \<Rightarrow> False
     | Some r \<Rightarrow> (case AllowPoolDisruption r of None \<Rightarrow> False | Some b \<Rightarrow> b))"

subsection \<open>Validation\<close>

datatype cg_config_error =
    LegacyInterface
  | LegacyInterfaces
  | BadDivergence string
  | NoOutsideInterface string
  | EmptyInterface string nat
  | DuplicateInterface string string

text \<open>The loop over the outside interfaces of a pool, with the names seen and the index.\<close>

fun validateInterfaces :: "string \<Rightarrow> string set \<Rightarrow> nat \<Rightarrow> string list \<Rightarrow> cg_config_error option" where
  "validateInterfaces name seen i [] = None"
| "validateInterfaces name seen i (entry # es) =
     (if entry = '''' then Some (EmptyInterface name i)
      else if entry \<in> seen then Some (DuplicateInterface name entry)
      else validateInterfaces name (insert entry seen) (Suc i) es)"

fun validatePools :: "(string \<times> cgPool option) list \<Rightarrow> cg_config_error option" where
  "validatePools [] = None"
| "validatePools ((name, pool) # ps) =
     (case pool of None \<Rightarrow> validatePools ps
      | Some p \<Rightarrow>
         (if OutsideInterfaces p = [] then Some (NoOutsideInterface name)
          else (case validateInterfaces name {} 0 (OutsideInterfaces p) of
              Some e \<Rightarrow> Some e | None \<Rightarrow> validatePools ps)))"

definition cg_Validate :: "cgConfig option \<Rightarrow> cg_config_error option" where
  "cg_Validate c = (case c of None \<Rightarrow> None
     | Some c \<Rightarrow>
        (if LegacyOutsideInterface c \<noteq> None then Some LegacyInterface
         else if LegacyOutsideInterfaces c \<noteq> [] then Some LegacyInterfaces
         else if (case cgReconcile c of None \<Rightarrow> False
             | Some r \<Rightarrow> OnDivergence r \<noteq> '''' \<and> OnDivergence r \<noteq> ''reconcile'' \<and> OnDivergence r \<noteq> ''fail'')
           then Some (BadDivergence (OnDivergence (the (cgReconcile c))))
         else validatePools (cgPools c)))"

subsection \<open>What the getters return\<close>

text \<open>A validated section: every pool has outside interfaces, none empty and none twice.\<close>

lemma validateInterfaces_None:
  "validateInterfaces name seen i es = None \<longleftrightarrow> '''' \<notin> set es \<and> distinct es \<and> set es \<inter> seen = {}"
  by (induction es arbitrary: seen i) auto

lemma validatePools_None:
  "validatePools ps = None \<longleftrightarrow>
     (\<forall>(name, pool) \<in> set ps. \<forall>p. pool = Some p \<longrightarrow>
        OutsideInterfaces p \<noteq> [] \<and> '''' \<notin> set (OutsideInterfaces p) \<and> distinct (OutsideInterfaces p))"
proof (induction ps)
  case (Cons np ps)
  obtain name pool where np: "np = (name, pool)" by (cases np)
  have v: "OutsideInterfaces p \<noteq> [] \<Longrightarrow> validatePools ((name, Some p) # ps) = None \<longleftrightarrow>
      validateInterfaces name {} 0 (OutsideInterfaces p) = None \<and> validatePools ps = None" for p
    by (simp split: option.splits)
  show ?case
  proof (cases pool)
    case (Some p)
    then show ?thesis using Cons.IH v [of p]
      by (cases "OutsideInterfaces p = []") (simp_all add: np validateInterfaces_None del: validatePools.simps(2), simp)
  qed (use Cons.IH in \<open>simp add: np\<close>)
qed simp

text \<open>The size of the port range, and the block size a pool without wrap-around gets.\<close>

lemma unat_ucast_u32: "unat (ucast w :: u32) = unat w" for w :: u16
  using unat_u16_less [of w] by (simp add: unsigned_ucast_eq take_bit_nat_eq_self_iff)

lemma GetPortRangeSize_unat:
  assumes "GetPortRangeStart p \<le> GetPortRangeEnd p"
  shows "unat (GetPortRangeSize p) = unat (GetPortRangeEnd p) - unat (GetPortRangeStart p) + 1"
proof -
  let ?e = "ucast (GetPortRangeEnd p) :: u32" and ?s = "ucast (GetPortRangeStart p) :: u32"
  have u: "unat ?e = unat (GetPortRangeEnd p)" "unat ?s = unat (GetPortRangeStart p)"
    by (simp_all add: unat_ucast_u32)
  have le: "unat (GetPortRangeStart p) \<le> unat (GetPortRangeEnd p)" using assms by (simp add: word_le_nat_alt)
  then have "unat (?e - ?s) = unat (GetPortRangeEnd p) - unat (GetPortRangeStart p)"
    by (simp add: unat_sub word_le_nat_alt u)
  then show ?thesis using unat_u16_less [of "GetPortRangeEnd p"] by (simp add: GetPortRangeSize_def unat_word_ariths)
qed

end
