(* ===== verification/CGNAT_Bitmap.thy ===== *)
theory CGNAT_Bitmap
  imports BNG_Prelude
begin

section \<open>The bitmap of a NAT address\<close>

text \<open>
  The end of \<^verbatim>\<open>internal/cgnat/pool.go\<close>: the port blocks of an outside address are bits of 64-bit words.
  \<^verbatim>\<open>popcount\<close> is the parallel count in the source, shown equal to the number of set bits; \<^verbatim>\<open>allocateBlock\<close>
  returns the lowest clear bit below the number of blocks, and \<^verbatim>\<open>hasFreeBlock\<close> says whether there is one.
\<close>

definition popcount :: "u64 \<Rightarrow> nat" where
  "popcount x =
     (let x = x - (drop_bit 1 x AND 0x5555555555555555);
          x = (x AND 0x3333333333333333) + (drop_bit 2 x AND 0x3333333333333333);
          x = (x + drop_bit 4 x) AND 0x0f0f0f0f0f0f0f0f
      in unat (drop_bit 56 (x * 0x0101010101010101)))"

record outsideAddressState =
  oIP :: bytes
  TotalBlocks :: u32
  AllocatedBits :: "u64 list"
  Excluded :: bool

definition hasFreeBlock :: "outsideAddressState \<Rightarrow> bool" where
  "hasFreeBlock addr \<longleftrightarrow>
     foldl (\<lambda>allocated word. allocated + of_nat (popcount word)) (0 :: u32) (AllocatedBits addr) < TotalBlocks addr"

text \<open>
  The loop over the bits of a word: \<^term>\<open>None\<close> when it runs to its end, else what the function returns. The
  loop over the words.
\<close>

fun scanBits :: "u32 \<Rightarrow> nat \<Rightarrow> u64 \<Rightarrow> nat list \<Rightarrow> int option" where
  "scanBits tot i word [] = None"
| "scanBits tot i word (b # bs) =
     (let blockIdx = i * 64 + b in
      if tot \<le> of_nat blockIdx then Some (- 1)
      else if word AND push_bit b 1 = 0 then Some (int blockIdx)
      else scanBits tot i word bs)"

fun scanWords :: "u32 \<Rightarrow> nat \<Rightarrow> u64 list \<Rightarrow> int" where
  "scanWords tot i [] = - 1"
| "scanWords tot i (word # ws) =
     (if word = NOT 0 then scanWords tot (Suc i) ws
      else (case scanBits tot i word [0..<64] of None \<Rightarrow> scanWords tot (Suc i) ws | Some r \<Rightarrow> r))"

definition setBit :: "u64 list \<Rightarrow> nat \<Rightarrow> u64 list" where
  "setBit bs i = bs[i div 64 := bs ! (i div 64) OR push_bit (i mod 64) 1]"

definition allocateBlock :: "outsideAddressState \<Rightarrow> int \<times> outsideAddressState" where
  "allocateBlock addr =
     (let r = scanWords (TotalBlocks addr) 0 (AllocatedBits addr) in
      (r, if r < 0 then addr else addr\<lparr>AllocatedBits := setBit (AllocatedBits addr) (nat r)\<rparr>))"

definition freeBlock :: "nat \<Rightarrow> outsideAddressState \<Rightarrow> outsideAddressState" where
  "freeBlock blockIdx addr =
     (let word = blockIdx div 64; bit = blockIdx mod 64; bs = AllocatedBits addr in
      if word < length bs then addr\<lparr>AllocatedBits := bs[word := bs ! word AND NOT (push_bit bit 1)]\<rparr> else addr)"

subsection \<open>The parallel count\<close>

text \<open>The number of ones in the first \<open>n\<close> binary digits.\<close>

fun ones :: "nat \<Rightarrow> nat \<Rightarrow> nat" where
  "ones 0 x = 0"
| "ones (Suc n) x = x mod 2 + ones n (x div 2)"

text \<open>The mask that repeats \<open>p\<close> in \<open>n\<close> fields of \<open>w\<close> bits.\<close>

fun repmask :: "nat \<Rightarrow> nat \<Rightarrow> nat \<Rightarrow> nat" where
  "repmask w p 0 = 0"
| "repmask w p (Suc n) = p + 2 ^ w * repmask w p n"

fun fields :: "nat \<Rightarrow> (nat \<Rightarrow> nat) \<Rightarrow> nat \<Rightarrow> nat \<Rightarrow> nat" where
  "fields w f 0 x = 0"
| "fields w f (Suc n) x = f (x mod 2 ^ w) + 2 ^ w * fields w f n (x div 2 ^ w)"

lemma and_field:
  fixes x p q :: nat
  assumes "p < 2 ^ w"
  shows "x AND (p + 2 ^ w * q) = (x mod 2 ^ w AND p) + 2 ^ w * (x div 2 ^ w AND q)"
proof -
  let ?y = "p + 2 ^ w * q"
  have y: "?y mod 2 ^ w = p" "?y div 2 ^ w = q" using assms by simp_all
  have "(x AND ?y) mod 2 ^ w = x mod 2 ^ w AND ?y mod 2 ^ w"
    using take_bit_and [of w x ?y] by (simp only: take_bit_eq_mod)
  moreover have "(x AND ?y) div 2 ^ w = x div 2 ^ w AND ?y div 2 ^ w"
    using drop_bit_and [of w x ?y] by (simp only: drop_bit_eq_div)
  ultimately have "(x AND ?y) mod 2 ^ w = x mod 2 ^ w AND p" "(x AND ?y) div 2 ^ w = x div 2 ^ w AND q"
    unfolding y by simp_all
  with mod_mult_div_eq [of "x AND ?y" "2 ^ w"] show ?thesis by simp
qed

lemma and_1: "x AND 1 = x mod 2" for x :: nat
  by (simp add: and_one_eq)

lemma and_3: "x AND 3 = x mod 4" for x :: nat
  using take_bit_eq_mask [of 2 x] by (simp add: take_bit_eq_mod mask_eq_exp_minus_1)

lemma and_15: "x AND 15 = x mod 16" for x :: nat
  using take_bit_eq_mask [of 4 x] by (simp add: take_bit_eq_mod mask_eq_exp_minus_1)

lemma nat_and_le: "x AND y \<le> (x :: nat)"
  by (metis and_nat_def int_nat_eq nat_le_iff AND_upper1 of_nat_0_le_iff nat_int nat_mono)

lemma mod_div_swap: "0 < a \<Longrightarrow> x mod (a * b) div a = x div a mod b" for x a b :: nat
  by (simp add: mod_mult2_eq)

lemma split_field: "l < k \<Longrightarrow> (l + k * q) mod k = l \<and> (l + k * q) div k = q" for l k q :: nat
  by simp

text \<open>The three steps on fields of 2, 4 and 8 bits.\<close>

lemma step2: "x < 4 ^ n \<Longrightarrow> x - ((x div 2) AND repmask 2 1 n) = fields 2 (\<lambda>d. d - d div 2) n x"
proof (induction n arbitrary: x)
  case (Suc n)
  define m d where "m = x div 4" and "d = x mod 4"
  have x: "x = d + 4 * m" "d < 4" by (simp_all add: m_def d_def)
  have "(x div 2) AND repmask 2 1 (Suc n) = ((x div 2) mod 4 AND 1) + 4 * (x div 2 div 4 AND repmask 2 1 n)"
    using and_field [of 1 2 "x div 2" "repmask 2 1 n"] by simp
  also have "(x div 2) mod 4 AND 1 = d div 2" using mod_div_swap [of 2 x 2] by (simp add: and_1 d_def mod_mod_cancel)
  also have "x div 2 div 4 = m div 2" by (simp add: m_def div_mult2_eq [symmetric])
  finally have e: "(x div 2) AND repmask 2 1 (Suc n) = d div 2 + 4 * (m div 2 AND repmask 2 1 n)" .
  have "m div 2 AND repmask 2 1 n \<le> m" using nat_and_le [of "m div 2"] by (meson div_le_dividend le_trans)
  then have "x - ((x div 2) AND repmask 2 1 (Suc n)) = (d - d div 2) + 4 * (m - (m div 2 AND repmask 2 1 n))"
    using x(1) div_le_dividend [of d 2] unfolding e by linarith
  also have "m - (m div 2 AND repmask 2 1 n) = fields 2 (\<lambda>d. d - d div 2) n m"
    using Suc.prems by (intro Suc.IH) (simp add: m_def)
  finally show ?case by (simp add: m_def d_def)
qed simp

lemma step4: "(x AND repmask 4 3 n) + ((x div 4) AND repmask 4 3 n) = fields 4 (\<lambda>e. e mod 4 + e div 4) n x"
proof (induction n arbitrary: x)
  case (Suc n)
  have "x AND repmask 4 3 (Suc n) = x mod 16 mod 4 + 16 * (x div 16 AND repmask 4 3 n)"
    using and_field [of 3 4 x "repmask 4 3 n"] by (simp add: and_3)
  moreover have "(x div 4) AND repmask 4 3 (Suc n) = x div 4 mod 16 mod 4 + 16 * (x div 4 div 16 AND repmask 4 3 n)"
    using and_field [of 3 4 "x div 4" "repmask 4 3 n"] by (simp add: and_3)
  moreover have "x div 4 mod 16 mod 4 = x mod 16 div 4" using mod_div_swap [of 4 x 4] by (simp add: mod_mod_cancel)
  moreover have "x div 4 div 16 = x div 16 div 4" by (simp add: div_mult2_eq [symmetric])
  ultimately show ?case using Suc.IH [of "x div 16"] by simp
qed simp

fun nibbles_ok :: "nat \<Rightarrow> nat \<Rightarrow> bool" where
  "nibbles_ok 0 x \<longleftrightarrow> x = 0"
| "nibbles_ok (Suc n) x \<longleftrightarrow> x mod 16 \<le> 6 \<and> nibbles_ok n (x div 16)"

lemma nibbles_ok_mod: "nibbles_ok n x \<Longrightarrow> x mod 16 \<le> 6"
  by (cases n) simp_all

lemma step8:
  "nibbles_ok (2 * n) x \<Longrightarrow> (x + x div 16) AND repmask 8 15 n = fields 8 (\<lambda>e. e mod 16 + e div 16) n x"
proof (induction n arbitrary: x)
  case (Suc n)
  define a b m where "a = x mod 16" and "b = x div 16 mod 16" and "m = x div 16 div 16"
  have x: "x = a + 16 * b + 256 * m"
    using mod_mult_div_eq [of x 16] mod_mult_div_eq [of "x div 16" 16] unfolding a_def b_def m_def by linarith
  have ok: "a \<le> 6" "b \<le> 6" "nibbles_ok (2 * n) m"
    using Suc.prems by (simp_all add: a_def b_def m_def)
  have m: "m mod 16 \<le> 6" by (rule nibbles_ok_mod [OF ok(3)])
  have s: "x + x div 16 = (a + b + 16 * (b + m mod 16)) + 256 * (m + m div 16)"
  proof -
    have y: "x div 16 = b + 16 * m" using mod_mult_div_eq [of "x div 16" 16] unfolding b_def m_def by linarith
    have "a + 16 * b + 256 * m + (b + 16 * m) = (a + b + 16 * (b + r)) + 256 * (m + q)" if "m = r + 16 * q" for r q
      using that by simp
    from this [of "m mod 16" "m div 16"] show ?thesis unfolding y unfolding x by simp
  qed
  have r: "(x + x div 16) mod 256 = a + b + 16 * (b + m mod 16)" "(x + x div 16) div 256 = m + m div 16"
  proof -
    have "a + b + 16 * (b + k) < 256" if "k \<le> 6" for k using that ok(1,2) by simp
    note lt = this [OF m]
    show "(x + x div 16) mod 256 = a + b + 16 * (b + m mod 16)" "(x + x div 16) div 256 = m + m div 16"
      unfolding s by (rule split_field [OF lt, THEN conjunct1] split_field [OF lt, THEN conjunct2])+
  qed
  have "(x + x div 16) AND repmask 8 15 (Suc n) = (x + x div 16) mod 256 mod 16 + 256 * ((x + x div 16) div 256 AND repmask 8 15 n)"
    using and_field [of 15 8 "x + x div 16" "repmask 8 15 n"] by (simp add: and_15)
  also have "\<dots> = (a + b) + 256 * ((m + m div 16) AND repmask 8 15 n)"
  proof -
    have "a + b < 16" using ok(1,2) by simp
    then show ?thesis unfolding r by (simp only: split_field)
  qed
  also have "(m + m div 16) AND repmask 8 15 n = fields 8 (\<lambda>e. e mod 16 + e div 16) n m"
    by (rule Suc.IH [OF ok(3)])
  finally show ?case using ok(1,2) unfolding x by simp
qed simp

text \<open>The sum of the fields, and that each step keeps it.\<close>

fun fsum :: "nat \<Rightarrow> nat \<Rightarrow> nat \<Rightarrow> nat" where
  "fsum w 0 x = 0"
| "fsum w (Suc n) x = x mod 2 ^ w + fsum w n (x div 2 ^ w)"

lemma fields_split:
  assumes "\<And>d. d < 2 ^ w \<Longrightarrow> f d < 2 ^ w"
  shows "fields w f (Suc n) x mod 2 ^ w = f (x mod 2 ^ w)" "fields w f (Suc n) x div 2 ^ w = fields w f n (x div 2 ^ w)"
  using split_field [of "f (x mod 2 ^ w)" "2 ^ w"] assms by simp_all

lemma fields_less: "(\<And>d. d < 2 ^ w \<Longrightarrow> f d < 2 ^ w) \<Longrightarrow> fields w f n x < 2 ^ (w * n)"
proof (induction n arbitrary: x)
  case (Suc n)
  have "fields w f (Suc n) x div 2 ^ w < 2 ^ (w * n)"
    using fields_split(2) [of w f n x, OF Suc.prems] Suc.IH [OF Suc.prems] by simp
  then have "fields w f (Suc n) x < 2 ^ (w * n) * 2 ^ w" 
    using div_less_iff_less_mult [of "2 ^ w" "fields w f (Suc n) x" "2 ^ (w * n)"] by (simp del: fields.simps)
  then show ?case by (simp add: power_add mult.commute del: fields.simps)
qed simp

lemma step_bounds:
  "d < 2 ^ 2 \<Longrightarrow> d - d div 2 < (2 :: nat) ^ 2"
  "e < 2 ^ 4 \<Longrightarrow> e mod 4 + e div 4 \<le> 6 \<and> e mod 4 + e div 4 < (2 :: nat) ^ 4"
  "g < 2 ^ 8 \<Longrightarrow> g mod 16 + g div 16 < (2 :: nat) ^ 8"
proof -
  have "x mod k + x div k \<le> (k - 1) + (k - 1)" if "x < k * k" for x k :: nat
  proof -
    have "0 < k" using that by (cases k) simp_all
    then have "x mod k < k" "x div k < k" using that by (simp_all add: less_mult_imp_div_less)
    then show ?thesis by linarith
  qed
  from this [of e 4] this [of g 16]
  show "e < 2 ^ 4 \<Longrightarrow> e mod 4 + e div 4 \<le> 6 \<and> e mod 4 + e div 4 < (2 :: nat) ^ 4"
    "g < 2 ^ 8 \<Longrightarrow> g mod 16 + g div 16 < (2 :: nat) ^ 8" by simp_all
qed simp

lemmas step2_split = fields_split [of 2 "\<lambda>d. d - d div 2", OF step_bounds(1)]
lemmas step4_split = fields_split [of 4 "\<lambda>e. e mod 4 + e div 4", OF step_bounds(2) [THEN conjunct2]]
lemmas step8_split = fields_split [of 8 "\<lambda>e. e mod 16 + e div 16", OF step_bounds(3)]

lemma fsum_step2: "fsum 2 n (fields 2 (\<lambda>d. d - d div 2) n x) = ones (2 * n) x"
proof (induction n arbitrary: x)
  case (Suc n)
  have "x mod 4 - x mod 4 div 2 = x mod 2 + x div 2 mod 2"
    using mod_div_swap [of 2 x 2] mod_mult2_eq [of x 2 2] by simp
  moreover have "x div 2 div 2 = x div 4" by (simp add: div_mult2_eq [symmetric])
  ultimately show ?case using step2_split [of n x] Suc.IH [of "x div 4"] by (simp del: fields.simps)
qed simp

lemma fsum_step4: "fsum 4 n (fields 4 (\<lambda>e. e mod 4 + e div 4) n x) = fsum 2 (2 * n) x"
proof (induction n arbitrary: x)
  case (Suc n)
  have "x mod 16 mod 4 + x mod 16 div 4 = x mod 4 + x div 4 mod 4"
    using mod_div_swap [of 4 x 4] by (simp add: mod_mod_cancel)
  moreover have "x div 4 div 4 = x div 16" by (simp add: div_mult2_eq [symmetric])
  ultimately show ?case using step4_split [of n x] Suc.IH [of "x div 16"] by (simp del: fields.simps)
qed simp

lemma fsum_step8: "fsum 8 n (fields 8 (\<lambda>e. e mod 16 + e div 16) n x) = fsum 4 (2 * n) x"
proof (induction n arbitrary: x)
  case (Suc n)
  have "x mod 256 mod 16 + x mod 256 div 16 = x mod 16 + x div 16 mod 16"
    using mod_div_swap [of 16 x 16] by (simp add: mod_mod_cancel)
  moreover have "x div 16 div 16 = x div 256" by (simp add: div_mult2_eq [symmetric])
  ultimately show ?case using step8_split [of n x] Suc.IH [of "x div 256"] by (simp del: fields.simps)
qed simp

lemma step4_nibbles: "nibbles_ok n (fields 4 (\<lambda>e. e mod 4 + e div 4) n x)"
proof (induction n arbitrary: x)
  case (Suc n)
  then show ?case using step4_split [of n x] step_bounds(2) [of "x mod 16"] by (simp del: fields.simps)
qed simp

lemma nibbles_ok_le: "nibbles_ok n x \<Longrightarrow> 15 * x + 6 \<le> 6 * 16 ^ n"
proof (induction n arbitrary: x)
  case (Suc n)
  have "x mod 16 \<le> 6" "15 * (x div 16) + 6 \<le> 6 * 16 ^ n" using Suc by simp_all
  with mod_mult_div_eq [of x 16] have "15 * x + 6 \<le> 16 * (6 * 16 ^ n)" by linarith
  then show ?case by simp
qed simp

lemma ones_le: "ones n x \<le> n"
proof (induction n arbitrary: x)
  case (Suc n)
  have "x mod 2 \<le> 1" by simp
  with Suc.IH [of "x div 2"] show ?case by (simp del: One_nat_def)
qed simp

lemma byte_digits:
  fixes x :: nat
  assumes "x < 2 ^ 64"
  obtains a b c d e f g h where
    "x = a + 256 * (b + 256 * (c + 256 * (d + 256 * (e + 256 * (f + 256 * (g + 256 * h))))))"
    "fsum 8 8 x = a + b + c + d + e + f + g + h"
proof -
  define y1 where "y1 = x div 256"
  define y2 where "y2 = y1 div 256"
  define y3 where "y3 = y2 div 256"
  define y4 where "y4 = y3 div 256"
  define y5 where "y5 = y4 div 256"
  define y6 where "y6 = y5 div 256"
  define y7 where "y7 = y6 div 256"
  note ys = y1_def y2_def y3_def y4_def y5_def y6_def y7_def
  have s: "z = z mod 256 + 256 * (z div 256)" for z :: nat by simp
  have h: "x = a + 256 * z1 \<Longrightarrow> z1 = b + 256 * z2 \<Longrightarrow> z2 = c + 256 * z3 \<Longrightarrow> z3 = d + 256 * z4 \<Longrightarrow> z4 = e + 256 * z5
      \<Longrightarrow> z5 = f + 256 * z6 \<Longrightarrow> z6 = g + 256 * z7
      \<Longrightarrow> x = a + 256 * (b + 256 * (c + 256 * (d + 256 * (e + 256 * (f + 256 * (g + 256 * z7))))))"
    for x a b c d e f g z1 z2 z3 z4 z5 z6 z7 :: nat by hypsubst (rule refl)
  have "y7 < 256" using assms by (simp add: ys div_mult2_eq [symmetric] less_mult_imp_div_less)
  then have f1: "fsum 8 (Suc (Suc (Suc (Suc (Suc (Suc (Suc (Suc 0)))))))) x = x mod 256 + y1 mod 256 + y2 mod 256 + y3 mod 256 + y4 mod 256 + y5 mod 256 + y6 mod 256 + y7"
    by (simp add: ys [symmetric])
  have f2: "fsum 8 8 x = fsum 8 (Suc (Suc (Suc (Suc (Suc (Suc (Suc (Suc 0)))))))) x" by (rule arg_cong) simp
  have f3: "x = x mod 256 + 256 * (y1 mod 256 + 256 * (y2 mod 256 + 256 * (y3 mod 256 + 256 * (y4 mod 256 + 256 * (y5 mod 256
      + 256 * (y6 mod 256 + 256 * y7))))))"
    by (rule h [OF s [of x, folded ys] s [of y1, folded ys] s [of y2, folded ys] s [of y3, folded ys] s [of y4, folded ys]
      s [of y5, folded ys] s [of y6, folded ys]])
  show ?thesis by (rule that [OF f3]) (simp only: f2 f1)
qed

lemma byte_sum:
  assumes "x < 2 ^ 64" "fsum 8 8 x < 256"
  shows "x * 0x0101010101010101 mod 2 ^ 64 div 2 ^ 56 = fsum 8 8 x"
proof -
  obtain a b c d e f g h where x: "x = a + 256 * (b + 256 * (c + 256 * (d + 256 * (e + 256 * (f + 256 * (g + 256 * h))))))"
    and s: "fsum 8 8 x = a + b + c + d + e + f + g + h"
    by (rule byte_digits [OF assms(1)])
  let ?low = "a + 256 * (a + b + 256 * (a + b + c + 256 * (a + b + c + d + 256 * (a + b + c + d + e
    + 256 * (a + b + c + d + e + f + 256 * (a + b + c + d + e + f + g))))))"
  obtain q where "x * 0x0101010101010101 = (?low + 2 ^ 56 * (a + b + c + d + e + f + g + h)) + 2 ^ 64 * q"
  proof
    show "x * 0x0101010101010101 = (?low + 2 ^ 56 * (a + b + c + d + e + f + g + h)) + 2 ^ 64 * (
      (b + c + d + e + f + g + h) + 256 * ((c + d + e + f + g + h) + 256 * ((d + e + f + g + h) + 256 * ((e + f + g + h)
      + 256 * ((f + g + h) + 256 * ((g + h) + 256 * h))))))"
      unfolding x by simp
  qed
  moreover have low: "?low < 2 ^ 56" using assms(2) unfolding s by simp
  moreover have "?low + 2 ^ 56 * (a + b + c + d + e + f + g + h) < 2 ^ 64" using low assms(2) unfolding s by simp
  ultimately show ?thesis unfolding s by (simp only: split_field)
qed

lemma repmask_sum: "2 ^ w * repmask w p n + p = repmask w p n + p * 2 ^ (w * n)"
proof (induction n)
  case (Suc n)
  have "2 ^ w * repmask w p (Suc n) + p = 2 ^ w * (2 ^ w * repmask w p n + p) + p" by (simp add: distrib_left)
  also have "\<dots> = repmask w p (Suc n) + p * 2 ^ (w * Suc n)"
    unfolding Suc.IH by (simp add: distrib_left power_add)
  finally show ?case .
qed simp

lemma repmasks:
  "repmask 2 1 32 = 0x5555555555555555" "repmask 4 3 16 = 0x3333333333333333" "repmask 8 15 8 = 0x0f0f0f0f0f0f0f0f"
  using repmask_sum [of 2 1 32] repmask_sum [of 4 3 16] repmask_sum [of 8 15 8] by simp_all

lemma unat_shift: "unat (drop_bit k x) = unat x div 2 ^ k" for x :: u64
  by (simp add: unat_drop_bit_eq flip: drop_bit_eq_div)

lemma unat_shift_mask: "unat (drop_bit k x AND m) = unat x div 2 ^ k AND unat m" for x m :: u64
  by (simp only: unsigned_and_eq unat_shift)

theorem popcount_ones: "popcount x = ones 64 (unat x)"
proof -
  define y where "y = x - (drop_bit 1 x AND 0x5555555555555555)"
  define z where "z = (y AND 0x3333333333333333) + (drop_bit 2 y AND 0x3333333333333333)"
  define v where "v = (z + drop_bit 4 z) AND 0x0f0f0f0f0f0f0f0f"
  have x: "unat x < 2 ^ 64" using unsigned_less [of x, where 'a = nat] by simp
  have "unat (drop_bit 1 x AND 0x5555555555555555) = unat x div 2 AND repmask 2 1 32"
    unfolding unat_shift_mask repmasks by simp
  moreover have "unat x div 2 AND repmask 2 1 32 \<le> unat x"
    using nat_and_le [of "unat x div 2"] by (meson div_le_dividend le_trans)
  ultimately have y: "unat y = fields 2 (\<lambda>d. d - d div 2) 32 (unat x)"
    using step2 [of "unat x" 32] x unfolding y_def by (simp add: unat_sub word_le_nat_alt)
  have "unat (y AND 0x3333333333333333) + unat (drop_bit 2 y AND 0x3333333333333333) = fields 4 (\<lambda>e. e mod 4 + e div 4) 16 (unat y)"
    unfolding unat_shift_mask step4 [symmetric] repmasks by (simp add: unsigned_and_eq)
  moreover have "fields 4 (\<lambda>e. e mod 4 + e div 4) 16 (unat y) < 2 ^ (4 * 16)"
    by (rule fields_less) (simp add: step_bounds)
  ultimately have z: "unat z = fields 4 (\<lambda>e. e mod 4 + e div 4) 16 (unat y)"
    unfolding z_def by (simp add: unat_word_ariths)
  have nz: "nibbles_ok (2 * 8) (unat z)" using step4_nibbles [of 16 "unat y"] unfolding z by simp
  have lz: "unat z + unat z div 16 < 2 ^ 64"
    using nibbles_ok_le [OF nz] div_le_dividend [of "unat z" 16] by simp
  have v: "unat v = fields 8 (\<lambda>e. e mod 16 + e div 16) 8 (unat z)"
    using step8 [OF nz, unfolded repmasks] lz unfolding v_def
    by (simp add: unsigned_and_eq unat_word_ariths unat_shift)
  have sum: "fsum 8 8 (unat v) = ones 64 (unat x)"
    using fsum_step8 [of 8 "unat z"] fsum_step4 [of 16 "unat y"] fsum_step2 [of 32 "unat x"] unfolding v z y by simp
  have "popcount x = unat (drop_bit 56 (v * 0x0101010101010101))"
    by (simp add: popcount_def Let_def y_def z_def v_def)
  also have "\<dots> = unat v * 0x0101010101010101 mod 2 ^ 64 div 2 ^ 56"
    by (simp add: unat_shift unat_word_ariths)
  also have "\<dots> = fsum 8 8 (unat v)"
    using unsigned_less [of v, where 'a = nat] ones_le [of 64 "unat x"] sum by (intro byte_sum) simp_all
  finally show ?thesis unfolding sum .
qed

subsection \<open>The bits of a bitmap\<close>

definition bm_bit :: "u64 list \<Rightarrow> nat \<Rightarrow> bool" where
  "bm_bit bs i \<longleftrightarrow> i div 64 < length bs \<and> bit (bs ! (i div 64)) (i mod 64)"

lemma bm_bit_less: "bm_bit bs i \<Longrightarrow> i < 64 * length bs"
  by (simp add: bm_bit_def div_less_iff_less_mult mult.commute)

lemma bm_bit_Nil [simp]: "\<not> bm_bit [] i"
  by (simp add: bm_bit_def)

lemma bm_bit_Cons: "bm_bit (w # ws) i \<longleftrightarrow> (if i < 64 then bit w i else bm_bit ws (i - 64))"
proof (cases "i < 64")
  case False
  then obtain j where "i = 64 + j" using le_Suc_ex not_less by blast
  moreover have "(64 + j) div 64 = Suc (j div 64)" using div_add_self1 [of 64 j] by simp
  ultimately show ?thesis by (simp add: bm_bit_def)
qed (simp add: bm_bit_def)

lemma bm_bit_replicate [simp]: "\<not> bm_bit (replicate n 0) i"
  by (simp add: bm_bit_def)

lemma bm_bit_setBit: "i div 64 < length bs \<Longrightarrow> bm_bit (setBit bs i) j \<longleftrightarrow> bm_bit bs j \<or> j = i"
proof -
  assume i: "i div 64 < length bs"
  have "i = i div 64 * 64 + i mod 64" "j = j div 64 * 64 + j mod 64" by simp_all
  then have "j = i \<longleftrightarrow> j div 64 = i div 64 \<and> j mod 64 = i mod 64" by metis
  with i show ?thesis
    by (auto simp: bm_bit_def setBit_def nth_list_update bit_simps)
qed

lemma length_setBit [simp]: "length (setBit bs i) = length bs"
  by (simp add: setBit_def)

lemma freeBlock_fields [simp]:
  "oIP (freeBlock i addr) = oIP addr" "TotalBlocks (freeBlock i addr) = TotalBlocks addr"
  "Excluded (freeBlock i addr) = Excluded addr" "length (AllocatedBits (freeBlock i addr)) = length (AllocatedBits addr)"
  by (simp_all add: freeBlock_def Let_def)

lemma bm_bit_freeBlock: "bm_bit (AllocatedBits (freeBlock i addr)) j \<longleftrightarrow> bm_bit (AllocatedBits addr) j \<and> j \<noteq> i"
proof -
  have "i = i div 64 * 64 + i mod 64" "j = j div 64 * 64 + j mod 64" by simp_all
  then have "j = i \<longleftrightarrow> j div 64 = i div 64 \<and> j mod 64 = i mod 64" by metis
  then show ?thesis
    by (auto simp: bm_bit_def freeBlock_def Let_def nth_list_update bit_simps)
qed

lemma ones_sum: "ones n x = (\<Sum>i<n. of_bool (bit x i))"
proof (induction n arbitrary: x)
  case (Suc n)
  have "(\<Sum>i<Suc n. of_bool (bit x i)) = of_bool (odd x) + (\<Sum>i<n. of_bool (bit (x div 2) i) :: nat)"
    by (subst sum.lessThan_Suc_shift) (simp add: bit_0 bit_Suc)
  with Suc.IH [of "x div 2"] show ?case by (simp only: ones.simps mod_2_eq_odd)
qed simp

lemma popcount_sum: "popcount w = (\<Sum>i<64. of_bool (bit w i))"
  unfolding popcount_ones ones_sum by (rule sum.cong) (simp_all add: bit_unsigned_iff)

lemma sum_split: "(\<Sum>i<m + n. f i) = (\<Sum>i<m. f i) + (\<Sum>i<n. f (m + i))" for f :: "nat \<Rightarrow> nat"
  by (induction n) simp_all

lemma popcounts_sum: "sum_list (map popcount bs) = (\<Sum>i<64 * length bs. of_bool (bm_bit bs i))"
proof (induction bs)
  case (Cons w ws)
  let ?n = "64 * length ws"
  have "(\<Sum>i<64 + ?n. of_bool (bm_bit (w # ws) i)) = (\<Sum>i<64. of_bool (bm_bit (w # ws) i)) + (\<Sum>i<?n. of_bool (bm_bit (w # ws) (64 + i)) :: nat)"
    by (rule sum_split)
  also have "(\<Sum>i<64. of_bool (bm_bit (w # ws) i)) = popcount w"
    unfolding popcount_sum by (rule sum.cong) (simp_all add: bm_bit_Cons)
  finally show ?case using Cons.IH by (simp add: bm_bit_Cons del: sum_of_bool_eq)
qed simp

text \<open>The bits below the number of blocks are the ones that count.\<close>

definition bm_ok :: "nat \<Rightarrow> u64 list \<Rightarrow> bool" where
  "bm_ok tot bs \<longleftrightarrow> length bs = (tot + 63) div 64 \<and> (\<forall>i<64 * length bs. tot \<le> i \<longrightarrow> \<not> bm_bit bs i)"

lemma foldl_popcount: "foldl (\<lambda>a w. a + of_nat (popcount w)) (c :: u32) bs = c + of_nat (sum_list (map popcount bs))"
  by (induction bs arbitrary: c) simp_all

lemma sum_of_bool_less: "(\<Sum>i<n. of_bool (P i)) < n \<longleftrightarrow> (\<exists>i<n. \<not> P i)" for n :: nat
proof (induction n)
  case (Suc n)
  have "(\<Sum>i<n. of_bool (P i)) \<le> n" by (induction n) auto
  then show ?case using Suc.IH by (auto simp: less_Suc_eq simp del: sum_of_bool_eq)
qed simp

lemma bm_ok_le: "bm_ok tot bs \<Longrightarrow> tot \<le> 64 * length bs"
  using mod_mult_div_eq [of "tot + 63" 64] mod_less_divisor [of 64 "tot + 63"] by (simp add: bm_ok_def del: mod_less_divisor)

lemma bm_ok_count:
  assumes "bm_ok tot bs"
  shows "sum_list (map popcount bs) = (\<Sum>i<tot. of_bool (bm_bit bs i))"
proof -
  obtain k where k: "64 * length bs = tot + k" using bm_ok_le [OF assms] le_Suc_ex by blast
  have "\<forall>i<k. \<not> bm_bit bs (tot + i)" using assms k by (simp add: bm_ok_def)
  then show ?thesis unfolding popcounts_sum k sum_split by simp
qed

theorem hasFreeBlock_iff:
  assumes "bm_ok (unat (TotalBlocks addr)) (AllocatedBits addr)"
  shows "hasFreeBlock addr \<longleftrightarrow> (\<exists>i<unat (TotalBlocks addr). \<not> bm_bit (AllocatedBits addr) i)"
proof -
  let ?n = "unat (TotalBlocks addr)" and ?s = "sum_list (map popcount (AllocatedBits addr))"
  have s: "?s = (\<Sum>i<?n. of_bool (bm_bit (AllocatedBits addr) i))" by (rule bm_ok_count [OF assms])
  have "(\<Sum>i<n. of_bool (P i)) \<le> n" for n :: nat and P by (induction n) auto
  then have "?s \<le> ?n" unfolding s .
  then have "?s < 2 ^ 32" using unsigned_less [of "TotalBlocks addr", where 'a = nat] by simp
  then have "unat (of_nat ?s :: u32) = ?s" by (simp add: unat_of_nat)
  then have "hasFreeBlock addr \<longleftrightarrow> ?s < ?n" by (simp add: hasFreeBlock_def foldl_popcount word_less_nat_alt)
  then show ?thesis unfolding s sum_of_bool_less .
qed

subsection \<open>The first free block\<close>

text \<open>
  What a scan from word \<open>i\<close> on returns: -1 when every block below the number of blocks is taken, else the lowest
  free one.
\<close>

definition scan_spec :: "nat \<Rightarrow> nat \<Rightarrow> (nat \<Rightarrow> bool) \<Rightarrow> nat \<Rightarrow> int \<Rightarrow> bool" where
  "scan_spec tot base taken n r \<longleftrightarrow>
     (r = - 1 \<and> (\<forall>k<n. base + k < tot \<longrightarrow> taken k)) \<or>
     (\<exists>k<n. r = int (base + k) \<and> base + k < tot \<and> \<not> taken k \<and> (\<forall>j<k. taken j))"

lemma scanBits_spec:
  assumes "i * 64 + 64 \<le> 2 ^ 32" "b \<le> 64" "\<forall>j<b. bit word j \<and> i * 64 + j < unat tot"
  shows "case scanBits tot i word [b..<64] of
      None \<Rightarrow> \<forall>j<64. bit word j \<and> i * 64 + j < unat tot
    | Some r \<Rightarrow> (r = - 1 \<and> (\<forall>j<64. i * 64 + j < unat tot \<longrightarrow> bit word j) \<and> unat tot < i * 64 + 64)
        \<or> (\<exists>k<64. r = int (i * 64 + k) \<and> i * 64 + k < unat tot \<and> \<not> bit word k \<and> (\<forall>j<k. bit word j))"
  using assms(2,3)
proof (induction "64 - b" arbitrary: b)
  case (Suc n)
  then have b: "[b..<64] = b # [Suc b..<64]" "b < 64" by (simp_all add: upt_conv_Cons)
  have lt: "tot \<le> of_nat (i * 64 + b) \<longleftrightarrow> unat tot \<le> i * 64 + b"
    using assms(1) b(2) by (simp add: word_le_nat_alt unat_of_nat del: of_nat_add of_nat_mult)
  have m: "word AND push_bit b 1 = 0 \<longleftrightarrow> \<not> bit word b"
    unfolding bit_eq_iff [of "word AND push_bit b 1"] using b(2) by (auto simp: bit_simps)
  have step: "scanBits tot i word (b # bs) = (if unat tot \<le> i * 64 + b then Some (- 1)
      else if \<not> bit word b then Some (int (i * 64 + b)) else scanBits tot i word bs)" for bs
    by (simp only: scanBits.simps Let_def lt m)
  consider "unat tot \<le> i * 64 + b" | "i * 64 + b < unat tot" "\<not> bit word b" | "i * 64 + b < unat tot" "bit word b"
    by fastforce
  then show ?case
  proof cases
    case 1
    then have "\<forall>j<64. i * 64 + j < unat tot \<longrightarrow> bit word j" using Suc.prems(2) by auto
    with 1 b show ?thesis by (simp add: step del: scanBits.simps)
  next
    case 2
    with b Suc.prems(2) show ?thesis by (auto simp: step simp del: scanBits.simps)
  next
    case 3
    then have "\<forall>j<Suc b. bit word j \<and> i * 64 + j < unat tot" using Suc.prems(2) by (simp add: less_Suc_eq)
    then have "case scanBits tot i word [Suc b..<64] of
        None \<Rightarrow> \<forall>j<64. bit word j \<and> i * 64 + j < unat tot
      | Some r \<Rightarrow> (r = - 1 \<and> (\<forall>j<64. i * 64 + j < unat tot \<longrightarrow> bit word j) \<and> unat tot < i * 64 + 64)
          \<or> (\<exists>k<64. r = int (i * 64 + k) \<and> i * 64 + k < unat tot \<and> \<not> bit word k \<and> (\<forall>j<k. bit word j))"
      using Suc.hyps(2) b(2) by (intro Suc.hyps(1)) simp_all
    with 3 b(1) show ?thesis by (simp add: step del: scanBits.simps)
  qed
qed simp

lemma scanWords_spec:
  assumes "(i + length ws) * 64 \<le> 2 ^ 32"
  shows "scan_spec (unat tot) (i * 64) (bm_bit ws) (64 * length ws) (scanWords tot i ws)"
  using assms
proof (induction ws arbitrary: i)
  case (Cons w ws)
  have IH: "scan_spec (unat tot) (Suc i * 64) (bm_bit ws) (64 * length ws) (scanWords tot (Suc i) ws)"
    using Cons.prems by (intro Cons.IH) simp
  have shift: "scan_spec (unat tot) (i * 64) (bm_bit (w # ws)) (64 * length (w # ws)) r"
    if all: "\<forall>j<64. bit w j" and s: "scan_spec (unat tot) (Suc i * 64) (bm_bit ws) (64 * length ws) r" for r
    using s unfolding scan_spec_def
  proof (elim disjE exE conjE)
    fix k
    assume k: "k < 64 * length ws" "r = int (Suc i * 64 + k)" "Suc i * 64 + k < unat tot" "\<not> bm_bit ws k" "\<forall>j<k. bm_bit ws j"
    then have "\<forall>j<64 + k. bm_bit (w # ws) j" using all by (simp add: bm_bit_Cons)
    with k show "r = - 1 \<and> (\<forall>k<64 * length (w # ws). i * 64 + k < unat tot \<longrightarrow> bm_bit (w # ws) k) \<or>
      (\<exists>k<64 * length (w # ws). r = int (i * 64 + k) \<and> i * 64 + k < unat tot \<and> \<not> bm_bit (w # ws) k \<and> (\<forall>j<k. bm_bit (w # ws) j))"
      by (intro disjI2 exI [of _ "64 + k"]) (simp add: bm_bit_Cons)
  next
    assume k: "r = - 1" "\<forall>k<64 * length ws. Suc i * 64 + k < unat tot \<longrightarrow> bm_bit ws k"
    have "bm_bit (w # ws) j" if "j < 64 + 64 * length ws" "i * 64 + j < unat tot" for j
      using all that k(2) [rule_format, of "j - 64"] by (cases "j < 64") (simp_all add: bm_bit_Cons)
    with k show "r = - 1 \<and> (\<forall>k<64 * length (w # ws). i * 64 + k < unat tot \<longrightarrow> bm_bit (w # ws) k) \<or>
      (\<exists>k<64 * length (w # ws). r = int (i * 64 + k) \<and> i * 64 + k < unat tot \<and> \<not> bm_bit (w # ws) k \<and> (\<forall>j<k. bm_bit (w # ws) j))"
      by simp
  qed
  show ?case
  proof (cases "w = NOT 0")
    case True
    then show ?thesis using shift [OF _ IH] by (simp add: bit_simps)
  next
    case False
    have "i * 64 + 64 \<le> 2 ^ 32" using Cons.prems by simp
    note sb = scanBits_spec [OF this, of 0 w tot, simplified]
    show ?thesis
    proof (cases "scanBits tot i w [0..<64]")
      case None
      then have "\<forall>j<64. bit w j" using sb by simp
      with False None shift [OF this IH] show ?thesis by simp
    next
      case (Some r)
      from sb [unfolded Some option.case] have "scan_spec (unat tot) (i * 64) (bm_bit (w # ws)) (64 * length (w # ws)) r"
      proof (elim disjE exE conjE)
        assume "r = - 1" "\<forall>j<64. i * 64 + j < unat tot \<longrightarrow> bit w j" "unat tot < i * 64 + 64"
        then show ?thesis by (simp add: scan_spec_def bm_bit_Cons)
      next
        fix k assume "k < 64" "r = int (i * 64 + k)" "i * 64 + k < unat tot" "\<not> bit w k" "\<forall>j<k. bit w j"
        then show ?thesis unfolding scan_spec_def by (intro disjI2 exI [of _ k]) (simp add: bm_bit_Cons)
      qed
      with False Some show ?thesis by simp
    qed
  qed
qed (simp add: scan_spec_def)

subsection \<open>Allocating and freeing a block\<close>

text \<open>A state of an address as \<^verbatim>\<open>ConfigurePool\<close> builds it: at most 65536 blocks, no bit set beyond them.\<close>

definition addr_ok :: "outsideAddressState \<Rightarrow> bool" where
  "addr_ok addr \<longleftrightarrow> unat (TotalBlocks addr) \<le> 65536 \<and> bm_ok (unat (TotalBlocks addr)) (AllocatedBits addr)"

abbreviation taken :: "outsideAddressState \<Rightarrow> nat \<Rightarrow> bool" where
  "taken addr i \<equiv> bm_bit (AllocatedBits addr) i"

lemma taken_less: "addr_ok addr \<Longrightarrow> taken addr i \<Longrightarrow> i < unat (TotalBlocks addr)"
  using bm_bit_less [of "AllocatedBits addr" i] by (auto simp: addr_ok_def bm_ok_def not_le [symmetric])

lemma bm_ok_set: "bm_ok tot bs \<Longrightarrow> k < tot \<Longrightarrow> bm_ok tot (setBit bs k)"
  using bm_ok_le [of tot bs] by (auto simp: bm_ok_def bm_bit_setBit div_less_iff_less_mult mult.commute)

theorem allocateBlock_cases:
  assumes "addr_ok addr"
  shows "(\<not> hasFreeBlock addr \<and> allocateBlock addr = (- 1, addr)) \<or>
    (\<exists>k<unat (TotalBlocks addr). hasFreeBlock addr \<and> \<not> taken addr k \<and> (\<forall>j<k. taken addr j) \<and>
       allocateBlock addr = (int k, addr\<lparr>AllocatedBits := setBit (AllocatedBits addr) k\<rparr>))"
proof -
  let ?n = "unat (TotalBlocks addr)" and ?bs = "AllocatedBits addr"
  have ok: "bm_ok ?n ?bs" "?n \<le> 65536" using assms by (simp_all add: addr_ok_def)
  have "length ?bs * 64 \<le> ?n + 63"
    using ok(1) div_mult_mod_eq [of "?n + 63" 64] unfolding bm_ok_def by linarith
  then have "(0 + length ?bs) * 64 \<le> 2 ^ 32" using ok(2) by simp
  from scanWords_spec [OF this, of "TotalBlocks addr"]
  consider "scanWords (TotalBlocks addr) 0 ?bs = - 1" "\<forall>k<64 * length ?bs. k < ?n \<longrightarrow> taken addr k"
    | k where "scanWords (TotalBlocks addr) 0 ?bs = int k" "k < ?n" "\<not> taken addr k" "\<forall>j<k. taken addr j"
    unfolding scan_spec_def by auto
  then show ?thesis
  proof cases
    case 1
    have "\<not> hasFreeBlock addr" unfolding hasFreeBlock_iff [OF ok(1)] using 1(2) bm_ok_le [OF ok(1)] by auto
    with 1(1) show ?thesis by (simp add: allocateBlock_def)
  next
    case (2 k)
    then have "hasFreeBlock addr" unfolding hasFreeBlock_iff [OF ok(1)] by blast
    with 2 show ?thesis by (intro disjI2 exI [of _ k]) (simp add: allocateBlock_def)
  qed
qed

lemma addr_ok_allocate:
  assumes "addr_ok addr" "k < unat (TotalBlocks addr)"
  shows "addr_ok (addr\<lparr>AllocatedBits := setBit (AllocatedBits addr) k\<rparr>)"
    "taken (addr\<lparr>AllocatedBits := setBit (AllocatedBits addr) k\<rparr>) j \<longleftrightarrow> taken addr j \<or> j = k"
proof -
  have b: "bm_ok (unat (TotalBlocks addr)) (AllocatedBits addr)" using assms(1) by (simp add: addr_ok_def)
  show "addr_ok (addr\<lparr>AllocatedBits := setBit (AllocatedBits addr) k\<rparr>)"
    using assms bm_ok_set [OF b] by (simp add: addr_ok_def)
  have "k div 64 < length (AllocatedBits addr)"
    using bm_ok_le [OF b] assms(2) by (simp add: div_less_iff_less_mult mult.commute)
  then show "taken (addr\<lparr>AllocatedBits := setBit (AllocatedBits addr) k\<rparr>) j \<longleftrightarrow> taken addr j \<or> j = k"
    by (simp add: bm_bit_setBit)
qed

lemma addr_ok_freeBlock: "addr_ok addr \<Longrightarrow> addr_ok (freeBlock i addr)"
  by (simp add: addr_ok_def bm_ok_def bm_bit_freeBlock)

end
