(* ===== verification/CGNAT_Pool.thy ===== *)
theory CGNAT_Pool
  imports CGNAT_Config CGNAT_Bitmap Go_Text
begin

section \<open>Port blocks of a NAT pool\<close>

text \<open>
  \<^verbatim>\<open>internal/cgnat/pool.go\<close>: a pool is a list of outside addresses, each cut into port blocks, and a map from
  subscribers to the blocks they hold. The map of pools is a HOL map; the two maps that the source iterates over
  (\<^verbatim>\<open>GetAllMappings\<close>, \<^verbatim>\<open>FindPoolForIP\<close>) are visited in an order that is an argument, since Go leaves it open.
  The two copies of the allocation code, \<^verbatim>\<open>AllocateBlock\<close> and \<^verbatim>\<open>allocateLocked\<close>, differ in where the pool
  name comes from, which is the argument of \<open>allocateIn\<close>. A division by zero is the error \<open>DivideByZero\<close>.
\<close>

type_synonym subscriberKey = "u32 \<times> bytes"

record blockAllocation =
  OutsideIP :: bytes
  PortBlockStart :: u16
  PortBlockEnd :: u16

record subscriberAllocation =
  sPoolName :: string
  sPoolID :: u32
  sSwIfIndex :: u32
  Blocks :: "blockAllocation list"

record poolState =
  psName :: string
  psID :: u32
  psConfig :: cgPool
  psAddresses :: "outsideAddressState list"
  Subscribers :: "subscriberKey \<rightharpoonup> subscriberAllocation"

type_synonym PoolManager = "string \<rightharpoonup> poolState"

record CGNATMapping =
  mSessionID :: string
  mPoolName :: string
  mPoolID :: u32
  mInsideIP :: bytes
  mInsideVRFID :: u32
  mOutsideIP :: bytes
  mPortBlockStart :: u16
  mPortBlockEnd :: u16
  mSwIfIndex :: u32

datatype cg_error =
    PoolNotFound string
  | InvalidOutsideAddress string string
  | MaxBlocksReached
  | NoFreeBlocks string
  | BlockAllocationFailed string
  | DivideByZero

subsection \<open>Addresses\<close>

definition NewPoolManager :: PoolManager where
  "NewPoolManager = Map.empty"

definition makeSubscriberKey :: "u32 \<Rightarrow> bytes \<Rightarrow> subscriberKey" where
  "makeSubscriberKey vrf ip = (vrf, if To4 ip \<noteq> [] then To4 ip else [0, 0, 0, 0])"

definition ipToU32 :: "bytes \<Rightarrow> u32" where
  "ipToU32 ip = get32 (To4 ip)"

definition u32ToIP :: "u32 \<Rightarrow> bytes" where
  "u32ToIP v = v4InV6Prefix @ put32 v"

text \<open>
  The addresses of a configured outside address or prefix. The number of addresses is a shift of a 32-bit one, so
  a prefix of length zero has none.
\<close>

definition expandCIDR :: "string \<Rightarrow> bytes list option" where
  "expandCIDR cidr = (case ParseIP cidr of Some ip \<Rightarrow> Some [To4 ip]
     | None \<Rightarrow> (case ParseCIDR cidr of None \<Rightarrow> None
       | Some (_, ipNet) \<Rightarrow>
          (case Mask_Size (nMask ipNet) of (len, bits) \<Rightarrow>
           if bits \<noteq> 32 then None
           else (let count = push_bit (bits - len) (1 :: u32); base = ipToU32 (nIP ipNet) in
             Some (map (\<lambda>i. u32ToIP (base + of_nat i)) [0..<unat count])))))"

subsection \<open>Configuring a pool\<close>

fun expandAll :: "string \<Rightarrow> string list \<Rightarrow> cg_error + bytes list" where
  "expandAll name [] = Inr []"
| "expandAll name (a # as) = (case expandCIDR a of None \<Rightarrow> Inl (InvalidOutsideAddress name a)
     | Some ips \<Rightarrow> bindE (expandAll name as) (\<lambda>rest. Inr (ips @ rest)))"

definition blocksPerAddr :: "cgPool \<Rightarrow> u32" where
  "blocksPerAddr cfg =
     (ucast (GetPortRangeEnd cfg) - ucast (GetPortRangeStart cfg) + 1) div ucast (GetBlockSize cfg)"

definition ConfigurePool :: "string \<Rightarrow> u32 \<Rightarrow> cgPool \<Rightarrow> PoolManager \<Rightarrow> (cg_error + unit) \<times> PoolManager" where
  "ConfigurePool name pid cfg pm =
     (if GetBlockSize cfg = 0 then (Inl DivideByZero, pm)
      else (case expandAll name (OutsideAddresses cfg) of Inl e \<Rightarrow> (Inl e, pm)
        | Inr ips \<Rightarrow>
           (let n = blocksPerAddr cfg;
                addresses = map (\<lambda>ip. \<lparr>oIP = ip, TotalBlocks = n, AllocatedBits = replicate (unat ((n + 63) div 64)) 0,
                  Excluded = ip4String ip \<in> set (ExcludedAddresses cfg)\<rparr>) ips
            in (Inr (), pm(name \<mapsto> \<lparr>psName = name, psID = pid, psConfig = cfg, psAddresses = addresses,
                  Subscribers = Map.empty\<rparr>)))))"

definition RemovePool :: "string \<Rightarrow> PoolManager \<Rightarrow> PoolManager" where
  "RemovePool name pm = pm(name := None)"

subsection \<open>Allocating a block\<close>

fun firstIdx :: "('a \<Rightarrow> bool) \<Rightarrow> 'a list \<Rightarrow> nat option" where
  "firstIdx P [] = None"
| "firstIdx P (x # xs) = (if P x then Some 0 else map_option Suc (firstIdx P xs))"

text \<open>The address of the first block the subscriber holds, when the pool pairs addresses; else the first with room.\<close>

definition pairedAddr :: "poolState \<Rightarrow> subscriberAllocation option \<Rightarrow> nat option" where
  "pairedAddr ps sub = (case sub of None \<Rightarrow> None
     | Some sub \<Rightarrow> (case Blocks sub of [] \<Rightarrow> None
       | b # _ \<Rightarrow>
          if GetAddressPooling (psConfig ps) = ''paired''
          then firstIdx (\<lambda>addr. ip_Equal (oIP addr) (OutsideIP b) \<and> \<not> Excluded addr) (psAddresses ps)
          else None))"

definition targetAddr :: "poolState \<Rightarrow> subscriberAllocation option \<Rightarrow> nat option" where
  "targetAddr ps sub = (case pairedAddr ps sub of Some i \<Rightarrow> Some i
     | None \<Rightarrow> firstIdx (\<lambda>addr. \<not> Excluded addr \<and> hasFreeBlock addr) (psAddresses ps))"

text \<open>\<^verbatim>\<open>copy(dst, src)\<close> into a slice of four zero bytes.\<close>

definition copy4 :: "bytes \<Rightarrow> bytes" where
  "copy4 ip = take 4 (To4 ip @ [0, 0, 0, 0])"

definition mkBlock :: "cgPool \<Rightarrow> outsideAddressState \<Rightarrow> nat \<Rightarrow> blockAllocation" where
  "mkBlock cfg addr blockIdx =
     (let start = GetPortRangeStart cfg + of_nat blockIdx * GetBlockSize cfg in
      \<lparr>OutsideIP = copy4 (oIP addr), PortBlockStart = start, PortBlockEnd = start + GetBlockSize cfg - 1\<rparr>)"

definition mkMapping :: "string \<Rightarrow> u32 \<Rightarrow> bytes \<Rightarrow> u32 \<Rightarrow> blockAllocation \<Rightarrow> u32 \<Rightarrow> CGNATMapping" where
  "mkMapping name pid insideIP vrf b sw =
     \<lparr>mSessionID = '''', mPoolName = name, mPoolID = pid, mInsideIP = To4 insideIP, mInsideVRFID = vrf,
      mOutsideIP = OutsideIP b, mPortBlockStart = PortBlockStart b, mPortBlockEnd = PortBlockEnd b, mSwIfIndex = sw\<rparr>"

definition allocateIn ::
  "string \<Rightarrow> poolState \<Rightarrow> bytes \<Rightarrow> u32 \<Rightarrow> u32 \<Rightarrow> (cg_error + CGNATMapping) \<times> poolState" where
  "allocateIn poolName ps insideIP insideVRF swIfIndex =
     (let key = makeSubscriberKey insideVRF insideIP; sub = Subscribers ps key in
      if (case sub of None \<Rightarrow> False
          | Some s \<Rightarrow> unat (GetMaxBlocksPerSubscriber (psConfig ps)) \<le> length (Blocks s)) then (Inl MaxBlocksReached, ps)
      else (case targetAddr ps sub of None \<Rightarrow> (Inl (NoFreeBlocks poolName), ps)
        | Some i \<Rightarrow>
           (case allocateBlock (psAddresses ps ! i) of (blockIdx, addr) \<Rightarrow>
            if blockIdx < 0 then (Inl (BlockAllocationFailed poolName), ps)
            else (let block = mkBlock (psConfig ps) addr (nat blockIdx);
                      s = (case sub of Some s \<Rightarrow> s
                        | None \<Rightarrow> \<lparr>sPoolName = poolName, sPoolID = psID ps, sSwIfIndex = swIfIndex, Blocks = []\<rparr>);
                      s = s\<lparr>Blocks := Blocks s @ [block]\<rparr>
                  in (Inr (mkMapping poolName (psID ps) insideIP insideVRF block swIfIndex),
                      ps\<lparr>psAddresses := (psAddresses ps)[i := addr], Subscribers := (Subscribers ps)(key \<mapsto> s)\<rparr>)))))"

definition AllocateBlock ::
  "string \<Rightarrow> bytes \<Rightarrow> u32 \<Rightarrow> u32 \<Rightarrow> PoolManager \<Rightarrow> (cg_error + CGNATMapping) \<times> PoolManager" where
  "AllocateBlock poolName insideIP insideVRF swIfIndex pm =
     (case pm poolName of None \<Rightarrow> (Inl (PoolNotFound poolName), pm)
      | Some ps \<Rightarrow> (case allocateIn poolName ps insideIP insideVRF swIfIndex of (r, ps') \<Rightarrow> (r, pm(poolName \<mapsto> ps'))))"

definition allocateLocked ::
  "poolState \<Rightarrow> bytes \<Rightarrow> u32 \<Rightarrow> u32 \<Rightarrow> (cg_error + CGNATMapping) \<times> poolState" where
  "allocateLocked ps insideIP insideVRF swIfIndex = allocateIn (psName ps) ps insideIP insideVRF swIfIndex"

definition GetOrAllocate ::
  "string \<Rightarrow> bytes \<Rightarrow> u32 \<Rightarrow> u32 \<Rightarrow> PoolManager \<Rightarrow> (cg_error + CGNATMapping \<times> bool) \<times> PoolManager" where
  "GetOrAllocate poolName insideIP insideVRF swIfIndex pm =
     (case pm poolName of None \<Rightarrow> (Inl (PoolNotFound poolName), pm)
      | Some ps \<Rightarrow>
         (let key = makeSubscriberKey insideVRF insideIP;
              fresh = (case allocateLocked ps insideIP insideVRF swIfIndex of (r, ps') \<Rightarrow>
                (bindE r (\<lambda>m. Inr (m, True)), pm(poolName \<mapsto> ps')))
          in case Subscribers ps key of None \<Rightarrow> fresh
             | Some sub \<Rightarrow> (case Blocks sub of [] \<Rightarrow> fresh
               | b # _ \<Rightarrow> (Inr (mkMapping poolName (psID ps) insideIP insideVRF (b\<lparr>OutsideIP := copy4 (OutsideIP b)\<rparr>)
                   (sSwIfIndex sub), False), pm))))"

subsection \<open>Releasing and reading\<close>

fun releaseLoop ::
  "u16 \<Rightarrow> u16 \<Rightarrow> blockAllocation list \<Rightarrow> outsideAddressState list \<Rightarrow> outsideAddressState list option" where
  "releaseLoop blockSize portStart [] addrs = Some addrs"
| "releaseLoop blockSize portStart (b # bs) addrs =
     (case firstIdx (\<lambda>addr. ip_Equal (oIP addr) (OutsideIP b)) addrs of
        None \<Rightarrow> releaseLoop blockSize portStart bs addrs
      | Some i \<Rightarrow>
         if blockSize = 0 then None
         else releaseLoop blockSize portStart bs
           (addrs[i := freeBlock (unat (PortBlockStart b - portStart) div unat blockSize) (addrs ! i)]))"

definition ReleaseBlocks :: "string \<Rightarrow> bytes \<Rightarrow> u32 \<Rightarrow> PoolManager \<Rightarrow> (cg_error + unit) \<times> PoolManager" where
  "ReleaseBlocks poolName insideIP insideVRF pm =
     (case pm poolName of None \<Rightarrow> (Inl (PoolNotFound poolName), pm)
      | Some ps \<Rightarrow>
         (let key = makeSubscriberKey insideVRF insideIP in
          case Subscribers ps key of None \<Rightarrow> (Inr (), pm)
          | Some sub \<Rightarrow>
             (case releaseLoop (GetBlockSize (psConfig ps)) (GetPortRangeStart (psConfig ps)) (Blocks sub) (psAddresses ps) of
                None \<Rightarrow> (Inl DivideByZero, pm)
              | Some addrs \<Rightarrow>
                 (Inr (), pm(poolName \<mapsto> ps\<lparr>psAddresses := addrs, Subscribers := (Subscribers ps)(key := None)\<rparr>)))))"

definition GetMappings :: "string \<Rightarrow> bytes \<Rightarrow> u32 \<Rightarrow> PoolManager \<Rightarrow> CGNATMapping list" where
  "GetMappings poolName insideIP insideVRF pm =
     (case pm poolName of None \<Rightarrow> []
      | Some ps \<Rightarrow> (case Subscribers ps (makeSubscriberKey insideVRF insideIP) of None \<Rightarrow> []
        | Some sub \<Rightarrow> map (\<lambda>b. mkMapping poolName (psID ps) insideIP insideVRF b (sSwIfIndex sub)) (Blocks sub)))"

definition GetAllMappings :: "(string \<times> subscriberKey list) list \<Rightarrow> PoolManager \<Rightarrow> CGNATMapping list" where
  "GetAllMappings order pm = concat (map (\<lambda>(name, keys). case pm name of None \<Rightarrow> []
     | Some ps \<Rightarrow> concat (map (\<lambda>key. case Subscribers ps key of None \<Rightarrow> []
         | Some sub \<Rightarrow> map (\<lambda>b. \<lparr>mSessionID = '''', mPoolName = psName ps, mPoolID = psID ps, mInsideIP = snd key,
             mInsideVRFID = fst key, mOutsideIP = OutsideIP b, mPortBlockStart = PortBlockStart b,
             mPortBlockEnd = PortBlockEnd b, mSwIfIndex = sSwIfIndex sub\<rparr>) (Blocks sub)) keys)) order)"

record CGNATPoolStats =
  stName :: string
  stMode :: string
  TotalAddresses :: u32
  AllocatedAddresses :: u32
  FreeBlocks :: u32
  stTotalBlocks :: u32
  stExcludedAddresses :: u32
  SubscriberCount :: u32

text \<open>
  The utilisation, a floating-point quotient of the two counts, is not among the fields here.
\<close>

definition GetPoolStats :: "string \<Rightarrow> PoolManager \<Rightarrow> CGNATPoolStats option" where
  "GetPoolStats poolName pm = (case pm poolName of None \<Rightarrow> None
     | Some ps \<Rightarrow>
        (let (tot, allocated, excluded) = foldl (\<lambda>(tot, allocated, excluded) addr.
               if Excluded addr then (tot, allocated, excluded + 1)
               else (tot + TotalBlocks addr,
                 foldl (\<lambda>a word. a + of_nat (popcount word)) allocated (AllocatedBits addr), excluded))
               (0, 0, 0) (psAddresses ps)
         in Some \<lparr>stName = poolName, stMode = GetMode (psConfig ps), TotalAddresses = of_nat (length (psAddresses ps)),
              AllocatedAddresses = allocated, FreeBlocks = (if allocated < tot then tot - allocated else 0),
              stTotalBlocks = tot, stExcludedAddresses = excluded,
              SubscriberCount = of_nat (card (dom (Subscribers ps)))\<rparr>))"

text \<open>\<^verbatim>\<open>net.IPNet.Contains\<close>.\<close>

definition networkNumberAndMask :: "IPNet \<Rightarrow> bytes \<times> bytes" where
  "networkNumberAndMask n =
     (let ip = (if To4 (nIP n) \<noteq> [] then To4 (nIP n) else nIP n); m = nMask n in
      if length ip \<noteq> 4 \<and> length ip \<noteq> 16 then ([], [])
      else if length m = 4 then (if length ip \<noteq> 4 then ([], []) else (ip, m))
      else if length m = 16 then (if length ip = 4 then (ip, drop 12 m) else (ip, m))
      else ([], []))"

definition IPNet_Contains :: "IPNet \<Rightarrow> bytes \<Rightarrow> bool" where
  "IPNet_Contains n ip =
     (case networkNumberAndMask n of (nn, m) \<Rightarrow>
      let ip = (if To4 ip \<noteq> [] then To4 ip else ip) in
      length ip = length nn \<and> map2 (AND) nn m = map2 (AND) ip m)"

definition prefixCovers :: "bytes \<Rightarrow> string \<Rightarrow> InsidePrefix \<Rightarrow> bool" where
  "prefixCovers ip4 insideVRF pfx \<longleftrightarrow> \<not> (ipVRF pfx \<noteq> '''' \<and> ipVRF pfx \<noteq> insideVRF) \<and>
     (case ParseCIDR (ipPrefix pfx) of None \<Rightarrow> False | Some (_, n) \<Rightarrow> IPNet_Contains n ip4)"

definition FindPoolForIP :: "string list \<Rightarrow> bytes \<Rightarrow> string \<Rightarrow> PoolManager \<Rightarrow> string" where
  "FindPoolForIP order insideIP insideVRF pm =
     (let ip4 = To4 insideIP in
      if ip4 = [] then ''''
      else (case find (\<lambda>name. case pm name of None \<Rightarrow> False
                | Some ps \<Rightarrow> list_ex (prefixCovers ip4 insideVRF) (InsidePrefixes (psConfig ps))) order of
              None \<Rightarrow> '''' | Some name \<Rightarrow> name))"

subsection \<open>Restoring a mapping\<close>

definition restoreBlock :: "CGNATMapping \<Rightarrow> blockAllocation" where
  "restoreBlock m = \<lparr>OutsideIP = mOutsideIP m, PortBlockStart = mPortBlockStart m, PortBlockEnd = mPortBlockEnd m\<rparr>"

definition restoreBit :: "nat \<Rightarrow> outsideAddressState \<Rightarrow> outsideAddressState" where
  "restoreBit blockIdx addr =
     (if blockIdx div 64 < length (AllocatedBits addr) then addr\<lparr>AllocatedBits := setBit (AllocatedBits addr) blockIdx\<rparr>
      else addr)"

definition restoreLocked :: "CGNATMapping \<Rightarrow> bool \<Rightarrow> PoolManager \<Rightarrow> (cg_error + unit) \<times> PoolManager" where
  "restoreLocked mapping ifAbsent pm =
     (case pm (mPoolName mapping) of None \<Rightarrow> (Inl (PoolNotFound (mPoolName mapping)), pm)
      | Some ps \<Rightarrow>
         (let blockSize = GetBlockSize (psConfig ps); portStart = GetPortRangeStart (psConfig ps);
              key = makeSubscriberKey (mInsideVRFID mapping) (mInsideIP mapping)
          in if ifAbsent \<and> (case Subscribers ps key of None \<Rightarrow> False
                 | Some sub \<Rightarrow> list_ex (\<lambda>b. PortBlockStart b = mPortBlockStart mapping \<and>
                     ip_Equal (OutsideIP b) (mOutsideIP mapping)) (Blocks sub))
             then (Inr (), pm)
             else (let i = firstIdx (\<lambda>addr. ip_Equal (oIP addr) (mOutsideIP mapping)) (psAddresses ps) in
               if i \<noteq> None \<and> blockSize = 0 then (Inl DivideByZero, pm)
               else (let addrs = (case i of None \<Rightarrow> psAddresses ps
                           | Some i \<Rightarrow> (psAddresses ps)[i := restoreBit
                               (unat (mPortBlockStart mapping - portStart) div unat blockSize) (psAddresses ps ! i)]);
                         sub = (case Subscribers ps key of Some s \<Rightarrow> s
                           | None \<Rightarrow> \<lparr>sPoolName = mPoolName mapping, sPoolID = psID ps, sSwIfIndex = mSwIfIndex mapping,
                               Blocks = []\<rparr>);
                         sub = sub\<lparr>Blocks := Blocks sub @ [restoreBlock mapping]\<rparr>
                     in (Inr (), pm(mPoolName mapping \<mapsto> ps\<lparr>psAddresses := addrs,
                           Subscribers := (Subscribers ps)(key \<mapsto> sub)\<rparr>))))))"

definition RestoreMapping :: "CGNATMapping \<Rightarrow> PoolManager \<Rightarrow> (cg_error + unit) \<times> PoolManager" where
  "RestoreMapping mapping pm = restoreLocked mapping False pm"

definition RestoreMappingIfAbsent :: "CGNATMapping \<Rightarrow> PoolManager \<Rightarrow> (cg_error + unit) \<times> PoolManager" where
  "RestoreMappingIfAbsent mapping pm = restoreLocked mapping True pm"
end
