(* ===== verification/CGNAT_Alloc.thy ===== *)
theory CGNAT_Alloc
  imports CGNAT_Pool
begin

section \<open>Every port block has one owner\<close>

text \<open>
  The invariant of a configured pool: the bit of a block is set exactly when a subscriber holds the block, no block
  is held twice, and every held block is one of the pool's. \<open>pool_static\<close> is what \<^verbatim>\<open>ConfigurePool\<close> sets up for a
  sensible configuration and no operation changes; \<open>cg_inv\<close> adds what allocation and release keep.
\<close>

declare split_paired_All [simp del] split_paired_Ex [simp del]

subsection \<open>The blocks of a configuration\<close>

definition cfg_ok :: "cgPool \<Rightarrow> bool" where
  "cfg_ok cfg \<longleftrightarrow> GetBlockSize cfg \<noteq> 0 \<and> GetPortRangeStart cfg \<le> GetPortRangeEnd cfg"

abbreviation nblocks :: "cgPool \<Rightarrow> nat" where
  "nblocks cfg \<equiv> unat (blocksPerAddr cfg)"

abbreviation bsize :: "cgPool \<Rightarrow> nat" where
  "bsize cfg \<equiv> unat (GetBlockSize cfg)"

abbreviation pstart :: "cgPool \<Rightarrow> nat" where
  "pstart cfg \<equiv> unat (GetPortRangeStart cfg)"

abbreviation pend :: "cgPool \<Rightarrow> nat" where
  "pend cfg \<equiv> unat (GetPortRangeEnd cfg)"

lemma bsize_pos: "cfg_ok cfg \<Longrightarrow> 0 < bsize cfg"
  by (simp add: cfg_ok_def unat_eq_0 neq0_conv [symmetric] del: neq0_conv)

lemma nblocks_eq: "cfg_ok cfg \<Longrightarrow> nblocks cfg = (pend cfg - pstart cfg + 1) div bsize cfg"
  using GetPortRangeSize_unat [of cfg]
  by (simp add: blocksPerAddr_def cfg_ok_def GetPortRangeSize_def unat_div unat_ucast_u32)

lemma nblocks_room:
  assumes "cfg_ok cfg"
  shows "pstart cfg + nblocks cfg * bsize cfg \<le> pend cfg + 1" "pend cfg < 65536" "nblocks cfg \<le> 65536"
proof -
  have le: "pstart cfg \<le> pend cfg" using assms by (simp add: cfg_ok_def word_le_nat_alt)
  have "nblocks cfg * bsize cfg \<le> pend cfg - pstart cfg + 1" unfolding nblocks_eq [OF assms] by (rule div_times_less_eq_dividend)
  with le show "pstart cfg + nblocks cfg * bsize cfg \<le> pend cfg + 1" by linarith
  show "pend cfg < 65536" by (rule unat_u16_less)
  have "nblocks cfg \<le> pend cfg - pstart cfg + 1" unfolding nblocks_eq [OF assms] by (rule div_le_dividend)
  with unat_u16_less [of "GetPortRangeEnd cfg"] show "nblocks cfg \<le> 65536" by linarith
qed

text \<open>The ports of block \<open>k\<close> of an address, without wrap-around.\<close>

lemma mkBlock_ports:
  assumes "cfg_ok cfg" "k < nblocks cfg"
  shows "unat (PortBlockStart (mkBlock cfg addr k)) = pstart cfg + k * bsize cfg"
    "unat (PortBlockEnd (mkBlock cfg addr k)) = pstart cfg + k * bsize cfg + bsize cfg - 1"
    "pstart cfg + k * bsize cfg + bsize cfg \<le> pend cfg + 1"
    "OutsideIP (mkBlock cfg addr k) = copy4 (oIP addr)"
proof -
  note room = nblocks_room [OF assms(1)] and pos = bsize_pos [OF assms(1)]
  have "Suc k * bsize cfg \<le> nblocks cfg * bsize cfg" using assms(2) by (intro mult_right_mono) simp_all
  then show le: "pstart cfg + k * bsize cfg + bsize cfg \<le> pend cfg + 1" using room(1) by simp
  let ?s = "GetPortRangeStart cfg + of_nat k * GetBlockSize cfg"
  have k: "k < 65536" using assms(2) room(3) by linarith
  have "k * bsize cfg < 65536" using le room(2) pos by linarith
  then have "unat (of_nat k * GetBlockSize cfg) = k * bsize cfg" using k by (simp add: unat_word_ariths unat_of_nat)
  then show s: "unat (PortBlockStart (mkBlock cfg addr k)) = pstart cfg + k * bsize cfg"
    using le room(2) pos by (simp add: mkBlock_def Let_def unat_word_ariths)
  have "unat (?s + (GetBlockSize cfg - 1)) = pstart cfg + k * bsize cfg + (bsize cfg - 1)"
  proof -
    have "unat (GetBlockSize cfg - 1) = bsize cfg - 1"
      using assms(1) by (simp add: cfg_ok_def unat_minus_one)
    then show ?thesis using s le room(2) pos by (simp add: mkBlock_def Let_def unat_word_ariths)
  qed
  then show "unat (PortBlockEnd (mkBlock cfg addr k)) = pstart cfg + k * bsize cfg + bsize cfg - 1"
    using pos by (simp add: mkBlock_def Let_def add_diff_eq)
  show "OutsideIP (mkBlock cfg addr k) = copy4 (oIP addr)" by (simp add: mkBlock_def Let_def)
qed

lemma mkBlock_index:
  assumes "cfg_ok cfg" "k < nblocks cfg"
  shows "unat (PortBlockStart (mkBlock cfg addr k) - GetPortRangeStart cfg) div unat (GetBlockSize cfg) = k"
proof -
  have "GetPortRangeStart cfg \<le> PortBlockStart (mkBlock cfg addr k)"
    using mkBlock_ports(1) [OF assms] by (simp add: word_le_nat_alt)
  then have "unat (PortBlockStart (mkBlock cfg addr k) - GetPortRangeStart cfg) = k * bsize cfg"
    using mkBlock_ports(1) [OF assms] by (simp add: unat_sub word_le_nat_alt)
  then show ?thesis using bsize_pos [OF assms(1)] by simp
qed

lemma mkBlock_inj:
  assumes "cfg_ok cfg" "k < nblocks cfg" "k' < nblocks cfg" "mkBlock cfg a k = mkBlock cfg a' k'"
  shows "copy4 (oIP a) = copy4 (oIP a') \<and> k = k'"
  using mkBlock_index [OF assms(1,2), of a] mkBlock_index [OF assms(1,3), of a'] mkBlock_ports(4) [OF assms(1,2), of a]
    mkBlock_ports(4) [OF assms(1,3), of a'] assms(4) by simp

text \<open>Two blocks with a port in common on one address are the same block.\<close>

lemma mkBlock_overlap:
  assumes "cfg_ok cfg" "k < nblocks cfg" "k' < nblocks cfg"
    and "PortBlockStart (mkBlock cfg a k) \<le> p" "p \<le> PortBlockEnd (mkBlock cfg a k)"
    and "PortBlockStart (mkBlock cfg a' k') \<le> p" "p \<le> PortBlockEnd (mkBlock cfg a' k')"
  shows "k = k'"
proof -
  have pos: "0 < bsize cfg" by (rule bsize_pos [OF assms(1)])
  have div: "(unat p - pstart cfg) div bsize cfg = j"
    if "j < nblocks cfg" "PortBlockStart (mkBlock cfg c j) \<le> p" "p \<le> PortBlockEnd (mkBlock cfg c j)" for j c
  proof -
    have "pstart cfg + j * bsize cfg \<le> unat p" "unat p \<le> pstart cfg + j * bsize cfg + bsize cfg - 1"
      using that mkBlock_ports [OF assms(1) that(1)] by (simp_all add: word_le_nat_alt)
    then have "j * bsize cfg \<le> unat p - pstart cfg" "unat p - pstart cfg < Suc j * bsize cfg" using pos by simp_all
    then show ?thesis by (simp add: div_nat_eqI mult.commute)
  qed
  from div [OF assms(2,4,5)] div [OF assms(3,6,7)] show ?thesis by simp
qed

subsection \<open>Addresses of the pool\<close>

lemma copy4_To4: "To4 ip \<noteq> [] \<Longrightarrow> copy4 ip = To4 ip"
  using length_To4 [of ip] by (auto simp: copy4_def)

lemma length_copy4 [simp]: "length (copy4 ip) = 4"
  using length_To4 [of ip] by (auto simp: copy4_def)

lemma copy4_nonempty [simp]: "copy4 ip \<noteq> []"
  by (metis length_copy4 list.size(3) zero_neq_numeral)

lemma ip_Equal_To4: "To4 a \<noteq> [] \<Longrightarrow> To4 b \<noteq> [] \<Longrightarrow> ip_Equal a b \<longleftrightarrow> To4 a = To4 b"
  by (auto simp: To4_def ip_Equal_def split: if_splits) (metis append_take_drop_id)

lemma To4_copy4 [simp]: "To4 (copy4 ip) = copy4 ip"
  by (simp add: To4_def)

lemma copy4_copy4 [simp]: "copy4 (copy4 ip) = copy4 ip"
  by (simp add: copy4_def [of "copy4 ip"])

lemma firstIdx_Some: "firstIdx P xs = Some i \<Longrightarrow> i < length xs \<and> P (xs ! i) \<and> (\<forall>j<i. \<not> P (xs ! j))"
proof (induction xs arbitrary: i)
  case (Cons x xs)
  then show ?case by (cases i) (auto simp: nth_Cons' split: if_splits)
qed simp

lemma firstIdx_None: "firstIdx P xs = None \<longleftrightarrow> (\<forall>x\<in>set xs. \<not> P x)"
  by (induction xs) auto

lemma firstIdx_unique:
  assumes "i < length xs" "P (xs ! i)" "\<And>j. j < length xs \<Longrightarrow> P (xs ! j) \<Longrightarrow> j = i"
  shows "firstIdx P xs = Some i"
proof (cases "firstIdx P xs")
  case None
  then show ?thesis using assms(1,2) nth_mem [OF assms(1)] unfolding firstIdx_None by blast
next
  case (Some j)
  then show ?thesis using firstIdx_Some [OF Some] assms(3) [of j] by simp
qed

subsection \<open>The invariant\<close>

definition static_ok :: "cgPool \<Rightarrow> outsideAddressState list \<Rightarrow> bool" where
  "static_ok cfg addrs \<longleftrightarrow> cfg_ok cfg \<and> distinct (map (\<lambda>a. To4 (oIP a)) addrs) \<and>
     (\<forall>a\<in>set addrs. addr_ok a \<and> To4 (oIP a) \<noteq> [] \<and> TotalBlocks a = blocksPerAddr cfg)"

lemma static_v4: "static_ok cfg addrs \<Longrightarrow> j < length addrs \<Longrightarrow> To4 (oIP (addrs ! j)) \<noteq> []"
  using nth_mem [of j addrs] by (simp add: static_ok_def)

lemma static_inj:
  "static_ok cfg addrs \<Longrightarrow> i < length addrs \<Longrightarrow> j < length addrs \<Longrightarrow> To4 (oIP (addrs ! i)) = To4 (oIP (addrs ! j)) \<Longrightarrow> i = j"
  by (auto simp: static_ok_def distinct_conv_nth)

text \<open>The search of an address by the IP of one of its blocks finds it.\<close>

lemma static_lookup:
  assumes "static_ok cfg addrs" "i < length addrs" "To4 ip = To4 (oIP (addrs ! i))"
  shows "firstIdx (\<lambda>addr. ip_Equal (oIP addr) ip) addrs = Some i"
proof (rule firstIdx_unique [OF assms(2)])
  note v4 = static_v4 [OF assms(1)]
  have l: "To4 ip \<noteq> []" using assms(3) v4 [OF assms(2)] by simp
  show "ip_Equal (oIP (addrs ! i)) ip" using ip_Equal_To4 [OF v4 [OF assms(2)] l] assms(3) by simp
  show "j = i" if "j < length addrs" "ip_Equal (oIP (addrs ! j)) ip" for j
    using ip_Equal_To4 [OF v4 [OF that(1)] l] static_inj [OF assms(1) that(1) assms(2)] that(2) assms(3) by simp
qed

lemma mkBlock_eqI:
  assumes "cfg_ok cfg" "k < nblocks cfg" "l < nblocks cfg" "PortBlockStart (mkBlock cfg a k) = PortBlockStart (mkBlock cfg c l)"
    and "copy4 (oIP a) = copy4 (oIP c)"
  shows "mkBlock cfg a k = mkBlock cfg c l"
proof -
  have "k = l" using mkBlock_index [OF assms(1,2), of a] mkBlock_index [OF assms(1,3), of c] unfolding assms(4) by metis
  then show ?thesis using assms(5) by (simp add: mkBlock_def)
qed

text \<open>
  The blocks a subscriber holds. A block that was read back from the database has its address in the 16-byte form
  that \<^verbatim>\<open>net.ParseIP\<close> returns, so blocks are compared with their addresses in four bytes.
\<close>

definition norm :: "blockAllocation \<Rightarrow> blockAllocation" where
  "norm b = b\<lparr>OutsideIP := copy4 (OutsideIP b)\<rparr>"

definition blocksOf :: "poolState \<Rightarrow> subscriberKey \<Rightarrow> blockAllocation list" where
  "blocksOf ps key = (case Subscribers ps key of None \<Rightarrow> [] | Some s \<Rightarrow> Blocks s)"

definition held :: "poolState \<Rightarrow> subscriberKey \<Rightarrow> blockAllocation list" where
  "held ps key = map norm (blocksOf ps key)"

lemma norm_fields [simp]:
  "PortBlockStart (norm b) = PortBlockStart b" "PortBlockEnd (norm b) = PortBlockEnd b"
  "OutsideIP (norm b) = copy4 (OutsideIP b)"
  by (simp_all add: norm_def)

lemma norm_mkBlock [simp]: "norm (mkBlock cfg a k) = mkBlock cfg a k"
  by (simp add: norm_def mkBlock_def Let_def)

abbreviation slot :: "poolState \<Rightarrow> nat \<Rightarrow> nat \<Rightarrow> blockAllocation" where
  "slot ps i k \<equiv> mkBlock (psConfig ps) (psAddresses ps ! i) k"

definition cg_inv :: "poolState \<Rightarrow> bool" where
  "cg_inv ps \<longleftrightarrow> static_ok (psConfig ps) (psAddresses ps) \<and>
     (\<forall>key. \<forall>b\<in>set (blocksOf ps key). To4 (OutsideIP b) \<noteq> []) \<and>
     (\<forall>key. distinct (held ps key)) \<and>
     (\<forall>key. \<forall>b\<in>set (held ps key). \<exists>i<length (psAddresses ps). \<exists>k<nblocks (psConfig ps). b = slot ps i k) \<and>
     (\<forall>key key'. \<forall>b. b \<in> set (held ps key) \<longrightarrow> b \<in> set (held ps key') \<longrightarrow> key = key') \<and>
     (\<forall>i<length (psAddresses ps). \<forall>k<nblocks (psConfig ps).
        taken (psAddresses ps ! i) k \<longleftrightarrow> (\<exists>key. slot ps i k \<in> set (held ps key)))"

lemma cg_invD:
  assumes "cg_inv ps"
  shows "static_ok (psConfig ps) (psAddresses ps)" "distinct (held ps key)"
    "b \<in> set (held ps key) \<Longrightarrow> \<exists>i<length (psAddresses ps). \<exists>k<nblocks (psConfig ps). b = slot ps i k"
    "b \<in> set (held ps key) \<Longrightarrow> b \<in> set (held ps key') \<Longrightarrow> key = key'"
    "i < length (psAddresses ps) \<Longrightarrow> k < nblocks (psConfig ps) \<Longrightarrow>
       taken (psAddresses ps ! i) k \<longleftrightarrow> (\<exists>key. slot ps i k \<in> set (held ps key))"
    "c \<in> set (blocksOf ps key) \<Longrightarrow> To4 (OutsideIP c) \<noteq> []"
  using assms unfolding cg_inv_def by blast+

lemma slot_inj:
  assumes "static_ok (psConfig ps) (psAddresses ps)" "i < length (psAddresses ps)" "j < length (psAddresses ps)"
    and "k < nblocks (psConfig ps)" "l < nblocks (psConfig ps)" "slot ps i k = slot ps j l"
  shows "i = j \<and> k = l"
proof -
  have cfg: "cfg_ok (psConfig ps)" using assms(1) by (simp add: static_ok_def)
  note static_v4 [OF assms(1)]
  with mkBlock_inj [OF cfg assms(4-6)] have "To4 (oIP (psAddresses ps ! i)) = To4 (oIP (psAddresses ps ! j))" "k = l"
    using assms(2,3) by (simp_all add: copy4_To4)
  with static_inj [OF assms(1-3)] show ?thesis by simp
qed

text \<open>What a pool looks like after block \<open>k\<close> of address \<open>i\<close> goes to a subscriber.\<close>

lemma alloc_keeps_inv:
  assumes inv: "cg_inv ps" and i: "i < length (psAddresses ps)" and k: "k < nblocks (psConfig ps)"
    and free: "\<not> taken (psAddresses ps ! i) k"
    and ps': "psConfig ps' = psConfig ps" "psAddresses ps' = (psAddresses ps)[i := (psAddresses ps ! i)
        \<lparr>AllocatedBits := setBit (AllocatedBits (psAddresses ps ! i)) k\<rparr>]"
    and held': "held ps' key = held ps key @ [slot ps i k]" "\<And>key'. key' \<noteq> key \<Longrightarrow> held ps' key' = held ps key'"
    and v4: "\<And>key' b. b \<in> set (blocksOf ps' key') \<Longrightarrow> To4 (OutsideIP b) \<noteq> []"
  shows "cg_inv ps'"
proof -
  let ?a = "psAddresses ps ! i" and ?a' = "(psAddresses ps ! i)\<lparr>AllocatedBits := setBit (AllocatedBits (psAddresses ps ! i)) k\<rparr>"
  have st: "static_ok (psConfig ps) (psAddresses ps)" using inv by (simp add: cg_inv_def)
  have ok: "addr_ok ?a" "TotalBlocks ?a = blocksPerAddr (psConfig ps)"
    using st nth_mem [OF i] by (simp_all add: static_ok_def)
  have al: "addr_ok ?a'" "\<And>j. taken ?a' j \<longleftrightarrow> taken ?a j \<or> j = k"
    using addr_ok_allocate [of ?a k] ok k by simp_all
  have ip: "map (\<lambda>a. To4 (oIP a)) (psAddresses ps') = map (\<lambda>a. To4 (oIP a)) (psAddresses ps)"
    by (simp add: ps'(2) map_update list_update_same_conv i)
  have slot: "mkBlock (psConfig ps) (psAddresses ps' ! j) l = slot ps j l" for j l
    using i by (cases "j = i") (simp_all add: ps' mkBlock_def Let_def)
  have len: "length (psAddresses ps') = length (psAddresses ps)" by (simp add: ps'(2))
  have st': "static_ok (psConfig ps') (psAddresses ps')"
    using st al(1) ok(2) nth_mem [OF i] unfolding static_ok_def ip ps'(1)
    by (auto simp: ps'(2) dest!: set_update_subset_insert [THEN subsetD])
  have new: "slot ps i k \<notin> set (held ps key')" for key'
    using inv i k free unfolding cg_inv_def by blast
  have mem: "b \<in> set (held ps' key') \<longleftrightarrow> b \<in> set (held ps key') \<or> (key' = key \<and> b = slot ps i k)" for b key'
    using held' by (cases "key' = key") auto
  have "distinct (held ps' key')" for key'
    using cg_invD(2) [OF inv] new held' by (cases "key' = key") simp_all
  moreover have "\<exists>j<length (psAddresses ps'). \<exists>l<nblocks (psConfig ps'). b = slot ps' j l" if "b \<in> set (held ps' key')" for b key'
    using that cg_invD(3) [OF inv, of b key'] i k unfolding mem slot len ps'(1) by blast
  moreover have "key1 = key2" if "b \<in> set (held ps' key1)" "b \<in> set (held ps' key2)" for b key1 key2
    using that cg_invD(4) [OF inv, of b key1 key2] new unfolding mem by blast
  moreover have "taken (psAddresses ps' ! j) l \<longleftrightarrow> (\<exists>key'. slot ps' j l \<in> set (held ps' key'))"
    if "j < length (psAddresses ps')" "l < nblocks (psConfig ps')" for j l
  proof -
    have "taken (psAddresses ps' ! j) l \<longleftrightarrow> taken (psAddresses ps ! j) l \<or> (j = i \<and> l = k)"
      using i al(2) by (cases "j = i") (simp_all add: ps'(2))
    moreover have "slot ps j l = slot ps i k \<longleftrightarrow> j = i \<and> l = k"
      using slot_inj [OF st _ i _ k, of j l] that len ps'(1) by auto
    ultimately show ?thesis using cg_invD(5) [OF inv, of j l] that unfolding mem slot len ps'(1) by blast
  qed
  ultimately show ?thesis using st' v4 unfolding cg_inv_def by blast
qed

subsection \<open>Allocation\<close>

text \<open>
  The outcomes of the allocation code: the subscriber is at its maximum; no address has room; the paired address is
  full; or the lowest free block of the chosen address goes to the subscriber.
\<close>

definition cg_full :: "poolState \<Rightarrow> bool" where
  "cg_full ps \<longleftrightarrow> (\<forall>a\<in>set (psAddresses ps). Excluded a \<or> (\<forall>k<nblocks (psConfig ps). taken a k))"

abbreviation cg_key :: "u32 \<Rightarrow> bytes \<Rightarrow> subscriberKey" where
  "cg_key \<equiv> makeSubscriberKey"

definition at_max :: "poolState \<Rightarrow> subscriberKey \<Rightarrow> bool" where
  "at_max ps key \<longleftrightarrow> Subscribers ps key \<noteq> None \<and> unat (GetMaxBlocksPerSubscriber (psConfig ps)) \<le> length (held ps key)"

definition given :: "poolState \<Rightarrow> nat \<Rightarrow> nat \<Rightarrow> subscriberKey \<Rightarrow> poolState \<Rightarrow> bool" where
  "given ps i k key ps' \<longleftrightarrow> i < length (psAddresses ps) \<and> k < nblocks (psConfig ps) \<and> \<not> Excluded (psAddresses ps ! i) \<and>
     \<not> taken (psAddresses ps ! i) k \<and> (\<forall>j<k. taken (psAddresses ps ! i) j) \<and>
     psName ps' = psName ps \<and> psID ps' = psID ps \<and> psConfig ps' = psConfig ps \<and>
     psAddresses ps' = (psAddresses ps)[i := (psAddresses ps ! i)
        \<lparr>AllocatedBits := setBit (AllocatedBits (psAddresses ps ! i)) k\<rparr>] \<and>
     blocksOf ps' key = blocksOf ps key @ [slot ps i k] \<and> (\<forall>key'. key' \<noteq> key \<longrightarrow> blocksOf ps' key' = blocksOf ps key')"

lemma given_held:
  assumes "given ps i k key ps'"
  shows "held ps' key = held ps key @ [slot ps i k]" "key' \<noteq> key \<Longrightarrow> held ps' key' = held ps key'"
  using assms unfolding given_def held_def by simp_all

lemma targetAddr_Some:
  assumes "targetAddr ps sub = Some i"
  shows "i < length (psAddresses ps)" "\<not> Excluded (psAddresses ps ! i)"
    "pairedAddr ps sub = Some i \<or> hasFreeBlock (psAddresses ps ! i)"
proof -
  consider "pairedAddr ps sub = Some i"
    | "firstIdx (\<lambda>addr. \<not> Excluded addr \<and> hasFreeBlock addr) (psAddresses ps) = Some i"
    using assms by (auto simp: targetAddr_def split: option.splits)
  then have "i < length (psAddresses ps) \<and> \<not> Excluded (psAddresses ps ! i) \<and>
    (pairedAddr ps sub = Some i \<or> hasFreeBlock (psAddresses ps ! i))"
  proof cases
    case 1
    then show ?thesis by (auto simp: pairedAddr_def dest: firstIdx_Some split: option.splits list.splits if_splits)
  next
    case 2
    then show ?thesis using firstIdx_Some [OF 2] by simp
  qed
  then show "i < length (psAddresses ps)" "\<not> Excluded (psAddresses ps ! i)"
    "pairedAddr ps sub = Some i \<or> hasFreeBlock (psAddresses ps ! i)" by simp_all
qed

lemma targetAddr_None:
  assumes "cg_inv ps" "targetAddr ps sub = None"
  shows "cg_full ps"
proof -
  have n: "\<forall>a\<in>set (psAddresses ps). Excluded a \<or> \<not> hasFreeBlock a"
    using assms(2) by (auto simp: targetAddr_def firstIdx_None split: option.splits)
  have "\<forall>k<nblocks (psConfig ps). taken a k" if "a \<in> set (psAddresses ps)" "\<not> Excluded a" for a
  proof -
    have "addr_ok a" "TotalBlocks a = blocksPerAddr (psConfig ps)"
      using assms(1) that(1) by (simp_all add: cg_inv_def static_ok_def)
    with n that hasFreeBlock_iff [of a] show ?thesis by (auto simp: addr_ok_def)
  qed
  then show ?thesis by (auto simp: cg_full_def)
qed

theorem allocateIn_cases:
  assumes inv: "cg_inv ps" and al: "allocateIn name ps ip vrf sw = (r, ps')"
  shows "(r = Inl MaxBlocksReached \<and> ps' = ps \<and> at_max ps (cg_key vrf ip)) \<or>
    (r = Inl (NoFreeBlocks name) \<and> ps' = ps \<and> \<not> at_max ps (cg_key vrf ip) \<and> cg_full ps) \<or>
    (r = Inl (BlockAllocationFailed name) \<and> ps' = ps \<and> \<not> at_max ps (cg_key vrf ip) \<and>
       (\<exists>i<length (psAddresses ps). pairedAddr ps (Subscribers ps (cg_key vrf ip)) = Some i \<and>
          (\<forall>k<nblocks (psConfig ps). taken (psAddresses ps ! i) k))) \<or>
    (\<exists>i k. r = Inr (mkMapping name (psID ps) ip vrf (slot ps i k) sw) \<and> \<not> at_max ps (cg_key vrf ip) \<and>
       given ps i k (cg_key vrf ip) ps')"
proof -
  let ?key = "cg_key vrf ip" and ?sub = "Subscribers ps (cg_key vrf ip)"
  have m: "(case ?sub of None \<Rightarrow> False | Some s \<Rightarrow> unat (GetMaxBlocksPerSubscriber (psConfig ps)) \<le> length (Blocks s)) \<longleftrightarrow>
      at_max ps ?key" by (simp add: at_max_def held_def blocksOf_def split: option.splits)
  show ?thesis
  proof (cases "at_max ps ?key")
    case True
    then show ?thesis using al by (simp add: allocateIn_def Let_def m)
  next
    case nmax: False
    show ?thesis
    proof (cases "targetAddr ps ?sub")
      case None
      then show ?thesis using al nmax targetAddr_None [OF inv None] by (simp add: allocateIn_def Let_def m)
    next
      case (Some i)
      let ?a = "psAddresses ps ! i"
      note t = targetAddr_Some [OF Some]
      have ok: "addr_ok ?a" "TotalBlocks ?a = blocksPerAddr (psConfig ps)"
        using inv nth_mem [OF t(1)] by (simp_all add: cg_inv_def static_ok_def)
      consider "\<not> hasFreeBlock ?a" "allocateBlock ?a = (- 1, ?a)"
        | k where "k < nblocks (psConfig ps)" "\<not> taken ?a k" "\<forall>j<k. taken ?a j"
            "allocateBlock ?a = (int k, ?a\<lparr>AllocatedBits := setBit (AllocatedBits ?a) k\<rparr>)"
        using allocateBlock_cases [OF ok(1)] ok(2) by auto
      then show ?thesis
      proof cases
        case 1
        then have "\<forall>k<nblocks (psConfig ps). taken ?a k"
          using hasFreeBlock_iff [of ?a] ok by (simp add: addr_ok_def)
        with 1 al nmax Some t show ?thesis by (simp add: allocateIn_def Let_def m)
      next
        case (2 k)
        have b: "mkBlock (psConfig ps) (?a\<lparr>AllocatedBits := setBit (AllocatedBits ?a) k\<rparr>) k = slot ps i k"
          by (simp add: mkBlock_def Let_def)
        have "r = Inr (mkMapping name (psID ps) ip vrf (slot ps i k) sw) \<and> given ps i k ?key ps'"
          using 2 al nmax Some t by (auto simp: allocateIn_def Let_def m b given_def blocksOf_def split: option.splits)
        with nmax show ?thesis by blast
      qed
    qed
  qed
qed

lemma given_inv:
  assumes "cg_inv ps" "given ps i k key ps'"
  shows "cg_inv ps'"
proof (rule alloc_keeps_inv [OF assms(1), of i k ps' key])
  note g = assms(2) [unfolded given_def]
  show "To4 (OutsideIP b) \<noteq> []" if "b \<in> set (blocksOf ps' key')" for key' b
  proof -
    have "cfg_ok (psConfig ps)" using cg_invD(1) [OF assms(1)] by (simp add: static_ok_def)
    then have "To4 (OutsideIP (slot ps i k)) \<noteq> []"
      using g mkBlock_ports(4) [of "psConfig ps" k "psAddresses ps ! i"] length_copy4 [of "oIP (psAddresses ps ! i)"] by auto
    then show ?thesis using that g cg_invD(6) [OF assms(1), of b key'] by (cases "key' = key") auto
  qed
qed (use assms(2) given_held [OF assms(2)] in \<open>simp_all add: given_def\<close>)

lemma allocateIn_inv: "cg_inv ps \<Longrightarrow> allocateIn name ps ip vrf sw = (r, ps') \<Longrightarrow> cg_inv ps'"
  using allocateIn_cases [of ps name ip vrf sw r ps'] given_inv by blast

subsection \<open>Release\<close>

lemma releaseLoop_spec:
  assumes "static_ok cfg addrs" "\<forall>b\<in>set bs. To4 (OutsideIP b) \<noteq> []"
    and "\<forall>b\<in>set bs. \<exists>i<length addrs. \<exists>k<nblocks cfg. norm b = mkBlock cfg (addrs ! i) k"
  shows "\<exists>addrs'. releaseLoop (GetBlockSize cfg) (GetPortRangeStart cfg) bs addrs = Some addrs' \<and> static_ok cfg addrs' \<and>
    length addrs' = length addrs \<and>
    (\<forall>i<length addrs. oIP (addrs' ! i) = oIP (addrs ! i) \<and> Excluded (addrs' ! i) = Excluded (addrs ! i) \<and>
      (\<forall>k<nblocks cfg. taken (addrs' ! i) k \<longleftrightarrow> taken (addrs ! i) k \<and> mkBlock cfg (addrs ! i) k \<notin> norm ` set bs))"
  using assms
proof (induction bs arbitrary: addrs)
  case (Cons b bs)
  obtain i k where i: "i < length addrs" and k: "k < nblocks cfg" and b: "norm b = mkBlock cfg (addrs ! i) k"
    using Cons.prems(3) by auto
  have cfg: "cfg_ok cfg" using Cons.prems(1) by (simp add: static_ok_def)
  have "copy4 (OutsideIP b) = copy4 (oIP (addrs ! i))"
    using arg_cong [OF b, of OutsideIP] mkBlock_ports(4) [OF cfg k, of "addrs ! i"] by simp
  then have "To4 (OutsideIP b) = To4 (oIP (addrs ! i))"
    using Cons.prems(2) static_v4 [OF Cons.prems(1) i] by (simp add: copy4_To4)
  then have f: "firstIdx (\<lambda>addr. ip_Equal (oIP addr) (OutsideIP b)) addrs = Some i"
    by (rule static_lookup [OF Cons.prems(1) i])
  let ?addrs = "addrs[i := freeBlock k (addrs ! i)]"
  have nz: "GetBlockSize cfg \<noteq> 0" using cfg by (simp add: cfg_ok_def)
  have step: "releaseLoop (GetBlockSize cfg) (GetPortRangeStart cfg) (b # bs) addrs =
      releaseLoop (GetBlockSize cfg) (GetPortRangeStart cfg) bs ?addrs"
    using mkBlock_index [OF cfg k, of "addrs ! i", folded b] nz by (simp add: f)
  have ip: "oIP (?addrs ! j) = oIP (addrs ! j)" "Excluded (?addrs ! j) = Excluded (addrs ! j)" for j
    using i by (cases "j = i"; simp)+
  have mk: "mkBlock cfg (?addrs ! j) l = mkBlock cfg (addrs ! j) l" for j l by (simp add: mkBlock_def ip)
  have "map (\<lambda>a. To4 (oIP a)) ?addrs = map (\<lambda>a. To4 (oIP a)) addrs"
    by (simp add: map_update list_update_same_conv i)
  then have st: "static_ok cfg ?addrs"
    using Cons.prems(1) nth_mem [OF i] unfolding static_ok_def
    by (auto simp: addr_ok_freeBlock dest!: set_update_subset_insert [THEN subsetD])
  have "\<forall>b\<in>set bs. \<exists>i<length ?addrs. \<exists>k<nblocks cfg. norm b = mkBlock cfg (?addrs ! i) k"
    using Cons.prems(3) by (simp add: mk)
  from Cons.IH [OF st _ this] Cons.prems(2) obtain addrs' where IH:
    "releaseLoop (GetBlockSize cfg) (GetPortRangeStart cfg) bs ?addrs = Some addrs'" "static_ok cfg addrs'"
    "length addrs' = length addrs"
    "\<forall>j<length addrs. oIP (addrs' ! j) = oIP (?addrs ! j) \<and> Excluded (addrs' ! j) = Excluded (?addrs ! j) \<and>
      (\<forall>l<nblocks cfg. taken (addrs' ! j) l \<longleftrightarrow> taken (?addrs ! j) l \<and> mkBlock cfg (?addrs ! j) l \<notin> norm ` set bs)"
    by auto
  have "taken (?addrs ! j) l \<longleftrightarrow> taken (addrs ! j) l \<and> mkBlock cfg (addrs ! j) l \<noteq> norm b"
    if "j < length addrs" "l < nblocks cfg" for j l
  proof -
    have "mkBlock cfg (addrs ! j) l = norm b \<longleftrightarrow> j = i \<and> l = k"
      using mkBlock_inj [OF cfg that(2) k, of "addrs ! j" "addrs ! i"] static_inj [OF Cons.prems(1) that(1) i]
        static_v4 [OF Cons.prems(1)] i that by (auto simp: b copy4_To4)
    then show ?thesis using i by (cases "j = i") (simp_all add: bm_bit_freeBlock)
  qed
  with IH show ?case unfolding step by (auto simp: mk ip)
qed simp

text \<open>After a release the subscriber holds nothing and exactly its blocks are free again.\<close>

definition released :: "poolState \<Rightarrow> subscriberKey \<Rightarrow> poolState \<Rightarrow> bool" where
  "released ps key ps' \<longleftrightarrow> psName ps' = psName ps \<and> psID ps' = psID ps \<and> psConfig ps' = psConfig ps \<and>
     length (psAddresses ps') = length (psAddresses ps) \<and> blocksOf ps' key = [] \<and>
     (\<forall>key'. key' \<noteq> key \<longrightarrow> blocksOf ps' key' = blocksOf ps key') \<and>
     (\<forall>i<length (psAddresses ps). oIP (psAddresses ps' ! i) = oIP (psAddresses ps ! i) \<and>
        Excluded (psAddresses ps' ! i) = Excluded (psAddresses ps ! i) \<and>
        (\<forall>k<nblocks (psConfig ps). taken (psAddresses ps' ! i) k \<longleftrightarrow>
           taken (psAddresses ps ! i) k \<and> slot ps i k \<notin> set (held ps key)))"

theorem ReleaseBlocks_spec:
  assumes inv: "cg_inv ps" and p: "pm name = Some ps" and r: "ReleaseBlocks name ip vrf pm = (r, pm')"
  shows "r = Inr () \<and> (\<exists>ps'. pm' = pm(name \<mapsto> ps') \<and> released ps (cg_key vrf ip) ps' \<and> cg_inv ps')"
proof (cases "Subscribers ps (cg_key vrf ip)")
  case None
  then have "r = Inr ()" "pm' = pm" using r p by (simp_all add: ReleaseBlocks_def Let_def)
  moreover have "pm = pm(name \<mapsto> ps)" using p by auto
  moreover have "released ps (cg_key vrf ip) ps" using None by (simp add: released_def held_def blocksOf_def)
  ultimately show ?thesis using inv by blast
next
  case (Some sub)
  let ?key = "cg_key vrf ip"
  have bl: "Blocks sub = blocksOf ps ?key" using Some by (simp add: blocksOf_def)
  have hd: "set (held ps ?key) = norm ` set (blocksOf ps ?key)" by (simp add: held_def)
  obtain addrs where rl: "releaseLoop (GetBlockSize (psConfig ps)) (GetPortRangeStart (psConfig ps)) (Blocks sub) (psAddresses ps)
      = Some addrs"
    and st: "static_ok (psConfig ps) addrs" and len: "length addrs = length (psAddresses ps)"
    and each: "\<forall>i<length (psAddresses ps). oIP (addrs ! i) = oIP (psAddresses ps ! i) \<and>
        Excluded (addrs ! i) = Excluded (psAddresses ps ! i) \<and>
        (\<forall>k<nblocks (psConfig ps). taken (addrs ! i) k \<longleftrightarrow> taken (psAddresses ps ! i) k \<and> slot ps i k \<notin> set (held ps ?key))"
    using releaseLoop_spec [OF cg_invD(1) [OF inv], of "blocksOf ps ?key"] cg_invD(6) [OF inv, of _ ?key]
      cg_invD(3) [OF inv, of _ ?key] unfolding bl hd by auto
  let ?ps = "ps\<lparr>psAddresses := addrs, Subscribers := (Subscribers ps)(?key := None)\<rparr>"
  have res: "r = Inr ()" "pm' = pm(name \<mapsto> ?ps)" using r p Some rl by (simp_all add: ReleaseBlocks_def Let_def)
  have bo: "blocksOf ?ps key = (if key = ?key then [] else blocksOf ps key)" for key by (simp add: blocksOf_def)
  have held: "held ?ps key = (if key = ?key then [] else held ps key)" for key by (simp add: held_def bo)
  have mem: "x \<in> set (held ?ps key) \<longleftrightarrow> key \<noteq> ?key \<and> x \<in> set (held ps key)" for x key by (simp add: held)
  have sl: "mkBlock (psConfig ps) (addrs ! i) k = slot ps i k" if "i < length (psAddresses ps)" for i k
    using each that by (simp add: mkBlock_def)
  have "released ps ?key ?ps" using each len bo by (simp add: released_def)
  moreover have "cg_inv ?ps"
    unfolding cg_inv_def
  proof (intro conjI allI ballI impI)
    show "distinct (held ?ps key)" for key using cg_invD(2) [OF inv] by (simp add: held)
    show "To4 (OutsideIP b) \<noteq> []" if "b \<in> set (blocksOf ?ps key)" for key b
      using that cg_invD(6) [OF inv, of b key] by (simp add: bo split: if_splits)
    fix key key' b assume "b \<in> set (held ?ps key)" "b \<in> set (held ?ps key')"
    then show "key = key'" using cg_invD(4) [OF inv, of b key key'] by (simp add: held split: if_splits)
  next
    fix key b assume "b \<in> set (held ?ps key)"
    then obtain i k where "i < length (psAddresses ps)" "k < nblocks (psConfig ps)" "b = slot ps i k"
      using cg_invD(3) [OF inv, of b key] by (auto simp: held split: if_splits)
    then show "\<exists>i<length (psAddresses ?ps). \<exists>k<nblocks (psConfig ?ps). b = slot ?ps i k"
      using sl [of i k] len by (intro exI [of _ i] exI [of _ k] conjI) simp_all
  next
    fix i k assume ik: "i < length (psAddresses ?ps)" "k < nblocks (psConfig ?ps)"
    then have "taken (psAddresses ?ps ! i) k \<longleftrightarrow> (\<exists>key. slot ps i k \<in> set (held ps key)) \<and> slot ps i k \<notin> set (held ps ?key)"
      using each cg_invD(5) [OF inv, of i k] by (simp add: len)
    also have "\<dots> \<longleftrightarrow> (\<exists>key. slot ps i k \<in> set (held ?ps key))"
      unfolding mem using cg_invD(4) [OF inv, of "slot ps i k"] by metis
    finally show "taken (psAddresses ?ps ! i) k \<longleftrightarrow> (\<exists>key. slot ?ps i k \<in> set (held ?ps key))"
      using sl [of i k] ik by (simp add: len)
  qed (use st in simp)
  ultimately show ?thesis using res by blast
qed

subsection \<open>Configuration\<close>

lemma expandCIDR_addresses: "expandCIDR s = Some ips \<Longrightarrow> ip \<in> set ips \<Longrightarrow> To4 ip \<noteq> [] \<or> ip = []"
  using length_To4 by (fastforce simp: expandCIDR_def Let_def u32ToIP_def To4_def split: option.splits prod.splits if_splits)

text \<open>
  A pool is sensible when its block size is not zero, its port range is not inverted, its outside addresses parse,
  are IPv4 and do not repeat.
\<close>

definition sensible :: "cgPool \<Rightarrow> bool" where
  "sensible cfg \<longleftrightarrow> cfg_ok cfg \<and> (case expandAll '''' (OutsideAddresses cfg) of Inl _ \<Rightarrow> False
     | Inr ips \<Rightarrow> distinct (map To4 ips) \<and> [] \<notin> set (map To4 ips))"

lemma expandAll_name: "expandAll n as = Inr ips \<longleftrightarrow> expandAll n' as = Inr ips"
  by (induction as arbitrary: ips) (auto simp: bindE_Inr_iff split: option.splits)

lemma fresh_addr_ok:
  assumes "unat n \<le> 65536"
  shows "addr_ok \<lparr>oIP = ip, TotalBlocks = n, AllocatedBits = replicate (unat ((n + 63) div 64)) 0, Excluded = e\<rparr>"
proof -
  have "unat (n + 63) = unat n + 63" using assms by (simp add: unat_word_ariths)
  then show ?thesis using assms by (simp add: addr_ok_def bm_ok_def unat_div)
qed

theorem ConfigurePool_inv:
  assumes "sensible cfg" "ConfigurePool name pid cfg pm = (r, pm')"
  shows "r = Inr () \<and> (\<exists>ps. pm' = pm(name \<mapsto> ps) \<and> psName ps = name \<and> psID ps = pid \<and> psConfig ps = cfg \<and>
    (\<forall>key. blocksOf ps key = []) \<and> cg_inv ps)"
proof -
  have ok: "cfg_ok cfg" using assms(1) by (simp add: sensible_def)
  obtain ips where e: "expandAll '''' (OutsideAddresses cfg) = Inr ips" and d: "distinct (map To4 ips)" "[] \<notin> set (map To4 ips)"
    using assms(1) by (auto simp: sensible_def split: sum.splits)
  have e': "expandAll name (OutsideAddresses cfg) = Inr ips" using e expandAll_name by blast
  let ?mk = "\<lambda>ip. \<lparr>oIP = ip, TotalBlocks = blocksPerAddr cfg,
      AllocatedBits = replicate (unat ((blocksPerAddr cfg + 63) div 64)) 0, Excluded = ip4String ip \<in> set (ExcludedAddresses cfg)\<rparr>"
  let ?ps = "\<lparr>psName = name, psID = pid, psConfig = cfg, psAddresses = map ?mk ips, Subscribers = Map.empty\<rparr>"
  have "GetBlockSize cfg \<noteq> 0" using ok by (simp add: cfg_ok_def)
  then have res: "r = Inr ()" "pm' = pm(name \<mapsto> ?ps)" using assms(2) e' by (simp_all add: ConfigurePool_def Let_def)
  have "addr_ok (?mk ip)" for ip by (rule fresh_addr_ok) (use nblocks_room(3) [OF ok] in simp)
  moreover have "\<forall>ip\<in>set ips. To4 ip \<noteq> []" using d(2) by (metis image_eqI set_map)
  ultimately have "static_ok cfg (map ?mk ips)" using ok d(1) by (simp add: static_ok_def comp_def)
  then have "cg_inv ?ps" by (simp add: cg_inv_def held_def blocksOf_def)
  with res show ?thesis by (auto simp: blocksOf_def)
qed

text \<open>Only a zero block size and an address that does not parse make the configuration fail.\<close>

lemma ConfigurePool_error:
  "ConfigurePool name pid cfg pm = (Inl e, pm') \<Longrightarrow>
     pm' = pm \<and> (e = DivideByZero \<and> GetBlockSize cfg = 0 \<or> (\<exists>a. e = InvalidOutsideAddress name a \<and> expandCIDR a = None))"
proof -
  have "expandAll name as = Inl e \<Longrightarrow> \<exists>a. e = InvalidOutsideAddress name a \<and> expandCIDR a = None" for as
    by (induction as) (auto simp: bindE_def split: option.splits sum.splits)
  then show "ConfigurePool name pid cfg pm = (Inl e, pm') \<Longrightarrow>
     pm' = pm \<and> (e = DivideByZero \<and> GetBlockSize cfg = 0 \<or> (\<exists>a. e = InvalidOutsideAddress name a \<and> expandCIDR a = None))"
    by (auto simp: ConfigurePool_def Let_def split: if_splits sum.splits)
qed

subsection \<open>The manager\<close>

definition mgr_inv :: "PoolManager \<Rightarrow> bool" where
  "mgr_inv pm \<longleftrightarrow> (\<forall>name ps. pm name = Some ps \<longrightarrow> cg_inv ps \<and> psName ps = name)"

lemma mgr_inv_upd: "mgr_inv pm \<Longrightarrow> cg_inv ps \<Longrightarrow> psName ps = name \<Longrightarrow> mgr_inv (pm(name \<mapsto> ps))"
  by (simp add: mgr_inv_def)

lemma given_psName: "allocateIn n ps ip vrf sw = (r, ps') \<Longrightarrow> psName ps' = psName ps"
  by (auto simp: allocateIn_def Let_def split: option.splits if_splits prod.splits)

lemma AllocateBlock_inv:
  assumes "mgr_inv pm" "AllocateBlock name ip vrf sw pm = (r, pm')"
  shows "mgr_inv pm'"
proof (cases "pm name")
  case None
  then show ?thesis using assms by (simp add: AllocateBlock_def)
next
  case (Some ps)
  obtain r' ps' where al: "allocateIn name ps ip vrf sw = (r', ps')" by (cases "allocateIn name ps ip vrf sw")
  have ps: "cg_inv ps" "psName ps = name" using assms(1) Some by (simp_all add: mgr_inv_def)
  have "pm' = pm(name \<mapsto> ps')" using assms(2) Some al by (simp add: AllocateBlock_def)
  with ps allocateIn_inv [OF ps(1) al] given_psName [OF al] show ?thesis by (simp add: mgr_inv_upd assms(1))
qed

text \<open>A subscriber that holds a block gets its first one back and nothing changes; any other gets a new one.\<close>

lemma GetOrAllocate_held:
  assumes "pm name = Some ps" "held ps (cg_key vrf ip) = b # bs"
  shows "\<exists>sw'. GetOrAllocate name ip vrf sw pm = (Inr (mkMapping name (psID ps) ip vrf b sw', False), pm)"
proof -
  obtain sub c cs where "Subscribers ps (cg_key vrf ip) = Some sub" "Blocks sub = c # cs" "norm c = b"
    using assms(2) by (auto simp: held_def blocksOf_def split: option.splits)
  then show ?thesis using assms(1) by (auto simp: GetOrAllocate_def Let_def norm_def)
qed

lemma GetOrAllocate_new:
  assumes "pm name = Some ps" "held ps (cg_key vrf ip) = []"
  shows "GetOrAllocate name ip vrf sw pm = (case allocateIn (psName ps) ps ip vrf sw of (r, ps') \<Rightarrow>
    (bindE r (\<lambda>m. Inr (m, True)), pm(name \<mapsto> ps')))"
  using assms by (auto simp: GetOrAllocate_def allocateLocked_def held_def blocksOf_def Let_def split: option.splits list.splits)

lemma GetOrAllocate_inv:
  assumes "mgr_inv pm" "GetOrAllocate name ip vrf sw pm = (r, pm')"
  shows "mgr_inv pm'"
proof (cases "pm name")
  case None
  then show ?thesis using assms by (simp add: GetOrAllocate_def)
next
  case (Some ps)
  have ps: "cg_inv ps" "psName ps = name" using assms(1) Some by (simp_all add: mgr_inv_def)
  show ?thesis
  proof (cases "held ps (cg_key vrf ip)")
    case Nil
    obtain r' ps' where al: "allocateIn (psName ps) ps ip vrf sw = (r', ps')" by (cases "allocateIn (psName ps) ps ip vrf sw")
    have "pm' = pm(name \<mapsto> ps')" using assms(2) GetOrAllocate_new [of pm name ps, OF Some Nil, of sw] al by simp
    with ps allocateIn_inv [OF ps(1) al] given_psName [OF al] show ?thesis by (simp add: mgr_inv_upd assms(1))
  next
    case (Cons b bs)
    then show ?thesis using GetOrAllocate_held [of pm name ps, OF Some Cons, of sw] assms by auto
  qed
qed

lemma ReleaseBlocks_inv:
  assumes "mgr_inv pm" "ReleaseBlocks name ip vrf pm = (r, pm')"
  shows "mgr_inv pm'"
proof (cases "pm name")
  case None
  then show ?thesis using assms by (simp add: ReleaseBlocks_def)
next
  case (Some ps)
  have ps: "cg_inv ps" "psName ps = name" using assms(1) Some by (simp_all add: mgr_inv_def)
  from ReleaseBlocks_spec [of ps pm name, OF ps(1) Some assms(2)] ps(2) show ?thesis
    by (auto simp: released_def intro!: mgr_inv_upd [OF assms(1)] simp del: split_paired_All)
qed

text \<open>A mapping can be restored when its block is one of the pool's and free.\<close>

definition restorable :: "poolState \<Rightarrow> CGNATMapping \<Rightarrow> bool" where
  "restorable ps m \<longleftrightarrow> To4 (mOutsideIP m) \<noteq> [] \<and> (\<exists>i<length (psAddresses ps). \<exists>k<nblocks (psConfig ps).
     norm (restoreBlock m) = slot ps i k \<and> \<not> taken (psAddresses ps ! i) k)"

lemma restorable_slot:
  assumes inv: "cg_inv ps" and re: "restorable ps m"
  obtains i k where "i < length (psAddresses ps)" "k < nblocks (psConfig ps)" "norm (restoreBlock m) = slot ps i k"
    "\<not> taken (psAddresses ps ! i) k" "To4 (mOutsideIP m) = To4 (oIP (psAddresses ps ! i))"
    "mPortBlockStart m = PortBlockStart (slot ps i k)"
    "restoreBit k (psAddresses ps ! i) = (psAddresses ps ! i)\<lparr>AllocatedBits := setBit (AllocatedBits (psAddresses ps ! i)) k\<rparr>"
proof -
  let ?cfg = "psConfig ps"
  obtain i k where i: "i < length (psAddresses ps)" and k: "k < nblocks ?cfg" and b: "norm (restoreBlock m) = slot ps i k"
    and free: "\<not> taken (psAddresses ps ! i) k" using re by (auto simp: restorable_def)
  have st: "static_ok ?cfg (psAddresses ps)" by (rule cg_invD(1) [OF inv])
  have cfg: "cfg_ok ?cfg" using st by (simp add: static_ok_def)
  have m: "To4 (mOutsideIP m) = To4 (oIP (psAddresses ps ! i))" "mPortBlockStart m = PortBlockStart (slot ps i k)"
    using arg_cong [OF b, of OutsideIP] arg_cong [OF b, of PortBlockStart] static_v4 [OF st i] re
    by (simp_all add: restoreBlock_def restorable_def mkBlock_ports(4) [OF cfg k] copy4_To4)
  have "addr_ok (psAddresses ps ! i)" "TotalBlocks (psAddresses ps ! i) = blocksPerAddr ?cfg"
    using st nth_mem [OF i] by (simp_all add: static_ok_def)
  then have "k div 64 < length (AllocatedBits (psAddresses ps ! i))"
    using k bm_ok_le [of "nblocks ?cfg" "AllocatedBits (psAddresses ps ! i)"]
    by (simp add: addr_ok_def div_less_iff_less_mult mult.commute)
  then show ?thesis using that [OF i k b free m] by (simp add: restoreBit_def)
qed

text \<open>The test of \<^verbatim>\<open>RestoreMappingIfAbsent\<close> does not find a block that nobody holds.\<close>

definition present :: "poolState \<Rightarrow> CGNATMapping \<Rightarrow> bool" where
  "present ps m \<longleftrightarrow> (case Subscribers ps (cg_key (mInsideVRFID m) (mInsideIP m)) of None \<Rightarrow> False
     | Some sub \<Rightarrow> list_ex (\<lambda>b. PortBlockStart b = mPortBlockStart m \<and> ip_Equal (OutsideIP b) (mOutsideIP m)) (Blocks sub))"

lemma present_iff:
  "present ps m \<longleftrightarrow> (\<exists>b\<in>set (blocksOf ps (cg_key (mInsideVRFID m) (mInsideIP m))).
     PortBlockStart b = mPortBlockStart m \<and> ip_Equal (OutsideIP b) (mOutsideIP m))"
  by (auto simp: present_def blocksOf_def list_ex_iff split: option.splits)

lemma restorable_absent:
  assumes inv: "cg_inv ps" and re: "restorable ps m"
  shows "\<not> present ps m"
proof
  let ?cfg = "psConfig ps"
  obtain i k where i: "i < length (psAddresses ps)" and k: "k < nblocks ?cfg" and free: "\<not> taken (psAddresses ps ! i) k"
    and m: "To4 (mOutsideIP m) = To4 (oIP (psAddresses ps ! i))" "mPortBlockStart m = PortBlockStart (slot ps i k)"
    by (rule restorable_slot [OF inv re])
  have st: "static_ok ?cfg (psAddresses ps)" by (rule cg_invD(1) [OF inv])
  have cfg: "cfg_ok ?cfg" using st by (simp add: static_ok_def)
  assume "present ps m"
  then obtain c where ch: "c \<in> set (blocksOf ps (cg_key (mInsideVRFID m) (mInsideIP m)))"
    and eq: "PortBlockStart c = mPortBlockStart m" "ip_Equal (OutsideIP c) (mOutsideIP m)" by (auto simp: present_iff)
  have nc: "norm c \<in> set (held ps (cg_key (mInsideVRFID m) (mInsideIP m)))" using ch by (simp add: held_def)
  obtain j l where l: "l < nblocks ?cfg" and c: "norm c = slot ps j l" using cg_invD(3) [OF inv nc] by blast
  have "To4 (OutsideIP c) = To4 (oIP (psAddresses ps ! i))"
    using ip_Equal_To4 [OF cg_invD(6) [OF inv ch], of "mOutsideIP m"] eq(2) m(1) static_v4 [OF st i] by simp
  then have "copy4 (oIP (psAddresses ps ! j)) = copy4 (oIP (psAddresses ps ! i))"
    using arg_cong [OF c, of OutsideIP] mkBlock_ports(4) [OF cfg l, of "psAddresses ps ! j"] by (simp add: copy4_def)
  moreover have "PortBlockStart (slot ps j l) = PortBlockStart (slot ps i k)"
    using arg_cong [OF c, of PortBlockStart] eq(1) m(2) by simp
  ultimately have "norm c = slot ps i k" using mkBlock_eqI [OF cfg l k] c by metis
  with nc cg_invD(5) [OF inv i k] free show False by metis
qed

theorem restoreLocked_inv:
  assumes inv: "cg_inv ps" and p: "pm (mPoolName m) = Some ps" and re: "restorable ps m"
    and r: "restoreLocked m ifAbsent pm = (r, pm')"
  shows "r = Inr () \<and> (\<exists>ps'. pm' = pm(mPoolName m \<mapsto> ps') \<and> cg_inv ps' \<and> psName ps' = psName ps \<and>
    blocksOf ps' (cg_key (mInsideVRFID m) (mInsideIP m)) = blocksOf ps (cg_key (mInsideVRFID m) (mInsideIP m)) @ [restoreBlock m] \<and>
    (\<forall>key'. key' \<noteq> cg_key (mInsideVRFID m) (mInsideIP m) \<longrightarrow> blocksOf ps' key' = blocksOf ps key'))"
proof -
  let ?key = "cg_key (mInsideVRFID m) (mInsideIP m)" and ?cfg = "psConfig ps"
  obtain i k where i: "i < length (psAddresses ps)" and k: "k < nblocks ?cfg" and b: "norm (restoreBlock m) = slot ps i k"
    and free: "\<not> taken (psAddresses ps ! i) k" and m: "To4 (mOutsideIP m) = To4 (oIP (psAddresses ps ! i))"
      "mPortBlockStart m = PortBlockStart (slot ps i k)"
    and bit: "restoreBit k (psAddresses ps ! i) =
      (psAddresses ps ! i)\<lparr>AllocatedBits := setBit (AllocatedBits (psAddresses ps ! i)) k\<rparr>"
    by (rule restorable_slot [OF inv re])
  have st: "static_ok ?cfg (psAddresses ps)" by (rule cg_invD(1) [OF inv])
  have cfg: "cfg_ok ?cfg" using st by (simp add: static_ok_def)
  have idx: "unat (mPortBlockStart m - GetPortRangeStart ?cfg) div unat (GetBlockSize ?cfg) = k"
    unfolding m(2) by (rule mkBlock_index [OF cfg k])
  have nz: "GetBlockSize ?cfg \<noteq> 0" using cfg by (simp add: cfg_ok_def)
  define sub where "sub = (case Subscribers ps ?key of Some s \<Rightarrow> s
      | None \<Rightarrow> \<lparr>sPoolName = mPoolName m, sPoolID = psID ps, sSwIfIndex = mSwIfIndex m, Blocks = []\<rparr>)"
  define ps' where "ps' = ps\<lparr>psAddresses := (psAddresses ps)[i := restoreBit k (psAddresses ps ! i)],
      Subscribers := (Subscribers ps)(?key \<mapsto> sub\<lparr>Blocks := Blocks sub @ [restoreBlock m]\<rparr>)\<rparr>"
  have res: "r = Inr ()" "pm' = pm(mPoolName m \<mapsto> ps')"
    using r p nz idx static_lookup [OF st i m(1)] restorable_absent [OF inv re]
    by (simp_all add: restoreLocked_def Let_def ps'_def sub_def present_def)
  have bo: "blocksOf ps' ?key = blocksOf ps ?key @ [restoreBlock m]" "key' \<noteq> ?key \<Longrightarrow> blocksOf ps' key' = blocksOf ps key'" for key'
    by (simp_all add: blocksOf_def ps'_def sub_def split: option.splits)
  have "cg_inv ps'"
  proof (rule alloc_keeps_inv [OF inv i k free, of ps' ?key])
    show "To4 (OutsideIP c) \<noteq> []" if "c \<in> set (blocksOf ps' key')" for key' c
      using that re cg_invD(6) [OF inv, of c key'] by (cases "key' = ?key") (auto simp: bo restorable_def restoreBlock_def)
  qed (simp_all add: held_def bo b, simp_all add: ps'_def bit)
  then show ?thesis using res bo by (auto simp: ps'_def)
qed

text \<open>Restoring a mapping again changes nothing, whatever the pool holds.\<close>

theorem RestoreMappingIfAbsent_idem:
  assumes "RestoreMappingIfAbsent m pm = (Inr (), pm')"
  shows "RestoreMappingIfAbsent m pm' = (Inr (), pm')"
proof -
  let ?key = "cg_key (mInsideVRFID m) (mInsideIP m)"
  obtain ps where p: "pm (mPoolName m) = Some ps"
    using assms by (cases "pm (mPoolName m)") (simp_all add: RestoreMappingIfAbsent_def restoreLocked_def)
  have noop: "RestoreMappingIfAbsent m q = (Inr (), q)" if "q (mPoolName m) = Some qs" "present qs m" for q qs
    using that by (simp add: RestoreMappingIfAbsent_def restoreLocked_def Let_def present_def)
  show ?thesis
  proof (cases "present ps m")
    case True
    then show ?thesis using assms noop [of pm ps] p by simp
  next
    case False
    define as where "as = (case firstIdx (\<lambda>addr. ip_Equal (oIP addr) (mOutsideIP m)) (psAddresses ps) of
        None \<Rightarrow> psAddresses ps
      | Some i \<Rightarrow> (psAddresses ps)[i := restoreBit (unat (mPortBlockStart m - GetPortRangeStart (psConfig ps))
          div unat (GetBlockSize (psConfig ps))) (psAddresses ps ! i)])"
    define sub where "sub = (case Subscribers ps ?key of Some s \<Rightarrow> s
      | None \<Rightarrow> \<lparr>sPoolName = mPoolName m, sPoolID = psID ps, sSwIfIndex = mSwIfIndex m, Blocks = []\<rparr>)"
    have pm': "pm' = pm(mPoolName m \<mapsto> ps\<lparr>psAddresses := as, Subscribers :=
        (Subscribers ps)(?key \<mapsto> sub\<lparr>Blocks := Blocks sub @ [restoreBlock m]\<rparr>)\<rparr>)"
      unfolding as_def sub_def using assms p False unfolding present_def
      by (simp add: RestoreMappingIfAbsent_def restoreLocked_def Let_def split: if_splits)
    have "present (ps\<lparr>psAddresses := as, Subscribers := (Subscribers ps)(?key \<mapsto> sub\<lparr>Blocks := Blocks sub @ [restoreBlock m]\<rparr>)\<rparr>) m"
      by (simp add: present_def restoreBlock_def)
    then show ?thesis using noop [of pm'] pm' by simp
  qed
qed

subsection \<open>Sequences of operations\<close>

text \<open>
  The states a manager reaches: pools are configured sensibly, and a mapping is restored when its block is free or
  when the subscriber already has it (the case \<^verbatim>\<open>RestoreMappingIfAbsent\<close> is made for).
\<close>

inductive cg_reach :: "PoolManager \<Rightarrow> bool" where
  reach_new: "cg_reach NewPoolManager"
| reach_configure: "cg_reach pm \<Longrightarrow> sensible cfg \<Longrightarrow> cg_reach (snd (ConfigurePool name pid cfg pm))"
| reach_remove: "cg_reach pm \<Longrightarrow> cg_reach (RemovePool name pm)"
| reach_allocate: "cg_reach pm \<Longrightarrow> cg_reach (snd (AllocateBlock name ip vrf sw pm))"
| reach_get: "cg_reach pm \<Longrightarrow> cg_reach (snd (GetOrAllocate name ip vrf sw pm))"
| reach_release: "cg_reach pm \<Longrightarrow> cg_reach (snd (ReleaseBlocks name ip vrf pm))"
| reach_restore: "cg_reach pm \<Longrightarrow> (\<And>ps. pm (mPoolName m) = Some ps \<Longrightarrow> restorable ps m \<or> present ps m) \<Longrightarrow>
    cg_reach (snd (RestoreMappingIfAbsent m pm))"

lemma RestoreMappingIfAbsent_mgr:
  assumes "mgr_inv pm" "\<And>ps. pm (mPoolName m) = Some ps \<Longrightarrow> restorable ps m \<or> present ps m"
  shows "mgr_inv (snd (RestoreMappingIfAbsent m pm))"
proof (cases "pm (mPoolName m)")
  case None
  then show ?thesis using assms(1) by (simp add: RestoreMappingIfAbsent_def restoreLocked_def)
next
  case (Some ps)
  then have ps: "cg_inv ps" "psName ps = mPoolName m" using assms(1) by (simp_all add: mgr_inv_def)
  show ?thesis
  proof (cases "present ps m")
    case True
    then show ?thesis using assms(1) Some by (simp add: RestoreMappingIfAbsent_def restoreLocked_def Let_def present_def)
  next
    case False
    then have "restorable ps m" using assms(2) [OF Some] by blast
    from restoreLocked_inv [of ps pm m True, OF ps(1) Some this prod.collapse [symmetric]] ps(2) show ?thesis
      by (auto simp: RestoreMappingIfAbsent_def intro!: mgr_inv_upd [OF assms(1)])
  qed
qed

theorem cg_reach_inv: "cg_reach pm \<Longrightarrow> mgr_inv pm"
proof (induction rule: cg_reach.induct)
  case reach_new
  then show ?case by (simp add: mgr_inv_def NewPoolManager_def)
next
  case (reach_configure pm cfg name pid)
  then show ?case using ConfigurePool_inv [OF reach_configure.hyps(2) prod.collapse [symmetric], of name pid pm]
    by (auto simp: mgr_inv_def split: if_splits)
next
  case (reach_remove pm name)
  then show ?case by (simp add: mgr_inv_def RemovePool_def)
next
  case (reach_allocate pm name ip vrf sw)
  then show ?case using AllocateBlock_inv [OF _ prod.collapse [symmetric]] by blast
next
  case (reach_get pm name ip vrf sw)
  then show ?case using GetOrAllocate_inv [OF _ prod.collapse [symmetric]] by blast
next
  case (reach_release pm name ip vrf)
  then show ?case using ReleaseBlocks_inv [OF _ prod.collapse [symmetric]] by blast
next
  case (reach_restore pm m)
  then show ?case using RestoreMappingIfAbsent_mgr by blast
qed

text \<open>In a pool that satisfies the invariant no two subscribers can be given the same port of an address.\<close>

theorem cg_inv_no_overlap:
  assumes inv: "cg_inv ps" and b: "b \<in> set (blocksOf ps key)" and b': "b' \<in> set (blocksOf ps key')"
    and ip: "To4 (OutsideIP b) = To4 (OutsideIP b')"
    and p: "PortBlockStart b \<le> p" "p \<le> PortBlockEnd b" "PortBlockStart b' \<le> p" "p \<le> PortBlockEnd b'"
  shows "key = key' \<and> norm b = norm b' \<and> GetPortRangeStart (psConfig ps) \<le> p \<and> p \<le> GetPortRangeEnd (psConfig ps)"
proof -
  have cfg: "cfg_ok (psConfig ps)" using cg_invD(1) [OF inv] by (simp add: static_ok_def)
  have h: "norm b \<in> set (held ps key)" "norm b' \<in> set (held ps key')" using b b' by (simp_all add: held_def)
  obtain i k where k: "k < nblocks (psConfig ps)" "norm b = slot ps i k" using cg_invD(3) [OF inv h(1)] by blast
  obtain j l where l: "l < nblocks (psConfig ps)" "norm b' = slot ps j l" using cg_invD(3) [OF inv h(2)] by blast
  have pb: "PortBlockStart b = PortBlockStart (slot ps i k)" "PortBlockEnd b = PortBlockEnd (slot ps i k)"
    "PortBlockStart b' = PortBlockStart (slot ps j l)" "PortBlockEnd b' = PortBlockEnd (slot ps j l)"
    by (simp_all flip: k(2) l(2))
  have kl: "k = l" using mkBlock_overlap [OF cfg k(1) l(1)] p unfolding pb by blast
  have "copy4 (oIP (psAddresses ps ! i)) = copy4 (oIP (psAddresses ps ! j))"
    using arg_cong [OF k(2), of OutsideIP] arg_cong [OF l(2), of OutsideIP] ip
      mkBlock_ports(4) [OF cfg k(1), of "psAddresses ps ! i"] mkBlock_ports(4) [OF cfg l(1), of "psAddresses ps ! j"]
    by (simp add: copy4_def)
  then have eq: "norm b = norm b'" unfolding k(2) l(2) kl by (simp add: mkBlock_def)
  then have "key = key'" using cg_invD(4) [OF inv, of "norm b" key key'] h by simp
  moreover have "pstart (psConfig ps) \<le> unat p" "unat p \<le> pend (psConfig ps)"
    using p(1,2) mkBlock_ports(1,2) [OF cfg k(1), of "psAddresses ps ! i"] mkBlock_ports(3) [OF cfg k(1)] bsize_pos [OF cfg] unfolding pb
    by (simp_all add: word_le_nat_alt)
  ultimately show ?thesis using eq by (simp add: word_le_nat_alt)
qed

end
