(* ===== verification/CGNAT_Index.thy ===== *)
theory CGNAT_Index
  imports CGNAT_Alloc
begin

section \<open>From outside port to subscriber\<close>

text \<open>
  \<^verbatim>\<open>internal/cgnat/mapping.go\<close>, \<^verbatim>\<open>blacklist.go\<close> and \<^verbatim>\<open>bypass.go\<close>. The reverse index keeps pointers to
  mappings and \<^verbatim>\<open>Remove\<close> compares pointers, so an entry is an address with the mapping it points to.
\<close>

subsection \<open>The reverse index\<close>

type_synonym mptr = "nat \<times> CGNATMapping"
type_synonym reverseKey = "bytes \<times> u16"

record ReverseIndex =
  byBlock :: "reverseKey \<rightharpoonup> mptr"
  byIP :: "bytes \<rightharpoonup> mptr list"

definition NewReverseIndex :: ReverseIndex where
  "NewReverseIndex = \<lparr>byBlock = Map.empty, byIP = Map.empty\<rparr>"

definition makeReverseKey :: "bytes \<Rightarrow> u16 \<Rightarrow> reverseKey" where
  "makeReverseKey ip portStart = (copy4 ip, portStart)"

definition ipList :: "ReverseIndex \<Rightarrow> bytes \<Rightarrow> mptr list" where
  "ipList ri ipKey = (case byIP ri ipKey of None \<Rightarrow> [] | Some ms \<Rightarrow> ms)"

definition ri_Add :: "mptr \<Rightarrow> ReverseIndex \<Rightarrow> ReverseIndex" where
  "ri_Add m ri =
     (let key = makeReverseKey (mOutsideIP (snd m)) (mPortBlockStart (snd m)); ipKey = copy4 (mOutsideIP (snd m)) in
      ri\<lparr>byBlock := (byBlock ri)(key \<mapsto> m), byIP := (byIP ri)(ipKey \<mapsto> ipList ri ipKey @ [m])\<rparr>)"

text \<open>The first entry of the list that points to the mapping is taken out.\<close>

definition ri_Remove :: "bytes \<Rightarrow> u16 \<Rightarrow> ReverseIndex \<Rightarrow> ReverseIndex" where
  "ri_Remove outsideIP portStart ri =
     (let key = makeReverseKey outsideIP portStart in
      case byBlock ri key of None \<Rightarrow> ri
      | Some m \<Rightarrow>
         (let ipKey = copy4 outsideIP; mappings = ipList ri ipKey;
              byIP1 = (case firstIdx (\<lambda>x. fst x = fst m) mappings of None \<Rightarrow> byIP ri
                | Some i \<Rightarrow> (byIP ri)(ipKey \<mapsto> take i mappings @ drop (Suc i) mappings));
              byIP2 = (if (case byIP1 ipKey of None \<Rightarrow> [] | Some ms \<Rightarrow> ms) = [] then byIP1(ipKey := None) else byIP1)
          in ri\<lparr>byBlock := (byBlock ri)(key := None), byIP := byIP2\<rparr>))"

definition ri_Lookup :: "bytes \<Rightarrow> u16 \<Rightarrow> ReverseIndex \<Rightarrow> mptr option" where
  "ri_Lookup outsideIP port ri = (case byIP ri (copy4 outsideIP) of None \<Rightarrow> None
     | Some ms \<Rightarrow> find (\<lambda>m. mPortBlockStart (snd m) \<le> port \<and> port \<le> mPortBlockEnd (snd m)) ms)"

definition ri_LookupByIP :: "bytes \<Rightarrow> ReverseIndex \<Rightarrow> mptr list" where
  "ri_LookupByIP outsideIP ri = ipList ri (copy4 outsideIP)"

text \<open>
  The two maps agree: a pointer is in the list of its address exactly when the block map has it under its key, no
  pointer is listed twice and no list is empty.
\<close>

definition rkey :: "mptr \<Rightarrow> reverseKey" where
  "rkey m = makeReverseKey (mOutsideIP (snd m)) (mPortBlockStart (snd m))"

definition ri_ok :: "ReverseIndex \<Rightarrow> bool" where
  "ri_ok ri \<longleftrightarrow> (\<forall>ip. byIP ri ip \<noteq> Some []) \<and> (\<forall>ip. distinct (map fst (ipList ri ip))) \<and>
     (\<forall>ip. \<forall>m\<in>set (ipList ri ip). fst (rkey m) = ip) \<and>
     (\<forall>k m. byBlock ri k = Some m \<longleftrightarrow> m \<in> set (ipList ri (fst k)) \<and> rkey m = k)"

lemma ri_okD:
  assumes "ri_ok ri"
  shows "distinct (map fst (ipList ri ip))" "m \<in> set (ipList ri ip) \<Longrightarrow> fst (rkey m) = ip"
    "m \<in> set (ipList ri ip) \<Longrightarrow> byBlock ri (rkey m) = Some m"
    "byBlock ri k = Some m \<Longrightarrow> m \<in> set (ipList ri (fst k)) \<and> rkey m = k"
  using assms unfolding ri_ok_def by auto

lemma ri_ok_iff: "ri_ok ri \<Longrightarrow> byBlock ri k = Some m \<longleftrightarrow> m \<in> set (ipList ri (fst k)) \<and> rkey m = k"
  unfolding ri_ok_def by blast

lemma ri_ok_new: "ri_ok NewReverseIndex"
  by (simp add: ri_ok_def NewReverseIndex_def ipList_def)

lemma ri_Add_fields:
  "byBlock (ri_Add m ri) = (byBlock ri)(rkey m \<mapsto> m)"
  "ipList (ri_Add m ri) ip = (if ip = fst (rkey m) then ipList ri ip @ [m] else ipList ri ip)"
  by (simp_all add: ri_Add_def rkey_def makeReverseKey_def ipList_def Let_def)

text \<open>Adding a pointer that is not in the index, under a key that has none, keeps the maps in agreement.\<close>

lemma ri_Add_ok:
  assumes ok: "ri_ok ri" and free: "byBlock ri (rkey m) = None" and new: "\<forall>ip. fst m \<notin> fst ` set (ipList ri ip)"
  shows "ri_ok (ri_Add m ri)"
  unfolding ri_ok_def
proof (intro conjI allI ballI)
  show "byIP (ri_Add m ri) ip \<noteq> Some []" for ip
    using ok by (simp add: ri_ok_def ri_Add_def Let_def)
  show "distinct (map fst (ipList (ri_Add m ri) ip))" for ip
    using ri_okD(1) [OF ok] new by (simp add: ri_Add_fields)
  show "fst (rkey m') = ip" if "m' \<in> set (ipList (ri_Add m ri) ip)" for ip m'
    using that ri_okD(2) [OF ok, of m' ip] by (auto simp: ri_Add_fields split: if_splits)
  show "byBlock (ri_Add m ri) k = Some m' \<longleftrightarrow> m' \<in> set (ipList (ri_Add m ri) (fst k)) \<and> rkey m' = k" for k m'
    using free ri_ok_iff [OF ok, of k m'] by (cases "k = rkey m") (auto simp: ri_Add_fields)
qed

lemma take_drop_distinct:
  assumes "distinct (map f xs)" "i < length xs"
  shows "distinct (map f (take i xs @ drop (Suc i) xs))" "set (take i xs @ drop (Suc i) xs) = {x \<in> set xs. x \<noteq> xs ! i}"
proof -
  have e: "take i xs @ xs ! i # drop (Suc i) xs = xs" by (rule id_take_nth_drop [OF assms(2), symmetric])
  have d: "distinct (map f (take i xs @ xs ! i # drop (Suc i) xs))" using assms(1) by (simp only: e)
  then show "distinct (map f (take i xs @ drop (Suc i) xs))" by auto
  have "set xs = insert (xs ! i) (set (take i xs @ drop (Suc i) xs))" by (subst e [symmetric]) auto
  moreover have "xs ! i \<notin> set (take i xs @ drop (Suc i) xs)" using d by auto
  ultimately show "set (take i xs @ drop (Suc i) xs) = {x \<in> set xs. x \<noteq> xs ! i}" by blast
qed

lemma ri_Remove_fields:
  assumes ok: "ri_ok ri" and m: "byBlock ri k = Some m" and k: "k = makeReverseKey ip port"
  shows "byBlock (ri_Remove ip port ri) = (byBlock ri)(k := None)"
    "set (ipList (ri_Remove ip port ri) a) = {x \<in> set (ipList ri a). x \<noteq> m}"
    "distinct (map fst (ipList (ri_Remove ip port ri) a))" "byIP (ri_Remove ip port ri) a \<noteq> Some []"
proof -
  let ?l = "ipList ri (fst k)"
  have fk: "fst k = copy4 ip" by (simp add: k makeReverseKey_def)
  have mem: "m \<in> set ?l" "rkey m = k" using ri_okD(4) [OF ok m] by simp_all
  obtain i where i: "firstIdx (\<lambda>x. fst x = fst m) ?l = Some i"
    using mem(1) by (cases "firstIdx (\<lambda>x. fst x = fst m) ?l") (auto simp: firstIdx_None)
  note fi = firstIdx_Some [OF i]
  have im: "?l ! i = m"
    using fi mem(1) ri_okD(1) [OF ok, of "fst k"] by (metis (no_types, lifting) distinct_map inj_on_eq_iff nth_mem)
  note td = take_drop_distinct [OF ri_okD(1) [OF ok], of i "fst k", unfolded im]
  have rem: "ri_Remove ip port ri = ri\<lparr>byBlock := (byBlock ri)(k := None),
      byIP := (if take i ?l @ drop (Suc i) ?l = [] then ((byIP ri)(fst k \<mapsto> take i ?l @ drop (Suc i) ?l))(fst k := None)
        else (byIP ri)(fst k \<mapsto> take i ?l @ drop (Suc i) ?l))\<rparr>"
    using m i by (simp add: ri_Remove_def Let_def k [symmetric] fk [symmetric])
  have ipl: "ipList (ri_Remove ip port ri) c = (if c = fst k then take i ?l @ drop (Suc i) ?l else ipList ri c)" for c
    unfolding rem by (auto simp: ipList_def)
  show "byBlock (ri_Remove ip port ri) = (byBlock ri)(k := None)" by (simp add: rem)
  show "byIP (ri_Remove ip port ri) a \<noteq> Some []" using ok unfolding rem by (auto simp: ri_ok_def)
  show "distinct (map fst (ipList (ri_Remove ip port ri) a))"
    using td(1) fi ri_okD(1) [OF ok, of a] by (simp only: ipl split: if_split) blast
  have "m \<notin> set (ipList ri a)" if "a \<noteq> fst k" using ri_okD(2) [OF ok, of m a] mem(2) that by blast
  then show "set (ipList (ri_Remove ip port ri) a) = {x \<in> set (ipList ri a). x \<noteq> m}"
    using td(2) fi by (cases "a = fst k") (auto simp: ipl)
qed

lemma ri_Remove_ok:
  assumes ok: "ri_ok ri"
  shows "ri_ok (ri_Remove ip port ri)"
proof (cases "byBlock ri (makeReverseKey ip port)")
  case None
  then show ?thesis using ok by (simp add: ri_Remove_def Let_def)
next
  case (Some m)
  note f = ri_Remove_fields [OF ok Some refl]
  have rk: "rkey m = makeReverseKey ip port" using ri_okD(4) [OF ok Some] by simp
  show ?thesis
    unfolding ri_ok_def
  proof (intro conjI allI ballI)
    show "byIP (ri_Remove ip port ri) a \<noteq> Some []" for a by (rule f(4))
    show "distinct (map fst (ipList (ri_Remove ip port ri) a))" for a by (rule f(3))
    show "fst (rkey x) = a" if "x \<in> set (ipList (ri_Remove ip port ri) a)" for a x
      using that ri_okD(2) [OF ok, of x a] unfolding f(2) by simp
    show "byBlock (ri_Remove ip port ri) k = Some x \<longleftrightarrow> x \<in> set (ipList (ri_Remove ip port ri) (fst k)) \<and> rkey x = k" for k x
      using rk Some ri_ok_iff [OF ok, of k x] unfolding f(1,2) by (cases "k = rkey m") auto
  qed
qed

text \<open>A lookup returns an indexed mapping of that address whose block has the port, if there is one.\<close>

theorem ri_Lookup_Some:
  "ri_ok ri \<Longrightarrow> ri_Lookup ip port ri = Some m \<Longrightarrow>
     byBlock ri (rkey m) = Some m \<and> copy4 (mOutsideIP (snd m)) = copy4 ip \<and>
     mPortBlockStart (snd m) \<le> port \<and> port \<le> mPortBlockEnd (snd m)"
  using ri_okD(2,3) [of ri m "copy4 ip"]
  by (auto simp: ri_Lookup_def ipList_def find_Some_iff rkey_def makeReverseKey_def split: option.splits)

theorem ri_Lookup_None:
  "ri_ok ri \<Longrightarrow> ri_Lookup ip port ri = None \<Longrightarrow> byBlock ri (rkey m) = Some m \<Longrightarrow> copy4 (mOutsideIP (snd m)) = copy4 ip \<Longrightarrow>
     \<not> (mPortBlockStart (snd m) \<le> port \<and> port \<le> mPortBlockEnd (snd m))"
  using ri_okD(4) [of ri "rkey m" m]
  by (auto simp: ri_Lookup_def ipList_def find_None_iff rkey_def makeReverseKey_def split: option.splits)

subsection \<open>Excluded addresses\<close>

type_synonym BlacklistManager = "string \<rightharpoonup> string set"

definition bl_Exclude :: "string \<Rightarrow> bytes \<Rightarrow> BlacklistManager \<Rightarrow> BlacklistManager" where
  "bl_Exclude poolName ip bm =
     bm(poolName \<mapsto> insert (ip4String (To4 ip)) (case bm poolName of None \<Rightarrow> {} | Some s \<Rightarrow> s))"

definition bl_Include :: "string \<Rightarrow> bytes \<Rightarrow> BlacklistManager \<Rightarrow> BlacklistManager" where
  "bl_Include poolName ip bm = (case bm poolName of None \<Rightarrow> bm | Some s \<Rightarrow> bm(poolName \<mapsto> s - {ip4String (To4 ip)}))"

definition bl_IsExcluded :: "string \<Rightarrow> bytes \<Rightarrow> BlacklistManager \<Rightarrow> bool" where
  "bl_IsExcluded poolName ip bm \<longleftrightarrow> (case bm poolName of None \<Rightarrow> False | Some s \<Rightarrow> ip4String (To4 ip) \<in> s)"

text \<open>The excluded addresses, from their texts in some order.\<close>

definition bl_GetExcluded :: "string list \<Rightarrow> bytes list" where
  "bl_GetExcluded order = map (\<lambda>s. case ParseIP s of None \<Rightarrow> [] | Some ip \<Rightarrow> To4 ip) order"

lemma To4_To4 [simp]: "To4 (To4 ip) = To4 ip"
  using length_To4 [of ip] by (auto simp: To4_def)

lemma bl_IsExcluded_Exclude:
  assumes "To4 a \<noteq> []" "To4 b \<noteq> []"
  shows "bl_IsExcluded p a (bl_Exclude q b bm) \<longleftrightarrow> bl_IsExcluded p a bm \<or> p = q \<and> To4 a = To4 b"
  using ip4String_inj [of "To4 a" "To4 b"] assms by (auto simp: bl_IsExcluded_def bl_Exclude_def split: option.splits)

lemma bl_IsExcluded_Include:
  assumes "To4 a \<noteq> []" "To4 b \<noteq> []"
  shows "bl_IsExcluded p a (bl_Include q b bm) \<longleftrightarrow> bl_IsExcluded p a bm \<and> \<not> (p = q \<and> To4 a = To4 b)"
  using ip4String_inj [of "To4 a" "To4 b"] assms by (auto simp: bl_IsExcluded_def bl_Include_def split: option.splits)

lemma bl_GetExcluded_Exclude:
  "To4 ip \<noteq> [] \<Longrightarrow> bl_GetExcluded [ip4String (To4 ip)] = [To4 ip]"
proof -
  assume v4: "To4 ip \<noteq> []"
  then have "length (To4 ip) = 4" using length_To4 [of ip] by auto
  then have "To4 (v4InV6Prefix @ To4 ip) = To4 ip" by (simp add: To4_def [of "v4InV6Prefix @ To4 ip"])
  then show ?thesis using ParseIP_ip4String [of "To4 ip"] v4 by (simp add: bl_GetExcluded_def)
qed

subsection \<open>Addresses that bypass translation\<close>

record bypassRule =
  brNetwork :: IPNet
  brVRFID :: u32

text \<open>\<^verbatim>\<open>net.IPNet.String\<close> on an IPv4 network with a contiguous mask, the only networks the component adds.\<close>

definition ipnet4String :: "IPNet \<Rightarrow> string" where
  "ipnet4String n = (case networkNumberAndMask n of (nn, m) \<Rightarrow>
     if nn = [] then ''<nil>'' else ip4String nn @ ''/'' @ decStr (fst (Mask_Size m)))"

definition by_AddPrefix :: "IPNet \<Rightarrow> u32 \<Rightarrow> bypassRule list \<Rightarrow> bypassRule list" where
  "by_AddPrefix prefix vrfID rules =
     (if list_ex (\<lambda>r. ipnet4String (brNetwork r) = ipnet4String prefix \<and> brVRFID r = vrfID) rules then rules
      else rules @ [\<lparr>brNetwork = prefix, brVRFID = vrfID\<rparr>])"

definition host32 :: "bytes \<Rightarrow> IPNet" where
  "host32 ip = \<lparr>nIP = To4 ip, nMask = CIDRMask 32 32\<rparr>"

definition by_AddIP :: "bytes \<Rightarrow> u32 \<Rightarrow> bypassRule list \<Rightarrow> bypassRule list" where
  "by_AddIP ip vrfID rules = (if To4 ip = [] then rules else by_AddPrefix (host32 ip) vrfID rules)"

definition by_RemovePrefix :: "IPNet \<Rightarrow> u32 \<Rightarrow> bypassRule list \<Rightarrow> bypassRule list" where
  "by_RemovePrefix prefix vrfID rules =
     (case firstIdx (\<lambda>r. ipnet4String (brNetwork r) = ipnet4String prefix \<and> brVRFID r = vrfID) rules of
        None \<Rightarrow> rules | Some i \<Rightarrow> take i rules @ drop (Suc i) rules)"

definition by_IsBypassed :: "bytes \<Rightarrow> u32 \<Rightarrow> bypassRule list \<Rightarrow> bool" where
  "by_IsBypassed ip vrfID rules \<longleftrightarrow>
     To4 ip \<noteq> [] \<and> list_ex (\<lambda>r. brVRFID r = vrfID \<and> IPNet_Contains (brNetwork r) (To4 ip)) rules"

definition by_GetAll :: "bypassRule list \<Rightarrow> (string \<times> u32) list" where
  "by_GetAll rules = map (\<lambda>r. (ipnet4String (brNetwork r), brVRFID r)) rules"

text \<open>The rules the component makes: one host network per address, none twice.\<close>

definition by_ok :: "bypassRule list \<Rightarrow> bool" where
  "by_ok rules \<longleftrightarrow> distinct rules \<and> (\<forall>r\<in>set rules. \<exists>ip. length ip = 4 \<and> brNetwork r = host32 ip)"

lemma mask32: "CIDRMask 32 32 = [0xff, 0xff, 0xff, 0xff]"
  by code_simp

lemma host32_fields:
  assumes "length ip = 4"
  shows "networkNumberAndMask (host32 ip) = (ip, [0xff, 0xff, 0xff, 0xff])"
  using assms by (auto simp: networkNumberAndMask_def host32_def mask32 Let_def)

lemma host32_String_inj:
  assumes "length a = 4" "length b = 4"
  shows "ipnet4String (host32 a) = ipnet4String (host32 b) \<longleftrightarrow> a = b"
proof -
  have "ipnet4String (host32 c) = ip4String c @ ''/'' @ decStr (fst (Mask_Size [0xff, 0xff, 0xff, 0xff]))" if "length c = 4" for c
    using that by (auto simp: ipnet4String_def host32_fields)
  moreover have "a \<noteq> []" "b \<noteq> []" using assms by auto
  ultimately show ?thesis using ip4String_inj [of a b] assms by (auto simp: assms)
qed

lemma host32_Contains:
  assumes "length a = 4" "length b = 4"
  shows "IPNet_Contains (host32 a) b \<longleftrightarrow> a = b"
proof -
  obtain a0 a1 a2 a3 b0 b1 b2 b3 where "a = [a0, a1, a2, a3]" "b = [b0, b1, b2, b3]"
    using assms by (auto simp: numeral_eq_Suc length_Suc_conv)
  moreover have "(x :: byte) AND 0xff = x" for x
  proof -
    have "(0xff :: byte) = - 1" by code_simp
    then show ?thesis by (simp only: and.right_neutral)
  qed
  ultimately show ?thesis using assms by (auto simp: IPNet_Contains_def host32_fields)
qed

lemma by_ok_mem:
  assumes "by_ok rules" "length ip = 4"
  shows "by_IsBypassed ip vrf rules \<longleftrightarrow> \<lparr>brNetwork = host32 ip, brVRFID = vrf\<rparr> \<in> set rules"
proof -
  have "ip \<noteq> []" using assms(2) by auto
  then have "by_IsBypassed ip vrf rules \<longleftrightarrow> (\<exists>r\<in>set rules. brVRFID r = vrf \<and> brNetwork r = host32 ip)"
    using assms host32_Contains [OF _ assms(2)] host32_String_inj [OF _ assms(2)]
    unfolding by_ok_def by_IsBypassed_def by (fastforce simp: list_ex_iff)
  then show ?thesis by (metis bypassRule.surjective old.unit.exhaust bypassRule.select_convs)
qed

lemma by_ok_rule:
  assumes "by_ok rules" "length ip = 4" "r \<in> set rules"
  shows "ipnet4String (brNetwork r) = ipnet4String (host32 ip) \<and> brVRFID r = vrf \<longleftrightarrow> r = \<lparr>brNetwork = host32 ip, brVRFID = vrf\<rparr>"
proof -
  obtain a where "length a = 4" "brNetwork r = host32 a" using assms by (auto simp: by_ok_def)
  with host32_String_inj [of a ip] assms(2) show ?thesis by (cases r) auto
qed

theorem by_AddIP_spec:
  assumes "by_ok rules" "length ip = 4"
  shows "by_ok (by_AddIP ip vrf rules)"
    "length a = 4 \<Longrightarrow> by_IsBypassed a v (by_AddIP ip vrf rules) \<longleftrightarrow> by_IsBypassed a v rules \<or> a = ip \<and> v = vrf"
proof -
  have ne: "ip \<noteq> []" using assms(2) by auto
  have ex: "list_ex (\<lambda>r. ipnet4String (brNetwork r) = ipnet4String (host32 ip) \<and> brVRFID r = vrf) rules \<longleftrightarrow>
      \<lparr>brNetwork = host32 ip, brVRFID = vrf\<rparr> \<in> set rules"
    using by_ok_rule [OF assms] by (auto simp: list_ex_iff)
  have add: "by_AddIP ip vrf rules = (if \<lparr>brNetwork = host32 ip, brVRFID = vrf\<rparr> \<in> set rules then rules
      else rules @ [\<lparr>brNetwork = host32 ip, brVRFID = vrf\<rparr>])"
    using ne assms(2) by (simp only: by_AddIP_def by_AddPrefix_def ex To4_len4 if_False simp_thms)
  show ok: "by_ok (by_AddIP ip vrf rules)" using assms by (auto simp: add by_ok_def)
  assume a: "length a = 4"
  have inj: "host32 a = host32 ip \<longleftrightarrow> a = ip" using host32_String_inj [OF a assms(2)] by auto
  show "by_IsBypassed a v (by_AddIP ip vrf rules) \<longleftrightarrow> by_IsBypassed a v rules \<or> a = ip \<and> v = vrf"
    unfolding by_ok_mem [OF ok a] by_ok_mem [OF assms(1) a] by (auto simp: add inj)
qed

theorem by_RemovePrefix_spec:
  assumes "by_ok rules" "length ip = 4"
  shows "by_ok (by_RemovePrefix (host32 ip) vrf rules)"
    "length a = 4 \<Longrightarrow> by_IsBypassed a v (by_RemovePrefix (host32 ip) vrf rules) \<longleftrightarrow> by_IsBypassed a v rules \<and> \<not> (a = ip \<and> v = vrf)"
proof -
  let ?r = "\<lparr>brNetwork = host32 ip, brVRFID = vrf\<rparr>"
  let ?P = "\<lambda>r. ipnet4String (brNetwork r) = ipnet4String (host32 ip) \<and> brVRFID r = vrf"
  have d: "distinct rules" using assms(1) by (simp add: by_ok_def)
  have rem: "distinct (by_RemovePrefix (host32 ip) vrf rules) \<and> set (by_RemovePrefix (host32 ip) vrf rules) = set rules - {?r}"
  proof (cases "firstIdx ?P rules")
    case None
    then have "?r \<notin> set rules" using by_ok_rule [OF assms, of ?r vrf] by (auto simp: firstIdx_None)
    then show ?thesis using None d by (simp add: by_RemovePrefix_def)
  next
    case (Some i)
    note fi = firstIdx_Some [OF Some]
    have "rules ! i = ?r" using by_ok_rule [OF assms, of "rules ! i" vrf] fi by simp
    with take_drop_distinct [of "\<lambda>x. x" rules i] d fi Some show ?thesis by (auto simp: by_RemovePrefix_def)
  qed
  show ok: "by_ok (by_RemovePrefix (host32 ip) vrf rules)" using assms(1) rem by (auto simp: by_ok_def)
  assume a: "length a = 4"
  have inj: "host32 a = host32 ip \<longleftrightarrow> a = ip" using host32_String_inj [OF a assms(2)] by auto
  show "by_IsBypassed a v (by_RemovePrefix (host32 ip) vrf rules) \<longleftrightarrow> by_IsBypassed a v rules \<and> \<not> (a = ip \<and> v = vrf)"
    unfolding by_ok_mem [OF ok a] by_ok_mem [OF assms(1) a] using rem by (auto simp: inj)
qed

end
