(* ===== verification/CGNAT_Component.thy ===== *)
theory CGNAT_Component
  imports CGNAT_Index
begin

section \<open>Sessions and their translations\<close>

text \<open>
  \<^verbatim>\<open>internal/cgnat/component.go\<close>: session events activate and release the port block of a subscriber. A call to
  the dataplane that completes later is an entry of \<open>inflight\<close>, with what its callback closes over; \<open>complete\<close> runs
  the callback with the dataplane's answer. So the callbacks interleave with other events in any order. The running
  configuration, the order in which a map is visited and the answers of the dataplane's synchronous calls are
  arguments. What the operational database returns for a mapping is what JSON makes of it: the addresses come back
  in the 16-byte form.
\<close>

subsection \<open>Events and configuration\<close>

datatype AccessType = AccessTypeIPoE | AccessTypePPPoE | AccessTypeL2TP | AccessTypeOther
datatype SessState = SessStateActive | SessStateReleased | SessStateOther

record sessInfo =
  siID :: string
  siIPv4 :: bytes
  siVRF :: string
  siIfIndex :: u32
  siGroup :: string
  siSRG :: string

datatype cgSession = IPoESession sessInfo | PPPSession sessInfo | OtherSession sessInfo | NoSession

record SessionLifecycleEvent =
  leAccess :: AccessType
  leDHCPv6 :: bool
  leSessionID :: string
  leState :: SessState
  leSession :: cgSession

datatype cgEvent = LifecycleData SessionLifecycleEvent | RestoredData AccessType bool string cgSession | OtherData
datatype queuedEventKind = QLifecycle | QProgrammed | QRestored

record sgCGNAT =
  sgBypass :: bool
  sgPolicy :: string

record cgRunning =
  rPools :: "string \<rightharpoonup> cgPool option"
  rServiceGroups :: "string \<rightharpoonup> sgCGNAT option"

subsection \<open>The component\<close>

datatype dpCall =
    SubscriberMapping u32 u32 bytes bytes u16 u16 bool
  | EnableOnSession u32 u32 bool
  | Bypass bytes bool

text \<open>The callbacks: of an activation, of a mapping taken over from the peer, and of a removal.\<close>

datatype cgCont =
    ContPBA string string bytes CGNATMapping string
  | ContSynced string string CGNATMapping string
  | ContRemove string CGNATMapping

record cgComp =
  cPools :: PoolManager
  cReverse :: ReverseIndex
  cBypass :: "bypassRule list"
  poolIDMap :: "string \<rightharpoonup> u32"
  sessionPoolMap :: "string \<rightharpoonup> string"
  activations :: "string set"
  pendingEvents :: "(queuedEventKind \<times> cgEvent) list"
  queueDrained :: bool
  queueDropped :: nat
  restoreDegraded :: bool
  restoreFailedIDs :: "string list"
  hasOpdb :: bool
  opdbMappings :: "string \<rightharpoonup> CGNATMapping"
  opdbSynced :: "string \<rightharpoonup> CGNATMapping"
  inflight :: "cgCont list"
  dpTrace :: "dpCall list"
  published :: "(string \<times> CGNATMapping \<times> bool) list"
  nextPtr :: nat

definition poolIDOf :: "cgComp \<Rightarrow> string \<Rightarrow> u32" where
  "poolIDOf c name = (case poolIDMap c name of None \<Rightarrow> 0 | Some i \<Rightarrow> i)"

text \<open>\<^verbatim>\<open>net.IP\<close> through JSON: written as text, read with \<^verbatim>\<open>ParseIP\<close>.\<close>

definition jsonIP :: "bytes \<Rightarrow> bytes" where
  "jsonIP ip = (if ip = [] then [] else case ParseIP (ip4String ip) of None \<Rightarrow> [] | Some ip' \<Rightarrow> ip')"

definition jsonMapping :: "CGNATMapping \<Rightarrow> CGNATMapping" where
  "jsonMapping m = m\<lparr>mInsideIP := jsonIP (mInsideIP m), mOutsideIP := jsonIP (mOutsideIP m)\<rparr>"

subsection \<open>The activation guard\<close>

definition beginActivation :: "string \<Rightarrow> cgComp \<Rightarrow> bool \<times> cgComp" where
  "beginActivation sid c =
     (if sessionPoolMap c sid \<noteq> None then (False, c)
      else if sid \<in> activations c then (False, c)
      else (True, c\<lparr>activations := insert sid (activations c)\<rparr>))"

definition doneAct :: "string \<Rightarrow> cgComp \<Rightarrow> cgComp" where
  "doneAct sid c = c\<lparr>activations := activations c - {sid}\<rparr>"

definition publishMappingEvent :: "string \<Rightarrow> CGNATMapping \<Rightarrow> bool \<Rightarrow> cgComp \<Rightarrow> cgComp" where
  "publishMappingEvent srg m isAdd c = c\<lparr>published := published c @ [(srg, m, isAdd)]\<rparr>"

definition addReverse :: "CGNATMapping \<Rightarrow> cgComp \<Rightarrow> cgComp" where
  "addReverse m c = c\<lparr>cReverse := ri_Add (nextPtr c, m) (cReverse c), nextPtr := Suc (nextPtr c)\<rparr>"

definition commitMapping :: "string \<Rightarrow> string \<Rightarrow> CGNATMapping \<Rightarrow> string \<Rightarrow> bool \<Rightarrow> cgComp \<Rightarrow> cgComp" where
  "commitMapping sid poolName m srg persist c =
     (let c = c\<lparr>sessionPoolMap := (sessionPoolMap c)(sid \<mapsto> poolName)\<rparr>;
          c = addReverse m c;
          c = (if persist \<and> hasOpdb c then c\<lparr>opdbMappings := (opdbMappings c)(sid \<mapsto> jsonMapping m)\<rparr> else c)
      in publishMappingEvent srg m True c)"

subsection \<open>Classification\<close>

datatype classification = ClassNone | ClassBypass | ClassDeterministic string | ClassPBA string

definition classifySession :: "string list \<Rightarrow> cgRunning option \<Rightarrow> string \<Rightarrow> bytes \<Rightarrow> string \<Rightarrow> cgComp \<Rightarrow> classification" where
  "classifySession order cfg grp insideIP vrfName c =
     (case cfg of None \<Rightarrow> ClassNone
      | Some cfg \<Rightarrow>
         (let byPrefix =
                (let poolName = FindPoolForIP order insideIP vrfName (cPools c) in
                 if poolName = '''' then ClassNone
                 else (case rPools cfg poolName of None \<Rightarrow> ClassNone
                   | Some None \<Rightarrow> ClassNone
                   | Some (Some pool) \<Rightarrow>
                      if GetMode pool = ''deterministic'' then ClassDeterministic poolName else ClassPBA poolName))
          in if grp = '''' then byPrefix
             else (case rServiceGroups cfg grp of
                 Some (Some sg) \<Rightarrow>
                   if sgBypass sg then ClassBypass
                   else if sgPolicy sg \<noteq> '''' \<and> rPools cfg (sgPolicy sg) \<noteq> None then ClassPBA (sgPolicy sg)
                   else byPrefix
               | _ \<Rightarrow> byPrefix)))"

subsection \<open>Activation\<close>

text \<open>\<^term>\<open>None\<close> when there is nothing to take over from the peer.\<close>

definition tryRestoreSyncedMapping :: "string \<Rightarrow> u32 \<Rightarrow> string \<Rightarrow> string \<Rightarrow> cgComp \<Rightarrow> cgComp option" where
  "tryRestoreSyncedMapping sid sw poolName srg c =
     (if \<not> hasOpdb c then None
      else (case opdbSynced c sid of None \<Rightarrow> None
        | Some m \<Rightarrow>
           (let m = m\<lparr>mSwIfIndex := sw, mSessionID := sid\<rparr> in
            case RestoreMappingIfAbsent m (cPools c) of
              (Inl _, _) \<Rightarrow> None
            | (Inr _, pm) \<Rightarrow>
               Some (c\<lparr>cPools := pm, inflight := inflight c @ [ContSynced sid poolName m srg],
                 dpTrace := dpTrace c @ [SubscriberMapping (poolIDOf c poolName) sw (mInsideIP m) (mOutsideIP m)
                   (mPortBlockStart m) (mPortBlockEnd m) True]\<rparr>))))"

definition handlePBAActivate :: "string \<Rightarrow> bytes \<Rightarrow> u32 \<Rightarrow> string \<Rightarrow> string \<Rightarrow> cgComp \<Rightarrow> cgComp" where
  "handlePBAActivate poolName insideIP sw sid srg c =
     (case tryRestoreSyncedMapping sid sw poolName srg c of Some c' \<Rightarrow> c'
      | None \<Rightarrow>
         (case GetOrAllocate poolName insideIP 0 sw (cPools c) of
            (Inl _, pm) \<Rightarrow> doneAct sid (c\<lparr>cPools := pm\<rparr>)
          | (Inr (m, isNew), pm) \<Rightarrow>
             (let c = c\<lparr>cPools := pm\<rparr>; m = m\<lparr>mSessionID := sid\<rparr> in
              if \<not> isNew then doneAct sid (commitMapping sid poolName m srg False c)
              else c\<lparr>inflight := inflight c @ [ContPBA sid poolName insideIP m srg],
                 dpTrace := dpTrace c @ [SubscriberMapping (poolIDOf c poolName) sw insideIP (mOutsideIP m)
                   (mPortBlockStart m) (mPortBlockEnd m) True]\<rparr>)))"

definition handleDetActivate :: "string \<Rightarrow> u32 \<Rightarrow> cgComp \<Rightarrow> cgComp" where
  "handleDetActivate poolName sw c = (case poolIDMap c poolName of None \<Rightarrow> c
     | Some i \<Rightarrow> c\<lparr>dpTrace := dpTrace c @ [EnableOnSession i sw True]\<rparr>)"

text \<open>\<open>dpOK\<close> is the answer of the dataplane for an address.\<close>

definition handleBypass :: "(bytes \<Rightarrow> bool) \<Rightarrow> bytes \<Rightarrow> cgComp \<Rightarrow> cgComp" where
  "handleBypass dpOK insideIP c =
     (let c = c\<lparr>dpTrace := dpTrace c @ [Bypass (To4 insideIP) True]\<rparr> in
      if dpOK insideIP then c\<lparr>cBypass := by_AddIP insideIP 0 (cBypass c)\<rparr> else c)"

text \<open>The typed session an event carries, when its type is the one the access type says.\<close>

fun eventSession :: "AccessType \<Rightarrow> cgSession \<Rightarrow> sessInfo option" where
  "eventSession AccessTypeIPoE (IPoESession s) = Some s"
| "eventSession AccessTypePPPoE (PPPSession s) = Some s"
| "eventSession _ _ = None"

definition handleSessionActivate ::
  "string list \<Rightarrow> cgRunning option \<Rightarrow> (bytes \<Rightarrow> bool) \<Rightarrow> SessionLifecycleEvent \<Rightarrow> cgComp \<Rightarrow> cgComp" where
  "handleSessionActivate order cfg dpOK data c =
     (let sid = leSessionID data in
      case beginActivation sid c of (False, c) \<Rightarrow> c
      | (True, c) \<Rightarrow>
         (case eventSession (leAccess data) (leSession data) of None \<Rightarrow> doneAct sid c
          | Some s \<Rightarrow>
             if To4 (siIPv4 s) = [] then doneAct sid c
             else (case classifySession order cfg (siGroup s) (siIPv4 s) (siVRF s) c of
                 ClassBypass \<Rightarrow> doneAct sid (handleBypass dpOK (siIPv4 s) c)
               | ClassDeterministic poolName \<Rightarrow> doneAct sid (handleDetActivate poolName (siIfIndex s) c)
               | ClassPBA poolName \<Rightarrow> handlePBAActivate poolName (siIPv4 s) (siIfIndex s) sid (siSRG s) c
               | ClassNone \<Rightarrow> doneAct sid c)))"

subsection \<open>Release\<close>

fun releaseMappings :: "u32 \<Rightarrow> u32 \<Rightarrow> bytes \<Rightarrow> string \<Rightarrow> CGNATMapping list \<Rightarrow> cgComp \<Rightarrow> cgComp" where
  "releaseMappings pid sw insideIP srg [] c = c"
| "releaseMappings pid sw insideIP srg (m # ms) c =
     releaseMappings pid sw insideIP srg ms
       (c\<lparr>inflight := inflight c @ [ContRemove srg m],
          dpTrace := dpTrace c @ [SubscriberMapping pid sw insideIP (mOutsideIP m) (mPortBlockStart m) (mPortBlockEnd m) False],
          cReverse := ri_Remove (mOutsideIP m) (mPortBlockStart m) (cReverse c)\<rparr>)"

definition handleSessionRelease :: "cgRunning option \<Rightarrow> SessionLifecycleEvent \<Rightarrow> cgComp \<Rightarrow> cgComp" where
  "handleSessionRelease cfg data c =
     (case eventSession (leAccess data) (leSession data) of None \<Rightarrow> c
      | Some s \<Rightarrow>
         (let sid = leSessionID data; insideIP = siIPv4 s in
          if To4 insideIP = [] then c
          else if (case cfg of None \<Rightarrow> False
              | Some cfg \<Rightarrow> siGroup s \<noteq> '''' \<and> (case rServiceGroups cfg (siGroup s) of
                    Some (Some sg) \<Rightarrow> sgBypass sg | _ \<Rightarrow> False))
          then c\<lparr>dpTrace := dpTrace c @ [Bypass (To4 insideIP) False], cBypass := by_RemovePrefix (host32 insideIP) 0 (cBypass c)\<rparr>
          else (case sessionPoolMap c sid of
              None \<Rightarrow> c\<lparr>dpTrace := dpTrace c @ [EnableOnSession 0 (siIfIndex s) False]\<rparr>
            | Some poolName \<Rightarrow>
               (let ms = GetMappings poolName insideIP 0 (cPools c) in
                if ms = [] then c\<lparr>sessionPoolMap := (sessionPoolMap c)(sid := None)\<rparr>
                else (let c = releaseMappings (poolIDOf c poolName) (siIfIndex s) insideIP (siSRG s) ms c;
                          c = c\<lparr>cPools := snd (ReleaseBlocks poolName insideIP 0 (cPools c))\<rparr>;
                          c = c\<lparr>sessionPoolMap := (sessionPoolMap c)(sid := None)\<rparr>
                      in if hasOpdb c then c\<lparr>opdbMappings := (opdbMappings c)(sid := None)\<rparr> else c)))))"

subsection \<open>Callbacks\<close>

fun callback :: "bool \<Rightarrow> cgCont \<Rightarrow> cgComp \<Rightarrow> cgComp" where
  "callback ok (ContPBA sid poolName insideIP m srg) c =
     (if \<not> ok then doneAct sid (c\<lparr>cPools := snd (ReleaseBlocks poolName insideIP 0 (cPools c))\<rparr>)
      else doneAct sid (commitMapping sid poolName m srg True c))"
| "callback ok (ContSynced sid poolName m srg) c =
     (if \<not> ok then doneAct sid (c\<lparr>cPools := snd (ReleaseBlocks poolName (mInsideIP m) 0 (cPools c))\<rparr>)
      else (let c = commitMapping sid poolName m srg True c;
                c = (if hasOpdb c then c\<lparr>opdbSynced := (opdbSynced c)(sid := None)\<rparr> else c)
            in doneAct sid c))"
| "callback ok (ContRemove srg m) c = (if ok then publishMappingEvent srg m False c else c)"

definition complete :: "nat \<Rightarrow> bool \<Rightarrow> cgComp \<Rightarrow> cgComp" where
  "complete i ok c = (if i < length (inflight c)
     then callback ok (inflight c ! i) (c\<lparr>inflight := take i (inflight c) @ drop (Suc i) (inflight c)\<rparr>) else c)"

subsection \<open>Events\<close>

definition dispatchLifecycle :: "string list \<Rightarrow> cgRunning option \<Rightarrow> (bytes \<Rightarrow> bool) \<Rightarrow> cgEvent \<Rightarrow> cgComp \<Rightarrow> cgComp" where
  "dispatchLifecycle order cfg dpOK ev c = (case ev of
       LifecycleData data \<Rightarrow>
         (case leState data of
            SessStateActive \<Rightarrow>
              if leAccess data = AccessTypePPPoE \<or> leAccess data = AccessTypeIPoE then c
              else if leDHCPv6 data then c
              else handleSessionActivate order cfg dpOK data c
          | SessStateReleased \<Rightarrow> handleSessionRelease cfg data c
          | SessStateOther \<Rightarrow> c)
     | _ \<Rightarrow> c)"

definition dispatchProgrammed :: "string list \<Rightarrow> cgRunning option \<Rightarrow> (bytes \<Rightarrow> bool) \<Rightarrow> cgEvent \<Rightarrow> cgComp \<Rightarrow> cgComp" where
  "dispatchProgrammed order cfg dpOK ev c =
     (case ev of LifecycleData data \<Rightarrow> handleSessionActivate order cfg dpOK data c | _ \<Rightarrow> c)"

definition dispatchRestored :: "string list \<Rightarrow> cgRunning option \<Rightarrow> (bytes \<Rightarrow> bool) \<Rightarrow> cgEvent \<Rightarrow> cgComp \<Rightarrow> cgComp" where
  "dispatchRestored order cfg dpOK ev c = (case ev of
       RestoredData acc dhcp6 sid sess \<Rightarrow>
         handleSessionActivate order cfg dpOK
           \<lparr>leAccess = acc, leDHCPv6 = dhcp6, leSessionID = sid, leState = SessStateActive, leSession = sess\<rparr> c
     | _ \<Rightarrow> c)"

definition dispatchKind :: "queuedEventKind \<Rightarrow> string list \<Rightarrow> cgRunning option \<Rightarrow> (bytes \<Rightarrow> bool) \<Rightarrow> cgEvent \<Rightarrow> cgComp \<Rightarrow> cgComp" where
  "dispatchKind k = (case k of QLifecycle \<Rightarrow> dispatchLifecycle | QProgrammed \<Rightarrow> dispatchProgrammed | QRestored \<Rightarrow> dispatchRestored)"

definition eventQueueBound :: nat where
  "eventQueueBound = 4096"

definition markRestoreDegraded :: "string \<Rightarrow> cgComp \<Rightarrow> cgComp" where
  "markRestoreDegraded sid c = c\<lparr>restoreDegraded := True,
     restoreFailedIDs := (if sid \<noteq> '''' then restoreFailedIDs c @ [sid] else restoreFailedIDs c)\<rparr>"

definition maybeEnqueue :: "queuedEventKind \<Rightarrow> cgEvent \<Rightarrow> cgComp \<Rightarrow> bool \<times> cgComp" where
  "maybeEnqueue kind ev c =
     (if queueDrained c then (False, c)
      else if eventQueueBound \<le> length (pendingEvents c)
      then (True, markRestoreDegraded ''event_queue_overflow'' (c\<lparr>queueDropped := Suc (queueDropped c)\<rparr>))
      else (True, c\<lparr>pendingEvents := pendingEvents c @ [(kind, ev)]\<rparr>))"

text \<open>\<^verbatim>\<open>handleSessionLifecycle\<close>, \<^verbatim>\<open>handleSessionProgrammed\<close> and \<^verbatim>\<open>handleSessionRestored\<close>.\<close>

definition handleEvent ::
  "queuedEventKind \<Rightarrow> string list \<Rightarrow> cgRunning option \<Rightarrow> (bytes \<Rightarrow> bool) \<Rightarrow> cgEvent \<Rightarrow> cgComp \<Rightarrow> cgComp" where
  "handleEvent kind order cfg dpOK ev c =
     (case maybeEnqueue kind ev c of (True, c) \<Rightarrow> c | (False, c) \<Rightarrow> dispatchKind kind order cfg dpOK ev c)"

fun dispatchAll :: "string list \<Rightarrow> cgRunning option \<Rightarrow> (bytes \<Rightarrow> bool) \<Rightarrow> (queuedEventKind \<times> cgEvent) list \<Rightarrow> cgComp \<Rightarrow> cgComp" where
  "dispatchAll order cfg dpOK [] c = c"
| "dispatchAll order cfg dpOK ((k, ev) # q) c = dispatchAll order cfg dpOK q (dispatchKind k order cfg dpOK ev c)"

definition drainQueue :: "string list \<Rightarrow> cgRunning option \<Rightarrow> (bytes \<Rightarrow> bool) \<Rightarrow> cgComp \<Rightarrow> cgComp" where
  "drainQueue order cfg dpOK c =
     dispatchAll order cfg dpOK (pendingEvents c) (c\<lparr>pendingEvents := [], queueDrained := True\<rparr>)"

subsection \<open>Restoring after a restart\<close>

text \<open>
  What the component asks its neighbours during a restore: the subscriber component's snapshot of a session, the
  session keys the access protocols have in the database, all sessions (or an error), and the answers of the bulk
  call per pool: an error of the whole call or one answer per mapping.
\<close>

record restoreEnv =
  snapshot :: "string \<rightharpoonup> sessInfo"
  accessKnown :: "string set"
  allSessions :: "cgSession list option"
  bulkAnswer :: "u32 \<Rightarrow> (string \<times> CGNATMapping) list \<Rightarrow> bool list option"

definition resolveIfIndex :: "restoreEnv \<Rightarrow> string \<Rightarrow> u32 option" where
  "resolveIfIndex env sid = (case snapshot env sid of None \<Rightarrow> None
     | Some s \<Rightarrow> if siIfIndex s = 0 then None else Some (siIfIndex s))"

definition hasAccessRecord :: "restoreEnv \<Rightarrow> string \<Rightarrow> bool" where
  "hasAccessRecord env sid \<longleftrightarrow> sid \<in> accessKnown env"

type_synonym restoreBatch = "u32 \<Rightarrow> (string \<times> CGNATMapping) list"

definition addBatch :: "u32 \<Rightarrow> string \<Rightarrow> CGNATMapping \<Rightarrow> restoreBatch \<Rightarrow> restoreBatch" where
  "addBatch pid sid m b = b(pid := b pid @ [(sid, m)])"

text \<open>The callback of the first pass over the stored mappings: program, keep for a retry, or clean up.\<close>

definition restoreEntry ::
  "restoreEnv \<Rightarrow> string \<Rightarrow> CGNATMapping \<Rightarrow> restoreBatch \<times> CGNATMapping list \<times> cgComp
     \<Rightarrow> restoreBatch \<times> CGNATMapping list \<times> cgComp" where
  "restoreEntry env key stored = (\<lambda>(toProgram, toOrphan, c).
     (let m = stored\<lparr>mSessionID := key\<rparr> in
      case resolveIfIndex env key of
        None \<Rightarrow>
          if hasAccessRecord env key then
            (let c = (case RestoreMappingIfAbsent m (cPools c) of
                  (Inl _, _) \<Rightarrow> c | (Inr _, pm) \<Rightarrow> addReverse m (c\<lparr>cPools := pm\<rparr>))
             in (toProgram, toOrphan, markRestoreDegraded key c))
          else (toProgram, toOrphan @ [m], c)
      | Some sw \<Rightarrow>
         (let m = m\<lparr>mSwIfIndex := sw\<rparr> in
          case poolIDMap c (mPoolName m) of None \<Rightarrow> (toProgram, toOrphan @ [m], c)
          | Some pid \<Rightarrow> (addBatch pid key m toProgram, toOrphan, c))))"

fun restoreScan ::
  "restoreEnv \<Rightarrow> string list \<Rightarrow> restoreBatch \<times> CGNATMapping list \<times> cgComp \<Rightarrow> restoreBatch \<times> CGNATMapping list \<times> cgComp" where
  "restoreScan env [] acc = acc"
| "restoreScan env (key # keys) acc = restoreScan env keys
     (case opdbMappings (snd (snd acc)) key of None \<Rightarrow> acc | Some m \<Rightarrow> restoreEntry env key m acc)"

definition commitRestoredPBA :: "CGNATMapping \<Rightarrow> cgComp \<Rightarrow> cgComp" where
  "commitRestoredPBA m c =
     (let c = c\<lparr>cPools := snd (RestoreMappingIfAbsent m (cPools c))\<rparr>;
          c = addReverse m c;
          c = c\<lparr>sessionPoolMap := (sessionPoolMap c)(mSessionID m \<mapsto> mPoolName m)\<rparr>
      in c\<lparr>opdbMappings := (opdbMappings c)(mSessionID m \<mapsto> jsonMapping m)\<rparr>)"

fun commitBatch :: "((string \<times> CGNATMapping) \<times> bool) list \<Rightarrow> cgComp \<Rightarrow> cgComp" where
  "commitBatch [] c = c"
| "commitBatch (((sid, m), ok) # rs) c =
     commitBatch rs (if ok then commitRestoredPBA m c else markRestoreDegraded sid c)"

fun programBatches :: "restoreEnv \<Rightarrow> restoreBatch \<Rightarrow> u32 list \<Rightarrow> cgComp \<Rightarrow> cgComp" where
  "programBatches env b [] c = c"
| "programBatches env b (pid # pids) c = programBatches env b pids
     (case bulkAnswer env pid (b pid) of
        None \<Rightarrow> foldl (\<lambda>c (sid, _). markRestoreDegraded sid c) c (b pid)
      | Some oks \<Rightarrow> commitBatch (zip (b pid) oks) c)"

definition deleteOrphan :: "CGNATMapping \<Rightarrow> cgComp \<Rightarrow> cgComp" where
  "deleteOrphan m c = c\<lparr>opdbMappings := (opdbMappings c)(mSessionID m := None)\<rparr>"

fun sessOf :: "cgSession \<Rightarrow> sessInfo option" where
  "sessOf (IPoESession s) = Some s"
| "sessOf (PPPSession s) = Some s"
| "sessOf (OtherSession s) = Some (s\<lparr>siVRF := ''''\<rparr>)"
| "sessOf NoSession = None"

text \<open>
  The second pass: sessions without a committed mapping are activated. A session that the first pass has committed
  is skipped by the same test, since a commit enters the session map.
\<close>

definition scanSession :: "string list \<Rightarrow> cgRunning option \<Rightarrow> (bytes \<Rightarrow> bool) \<Rightarrow> sessInfo \<Rightarrow> cgComp \<Rightarrow> cgComp" where
  "scanSession order cfg dpOK s c =
     (let sid = siID s in
      if sid = '''' \<or> sessionPoolMap c sid \<noteq> None \<or> To4 (siIPv4 s) = [] then c
      else (case classifySession order cfg (siGroup s) (siIPv4 s) (siVRF s) c of
          ClassBypass \<Rightarrow> (case beginActivation sid c of (False, c) \<Rightarrow> c | (True, c) \<Rightarrow> doneAct sid (handleBypass dpOK (siIPv4 s) c))
        | ClassDeterministic p \<Rightarrow> (case beginActivation sid c of (False, c) \<Rightarrow> c
            | (True, c) \<Rightarrow> doneAct sid (handleDetActivate p (siIfIndex s) c))
        | ClassPBA p \<Rightarrow> (case beginActivation sid c of (False, c) \<Rightarrow> c
            | (True, c) \<Rightarrow> handlePBAActivate p (siIPv4 s) (siIfIndex s) sid (siSRG s) c)
        | ClassNone \<Rightarrow> c))"

definition scanNonPBASessions ::
  "restoreEnv \<Rightarrow> string list \<Rightarrow> cgRunning option \<Rightarrow> (bytes \<Rightarrow> bool) \<Rightarrow> cgComp \<Rightarrow> cgComp" where
  "scanNonPBASessions env order cfg dpOK c = (case allSessions env of None \<Rightarrow> c
     | Some ss \<Rightarrow> foldl (\<lambda>c s. case sessOf s of None \<Rightarrow> c | Some i \<Rightarrow> scanSession order cfg dpOK i c) c ss)"

definition restoreFromOpDB ::
  "restoreEnv \<Rightarrow> string list \<Rightarrow> u32 list \<Rightarrow> string list \<Rightarrow> cgRunning option \<Rightarrow> (bytes \<Rightarrow> bool) \<Rightarrow> cgComp \<Rightarrow> cgComp" where
  "restoreFromOpDB env keys pids order cfg dpOK c =
     (if \<not> hasOpdb c then c
      else (case restoreScan env keys (\<lambda>_. [], [], c) of (toProgram, toOrphan, c) \<Rightarrow>
        foldl (\<lambda>c m. deleteOrphan m c) (scanNonPBASessions env order cfg dpOK (programBatches env toProgram pids c)) toOrphan))"

subsection \<open>Reprogramming a restarted dataplane\<close>

definition recoverEntry :: "restoreEnv \<Rightarrow> cgComp \<Rightarrow> restoreBatch \<Rightarrow> string \<times> CGNATMapping \<Rightarrow> restoreBatch" where
  "recoverEntry env c toProgram = (\<lambda>(key, stored). case resolveIfIndex env key of None \<Rightarrow> toProgram
     | Some sw \<Rightarrow> (case poolIDMap c (mPoolName stored) of None \<Rightarrow> toProgram
       | Some pid \<Rightarrow> addBatch pid key (stored\<lparr>mSessionID := key, mSwIfIndex := sw\<rparr>) toProgram))"

fun recoverBatch :: "((string \<times> CGNATMapping) \<times> bool) list \<Rightarrow> cgComp \<Rightarrow> cgComp" where
  "recoverBatch [] c = c"
| "recoverBatch (((sid, m), ok) # rs) c =
     recoverBatch rs (if ok then c\<lparr>opdbMappings := (opdbMappings c)(sid \<mapsto> jsonMapping m)\<rparr> else markRestoreDegraded sid c)"

fun recoverBatches :: "restoreEnv \<Rightarrow> restoreBatch \<Rightarrow> u32 list \<Rightarrow> cgComp \<Rightarrow> cgComp" where
  "recoverBatches env b [] c = c"
| "recoverBatches env b (pid # pids) c = recoverBatches env b pids
     (case bulkAnswer env pid (b pid) of
        None \<Rightarrow> foldl (\<lambda>c (sid, _). markRestoreDegraded sid c) c (b pid)
      | Some oks \<Rightarrow> recoverBatch (zip (b pid) oks) c)"

definition scanNonPBASessionsForRecover ::
  "restoreEnv \<Rightarrow> string list \<Rightarrow> cgRunning option \<Rightarrow> (bytes \<Rightarrow> bool) \<Rightarrow> cgComp \<Rightarrow> cgComp" where
  "scanNonPBASessionsForRecover env order cfg dpOK c = (case allSessions env of None \<Rightarrow> c
     | Some ss \<Rightarrow> foldl (\<lambda>c s. case sessOf s of None \<Rightarrow> c
         | Some i \<Rightarrow>
            if To4 (siIPv4 i) = [] then c
            else (case classifySession order cfg (siGroup i) (siIPv4 i) (siVRF i) c of
                ClassBypass \<Rightarrow> handleBypass dpOK (siIPv4 i) c
              | ClassDeterministic p \<Rightarrow> handleDetActivate p (siIfIndex i) c
              | _ \<Rightarrow> c)) c ss)"

definition RecoverDataplane ::
  "restoreEnv \<Rightarrow> string list \<Rightarrow> u32 list \<Rightarrow> string list \<Rightarrow> cgRunning option \<Rightarrow> (bytes \<Rightarrow> bool) \<Rightarrow> cgComp \<Rightarrow> cgComp" where
  "RecoverDataplane env keys pids order cfg dpOK c =
     (if \<not> hasOpdb c then c
      else (let c = c\<lparr>restoreDegraded := False, restoreFailedIDs := []\<rparr>;
                stored = List.map_filter (\<lambda>k. map_option (Pair k) (opdbMappings c k)) keys;
                toProgram = foldl (recoverEntry env c) (\<lambda>_. []) stored
            in scanNonPBASessionsForRecover env order cfg dpOK (recoverBatches env toProgram pids c)))"

subsection \<open>One activation at a time\<close>

text \<open>
  The comment of \<^verbatim>\<open>beginActivation\<close>: \<^verbatim>\<open>done\<close> is called exactly once on the proceed path. In every state
  between two steps, the sessions marked as being activated are those of the callbacks that are still to run, each
  has one such callback, and none of them has a committed mapping.
\<close>

fun contSid :: "cgCont \<Rightarrow> string option" where
  "contSid (ContPBA sid _ _ _ _) = Some sid"
| "contSid (ContSynced sid _ _ _) = Some sid"
| "contSid (ContRemove _ _) = None"

abbreviation actives :: "cgComp \<Rightarrow> string list" where
  "actives c \<equiv> List.map_filter contSid (inflight c)"

definition guard_inv :: "cgComp \<Rightarrow> bool" where
  "guard_inv c \<longleftrightarrow> distinct (actives c) \<and> set (actives c) = activations c \<and>
     (\<forall>sid\<in>activations c. sessionPoolMap c sid = None)"

text \<open>The state of a session between \<^verbatim>\<open>beginActivation\<close> and its \<^verbatim>\<open>done\<close>.\<close>

definition guard_open :: "string \<Rightarrow> cgComp \<Rightarrow> bool" where
  "guard_open sid c \<longleftrightarrow> distinct (actives c) \<and> sid \<in> activations c \<and> sid \<notin> set (actives c) \<and>
     activations c = insert sid (set (actives c)) \<and> (\<forall>s\<in>set (actives c). sessionPoolMap c s = None)"

lemma map_filter_append [simp]: "List.map_filter f (xs @ ys) = List.map_filter f xs @ List.map_filter f ys"
  by (simp add: List.map_filter_def)

lemma map_filter_simps' [simp]: "List.map_filter f [] = []"
  "List.map_filter f (x # xs) = (case f x of None \<Rightarrow> List.map_filter f xs | Some y \<Rightarrow> y # List.map_filter f xs)"
  by (simp_all add: List.map_filter_def split: option.splits)

lemma distinct_count: "distinct xs \<Longrightarrow> count_list xs x = (if x \<in> set xs then 1 else 0)"
  by (induction xs) auto

lemma guard_done: "guard_open sid c \<Longrightarrow> guard_inv (doneAct sid c)"
  by (auto simp: guard_open_def guard_inv_def doneAct_def)

lemma guard_begin: "guard_inv c \<Longrightarrow> beginActivation sid c = (True, c') \<Longrightarrow> guard_open sid c' \<and> sessionPoolMap c' sid = None"
  by (auto simp: guard_open_def guard_inv_def beginActivation_def split: if_splits)

lemma commit_frame [simp]:
  "activations (commitMapping sid p m srg b c) = activations c" "inflight (commitMapping sid p m srg b c) = inflight c"
  "sessionPoolMap (commitMapping sid p m srg b c) = (sessionPoolMap c)(sid \<mapsto> p)"
  "cPools (commitMapping sid p m srg b c) = cPools c" "opdbSynced (commitMapping sid p m srg b c) = opdbSynced c"
  "dpTrace (commitMapping sid p m srg b c) = dpTrace c"
  by (simp_all add: commitMapping_def addReverse_def publishMappingEvent_def Let_def)

lemma guard_commit: "guard_open sid c \<Longrightarrow> guard_open sid (commitMapping sid p m srg b c)"
  by (auto simp: guard_open_def)

lemma guard_PBA:
  assumes g: "guard_open sid c" and s: "sessionPoolMap c sid = None"
  shows "guard_inv (handlePBAActivate p ip sw sid srg c)"
proof (cases "tryRestoreSyncedMapping sid sw p srg c")
  case (Some c')
  then obtain pm m t where "c' = c\<lparr>cPools := pm, inflight := inflight c @ [ContSynced sid p m srg], dpTrace := t\<rparr>"
    by (auto simp: tryRestoreSyncedMapping_def Let_def split: if_splits option.splits prod.splits sum.splits)
  then show ?thesis using g s Some by (auto simp: guard_open_def guard_inv_def handlePBAActivate_def)
next
  case None
  obtain r pm where r: "GetOrAllocate p ip 0 sw (cPools c) = (r, pm)" by (cases "GetOrAllocate p ip 0 sw (cPools c)")
  have o: "guard_open sid (c\<lparr>cPools := pm\<rparr>)" using g by (simp add: guard_open_def)
  show ?thesis
  proof (cases r)
    case (Inl e)
    then show ?thesis using guard_done [OF o] None r by (simp add: handlePBAActivate_def)
  next
    case (Inr mi)
    obtain m isNew where mi: "mi = (m, isNew)" by (cases mi)
    show ?thesis
    proof (cases isNew)
      case True
      then show ?thesis using g s None r Inr mi by (auto simp: handlePBAActivate_def Let_def guard_open_def guard_inv_def)
    next
      case False
      then show ?thesis using guard_done [OF guard_commit [OF o]] None r Inr mi by (simp add: handlePBAActivate_def Let_def)
    qed
  qed
qed

lemma guard_frame:
  "guard_open sid c \<Longrightarrow> guard_open sid (handleBypass dp ip c)" "guard_open sid c \<Longrightarrow> guard_open sid (handleDetActivate p sw c)"
  by (auto simp: guard_open_def handleBypass_def handleDetActivate_def Let_def split: option.splits)

theorem handleSessionActivate_guard:
  assumes "guard_inv c"
  shows "guard_inv (handleSessionActivate order cfg dpOK data c)"
proof (cases "beginActivation (leSessionID data) c")
  case (Pair ok c')
  show ?thesis
  proof (cases ok)
    case True
    then have "beginActivation (leSessionID data) c = (True, c')" using Pair by simp
    then have "guard_open (leSessionID data) c'" "sessionPoolMap c' (leSessionID data) = None"
      using guard_begin [OF assms] by blast+
    then show ?thesis
      using guard_done guard_frame guard_PBA Pair True
      by (auto simp: handleSessionActivate_def Let_def split: option.splits classification.splits)
  next
    case False
    then have "c' = c" using Pair by (auto simp: beginActivation_def split: if_splits)
    then show ?thesis using assms Pair False by (simp add: handleSessionActivate_def Let_def)
  qed
qed

lemma releaseMappings_frame:
  "activations (releaseMappings pid sw ip srg ms c) = activations c"
  "sessionPoolMap (releaseMappings pid sw ip srg ms c) = sessionPoolMap c"
  "actives (releaseMappings pid sw ip srg ms c) = actives c"
  "cPools (releaseMappings pid sw ip srg ms c) = cPools c"
  "opdbSynced (releaseMappings pid sw ip srg ms c) = opdbSynced c"
  "hasOpdb (releaseMappings pid sw ip srg ms c) = hasOpdb c"
  by (induction ms arbitrary: c) simp_all

theorem handleSessionRelease_guard:
  assumes "guard_inv c"
  shows "guard_inv (handleSessionRelease cfg data c)"
  using assms
  by (auto simp: handleSessionRelease_def guard_inv_def Let_def releaseMappings_frame split: option.splits)

text \<open>A callback removes its session from the guard, whatever the dataplane answered.\<close>

theorem complete_guard:
  assumes "guard_inv c"
  shows "guard_inv (complete i ok c)"
proof (cases "i < length (inflight c)")
  case True
  let ?c = "c\<lparr>inflight := take i (inflight c) @ drop (Suc i) (inflight c)\<rparr>"
  have e: "inflight c = take i (inflight c) @ inflight c ! i # drop (Suc i) (inflight c)" by (rule id_take_nth_drop [OF True])
  have a: "actives c = List.map_filter contSid (take i (inflight c)) @
      (case contSid (inflight c ! i) of None \<Rightarrow> [] | Some s \<Rightarrow> [s]) @ List.map_filter contSid (drop (Suc i) (inflight c))"
    by (subst e) (simp split: option.splits)
  have c: "complete i ok c = callback ok (inflight c ! i) ?c" using True by (simp add: complete_def)
  show ?thesis
  proof (cases "contSid (inflight c ! i)")
    case None
    then have "guard_inv ?c" using assms a by (simp add: guard_inv_def)
    then show ?thesis using None by (cases "inflight c ! i") (simp_all add: c publishMappingEvent_def guard_inv_def)
  next
    case (Some sid)
    then have o: "guard_open sid ?c" using assms a by (auto simp: guard_open_def guard_inv_def)
    then have p: "guard_open sid (?c\<lparr>cPools := pm\<rparr>)" for pm by (simp add: guard_open_def)
    have q: "guard_open sid (c'\<lparr>opdbSynced := x\<rparr>)" if "guard_open sid c'" for c' x using that by (simp add: guard_open_def)
    from Some show ?thesis
      by (cases "inflight c ! i") (auto simp: c Let_def intro!: guard_done guard_commit p o q)
  qed
qed (use assms in \<open>simp add: complete_def\<close>)

subsection \<open>Runs of the component\<close>

text \<open>
  The steps after the restore: an event arrives, the queue is drained, the dataplane answers a pending call. The
  steps may come in any order.
\<close>

inductive cg_step :: "cgComp \<Rightarrow> cgComp \<Rightarrow> bool" where
  step_event: "cg_step c (handleEvent kind order cfg dpOK ev c)"
| step_drain: "cg_step c (drainQueue order cfg dpOK c)"
| step_complete: "cg_step c (complete i ok c)"

abbreviation cg_run :: "cgComp \<Rightarrow> cgComp \<Rightarrow> bool" where
  "cg_run \<equiv> cg_step\<^sup>*\<^sup>*"

text \<open>An invariant that the handlers keep holds along every run.\<close>

locale cg_kept =
  fixes I :: "cgComp \<Rightarrow> bool"
  assumes kept_activate: "I c \<Longrightarrow> I (handleSessionActivate order cfg dpOK data c)"
    and kept_release: "I c \<Longrightarrow> I (handleSessionRelease cfg data c)"
    and kept_complete: "I c \<Longrightarrow> I (complete i ok c)"
    and kept_queue: "I c \<Longrightarrow> I (c\<lparr>pendingEvents := q, queueDrained := d, queueDropped := n, restoreDegraded := b, restoreFailedIDs := l\<rparr>)"
begin

lemma kept_dispatch: "I c \<Longrightarrow> I (dispatchKind k order cfg dpOK ev c)"
  using kept_activate kept_release
  by (auto simp: dispatchKind_def dispatchLifecycle_def dispatchProgrammed_def dispatchRestored_def
    split: queuedEventKind.split cgEvent.split SessState.split)

lemma kept_dispatchAll: "I c \<Longrightarrow> I (dispatchAll order cfg dpOK q c)"
proof (induction q arbitrary: c)
  case (Cons e q)
  then show ?case using kept_dispatch by (cases e) simp
qed simp

lemma kept_step:
  assumes "cg_step c c'" "I c"
  shows "I c'"
  using assms
proof (induction rule: cg_step.induct)
  case (step_event c kind order cfg dpOK ev)
  have q: "I (c\<lparr>pendingEvents := p\<rparr>)" "I (markRestoreDegraded s (c\<lparr>queueDropped := n\<rparr>))" for p s n
    using kept_queue [OF step_event, of "restoreFailedIDs c" "restoreDegraded c" "queueDropped c" "queueDrained c" p]
      kept_queue [OF step_event, of "restoreFailedIDs c" True n "queueDrained c" "pendingEvents c"]
      kept_queue [OF step_event, of "restoreFailedIDs c @ [s]" True n "queueDrained c" "pendingEvents c"]
    by (simp_all add: markRestoreDegraded_def)
  then show ?case using kept_dispatch [OF step_event]
    by (auto simp: handleEvent_def maybeEnqueue_def)
next
  case (step_drain c order cfg dpOK)
  then show ?case
    using kept_dispatchAll kept_queue [OF step_drain, of "restoreFailedIDs c" "restoreDegraded c" "queueDropped c" True "[]"]
    by (simp add: drainQueue_def)
next
  case (step_complete c i ok)
  then show ?case by (rule kept_complete)
qed

lemma kept_run: "cg_run c c' \<Longrightarrow> I c \<Longrightarrow> I c'"
  by (induction rule: rtranclp_induct) (auto intro: kept_step)

end

interpretation guard: cg_kept guard_inv
  by unfold_locales
    (erule handleSessionActivate_guard, erule handleSessionRelease_guard, erule complete_guard, simp add: guard_inv_def)

text \<open>The pools keep their invariant when no mapping is taken over from a peer.\<close>

definition pools_inv :: "cgComp \<Rightarrow> bool" where
  "pools_inv c \<longleftrightarrow> mgr_inv (cPools c) \<and> opdbSynced c = Map.empty"

lemma pools_inv_frame [simp]:
  "pools_inv (doneAct sid c) = pools_inv c" "pools_inv (commitMapping sid p m srg b c) = pools_inv c"
  "pools_inv (handleBypass dp ip c) = pools_inv c" "pools_inv (handleDetActivate p sw c) = pools_inv c"
  "pools_inv (publishMappingEvent srg m b c) = pools_inv c"
  by (simp_all add: pools_inv_def doneAct_def handleBypass_def handleDetActivate_def publishMappingEvent_def Let_def
    split: option.splits)

lemma pools_inv_PBA: "pools_inv c \<Longrightarrow> pools_inv (handlePBAActivate p ip sw sid srg c)"
proof -
  assume c: "pools_inv c"
  then have n: "tryRestoreSyncedMapping sid sw p srg c = None" by (simp add: pools_inv_def tryRestoreSyncedMapping_def)
  obtain r pm where r: "GetOrAllocate p ip 0 sw (cPools c) = (r, pm)" by (cases "GetOrAllocate p ip 0 sw (cPools c)")
  have "mgr_inv pm" using GetOrAllocate_inv [OF _ r] c by (simp add: pools_inv_def)
  then have "pools_inv (c\<lparr>cPools := pm\<rparr>)" "pools_inv (c\<lparr>cPools := pm, inflight := i, dpTrace := t\<rparr>)" for i t
    using c by (simp_all add: pools_inv_def)
  then show ?thesis by (auto simp: handlePBAActivate_def n r Let_def split: sum.splits)
qed

interpretation pools: cg_kept pools_inv
proof
  fix c order cfg dpOK data i ok q d n b l assume c: "pools_inv c"
  have beg: "pools_inv c'" if "beginActivation sid c = (x, c')" for sid x c'
    using that c by (auto simp: beginActivation_def pools_inv_def split: if_splits)
  have rel: "mgr_inv (snd (ReleaseBlocks p ip v pm))" if "mgr_inv pm" for p ip v pm
    using ReleaseBlocks_inv [OF that prod.collapse [symmetric]] .
  show "pools_inv (handleSessionActivate order cfg dpOK data c)"
    using beg pools_inv_PBA
    by (auto simp: handleSessionActivate_def Let_def split: prod.splits bool.splits option.splits classification.splits)
  show "pools_inv (handleSessionRelease cfg data c)"
    using c rel by (auto simp: handleSessionRelease_def pools_inv_def Let_def releaseMappings_frame split: option.splits)
  have "pools_inv (callback ok k (c\<lparr>inflight := f\<rparr>))" for k f
    using c rel by (cases k) (auto simp: pools_inv_def doneAct_def publishMappingEvent_def Let_def)
  then show "pools_inv (complete i ok c)" using c by (simp add: complete_def)
  show "pools_inv (c\<lparr>pendingEvents := q, queueDrained := d, queueDropped := n, restoreDegraded := b, restoreFailedIDs := l\<rparr>)"
    using c by (simp add: pools_inv_def)
qed

end
