(* ===== verification/CGNAT_Reconcile.thy ===== *)
theory CGNAT_Reconcile
  imports CGNAT_Index
begin

section \<open>Bringing the dataplane to the configuration\<close>

text \<open>
  \<^verbatim>\<open>internal/cgnat/reconcile.go\<close>: the difference between the configured pools and the pools the dataplane
  reports becomes a plan per pool; a preflight check refuses a plan that would drop active translations; the plan is
  applied, the networks of the pools are brought into line, and the result is verified.

  The dataplane is an argument: its dumps, and its answer to every call. The calls made are the trace. The maps of
  the source are lists in the order they are visited, one argument per loop that visits them. A network is written
  as text and read back between two loops; the writer, \<^verbatim>\<open>net.IPNet.String\<close>, is the argument \<open>netString\<close>.
\<close>

subsection \<open>Pools of the dataplane\<close>

record CGNATPoolState =
  vPoolID :: u32
  vMode :: byte
  vAddressPooling :: byte
  vFiltering :: byte
  vBlockSize :: u16
  vPortRangeStart :: u16
  vPortRangeEnd :: u16
  vMaxBlocksPerSub :: byte
  vMaxSessionsPerSub :: u32
  vPortReuseTimeout :: u16
  vALGBitmask :: byte
  vTimeouts :: "u32 \<times> u32 \<times> u32 \<times> u32"
  vActiveMappings :: u32

record CGNATInsidePrefixState =
  vinPool :: u32
  vinPrefix :: IPNet
  vinVRF :: u32

record CGNATOutsideAddressState =
  voutPool :: u32
  voutPrefix :: IPNet

text \<open>The 32-bit FNV-1a hash of the name; zero, which the dataplane does not take as an identifier, becomes one.\<close>

definition fnv32a :: "string \<Rightarrow> u32" where
  "fnv32a s = foldl (\<lambda>h ch. (h XOR of_char ch) * 16777619) 2166136261 s"

definition cg_poolID :: "string \<Rightarrow> u32" where
  "cg_poolID name = (let i = fnv32a name in if i = 0 then 1 else i)"

subsection \<open>Drift\<close>

definition modeByte :: "cgPool \<Rightarrow> byte" where
  "modeByte p = (if GetMode p = ''deterministic'' then 1 else 0)"

definition poolingByte :: "cgPool \<Rightarrow> byte" where
  "poolingByte p = (if GetAddressPooling p = ''arbitrary'' then 1 else 0)"

definition filteringByte :: "cgPool \<Rightarrow> byte" where
  "filteringByte p = (if GetFiltering p = ''endpoint-dependent'' then 1 else 0)"

definition poolHardDrift :: "CGNATPoolState \<Rightarrow> cgPool \<Rightarrow> bool \<times> string list" where
  "poolHardDrift cur p =
     (let drift = (if vMode cur \<noteq> modeByte p then [''mode''] else [])
            @ (if vAddressPooling cur \<noteq> poolingByte p then [''address_pooling''] else [])
            @ (if vFiltering cur \<noteq> filteringByte p then [''filtering''] else [])
            @ (if vBlockSize cur \<noteq> GetBlockSize p then [''block_size''] else [])
            @ (if vPortRangeStart cur \<noteq> GetPortRangeStart p \<or> vPortRangeEnd cur \<noteq> GetPortRangeEnd p then [''port_range''] else [])
      in (drift \<noteq> [], drift))"

definition poolSoftDrift :: "CGNATPoolState \<Rightarrow> cgPool \<Rightarrow> bool" where
  "poolSoftDrift cur p \<longleftrightarrow>
     vMaxBlocksPerSub cur \<noteq> GetMaxBlocksPerSubscriber p \<or> vMaxSessionsPerSub cur \<noteq> GetMaxSessionsPerSubscriber p \<or>
     vPortReuseTimeout cur \<noteq> GetPortReuseTimeout p \<or> vALGBitmask cur \<noteq> GetALGBitmask p \<or>
     (let t = GetTimeouts p in vTimeouts cur \<noteq> (TCPEstablished t, TCPTransitory t, tUDP t, tICMP t))"

subsection \<open>Plans\<close>

datatype poolAction = PoolNoop | PoolAdd | PoolSoftUpdate | PoolReplace | PoolDrop

record poolPlan =
  plName :: string
  plID :: u32
  plAction :: poolAction
  plDesired :: "cgPool option"
  plActive :: u32

datatype dpErr = NoSuchEntry | OtherErr

datatype reconcile_error =
    DumpFailed
  | IDCollision string string
  | Disruption
  | CallFailed
  | ParseFailed string
  | MissingPostApply string
  | StillDrifted string
  | Diverged
  | PanicDivideByZero

type_synonym poolsByID = "u32 \<rightharpoonup> CGNATPoolState"

definition byID :: "CGNATPoolState list \<Rightarrow> poolsByID" where
  "byID pools = foldl (\<lambda>m p. m(vPoolID p \<mapsto> p)) Map.empty pools"

definition planFor :: "poolsByID \<Rightarrow> string \<Rightarrow> cgPool \<Rightarrow> poolPlan" where
  "planFor actual name p =
     (let pid = cg_poolID name in
      case actual pid of
        None \<Rightarrow> \<lparr>plName = name, plID = pid, plAction = PoolAdd, plDesired = Some p, plActive = 0\<rparr>
      | Some cur \<Rightarrow> \<lparr>plName = name, plID = pid,
          plAction = (if fst (poolHardDrift cur p) then PoolReplace else if poolSoftDrift cur p then PoolSoftUpdate else PoolNoop),
          plDesired = Some p, plActive = vActiveMappings cur\<rparr>)"

fun planDesired :: "poolsByID \<Rightarrow> (u32 \<rightharpoonup> string) \<Rightarrow> (string \<times> cgPool option) list \<Rightarrow> reconcile_error + poolPlan list" where
  "planDesired actual seen [] = Inr []"
| "planDesired actual seen ((name, None) # ds) = planDesired actual seen ds"
| "planDesired actual seen ((name, Some p) # ds) =
     (case seen (cg_poolID name) of Some other \<Rightarrow> Inl (IDCollision name other)
      | None \<Rightarrow> bindE (planDesired actual (seen(cg_poolID name \<mapsto> name)) ds) (\<lambda>ps. Inr (planFor actual name p # ps)))"

definition desiredIDs :: "(string \<times> cgPool option) list \<Rightarrow> u32 set" where
  "desiredIDs desired = {cg_poolID name | name p. (name, Some p) \<in> set desired}"

definition planOrphans :: "poolsByID \<Rightarrow> u32 set \<Rightarrow> u32 list \<Rightarrow> poolPlan list" where
  "planOrphans actual seen order = List.map_filter (\<lambda>i. case actual i of None \<Rightarrow> None
     | Some cur \<Rightarrow> if i \<in> seen then None
         else Some \<lparr>plName = '''', plID = i, plAction = PoolDrop, plDesired = None, plActive = vActiveMappings cur\<rparr>) order"

subsection \<open>Networks\<close>

type_synonym insidePrefixKey = "u32 \<times> string \<times> u32"
type_synonym outsideAddressKey = "u32 \<times> string"

definition resolveVRF :: "(string \<Rightarrow> u32 option) option \<Rightarrow> string \<Rightarrow> u32" where
  "resolveVRF vr name = (if name \<noteq> '''' then (case vr of None \<Rightarrow> 0
     | Some f \<Rightarrow> (case f name of None \<Rightarrow> 0 | Some tid \<Rightarrow> tid)) else 0)"

definition buildDesiredInside ::
  "(IPNet \<Rightarrow> string) \<Rightarrow> (string \<Rightarrow> u32 option) option \<Rightarrow> (string \<times> cgPool option) list \<Rightarrow> insidePrefixKey set" where
  "buildDesiredInside netString vr desired =
     {(cg_poolID name, netString n, resolveVRF vr (ipVRF ip)) | name p ip a n.
        (name, Some p) \<in> set desired \<and> ip \<in> set (InsidePrefixes p) \<and> ParseCIDR (ipPrefix ip) = Some (a, n)}"

definition parseOutsideAddr :: "string \<Rightarrow> IPNet option" where
  "parseOutsideAddr s = (case ParseCIDR s of Some (_, n) \<Rightarrow> Some n
     | None \<Rightarrow> (case ParseIP s of Some ip \<Rightarrow> Some \<lparr>nIP = To4 ip, nMask = CIDRMask 32 32\<rparr> | None \<Rightarrow> None))"

definition buildDesiredOutside :: "(IPNet \<Rightarrow> string) \<Rightarrow> (string \<times> cgPool option) list \<Rightarrow> outsideAddressKey set" where
  "buildDesiredOutside netString desired =
     {(cg_poolID name, netString n) | name p addr n.
        (name, Some p) \<in> set desired \<and> addr \<in> set (OutsideAddresses p) \<and> parseOutsideAddr addr = Some n}"

definition inKey :: "(IPNet \<Rightarrow> string) \<Rightarrow> CGNATInsidePrefixState \<Rightarrow> insidePrefixKey" where
  "inKey netString e = (vinPool e, netString (vinPrefix e), vinVRF e)"

definition outKey :: "(IPNet \<Rightarrow> string) \<Rightarrow> CGNATOutsideAddressState \<Rightarrow> outsideAddressKey" where
  "outKey netString e = (voutPool e, netString (voutPrefix e))"

subsection \<open>Preflight\<close>

definition hasActiveMappingsUnder :: "poolPlan list \<Rightarrow> u32 \<Rightarrow> bool" where
  "hasActiveMappingsUnder plans pid \<longleftrightarrow> list_ex (\<lambda>p. plID p = pid \<and> 0 < plActive p) plans"

definition planDisrupts :: "ReconcileConfig option \<Rightarrow> poolPlan \<Rightarrow> bool" where
  "planDisrupts rc plan = (case plAction plan of
       PoolReplace \<Rightarrow> 0 < plActive plan
     | PoolDrop \<Rightarrow> GetDropOrphans rc \<and> 0 < plActive plan
     | _ \<Rightarrow> False)"

definition preflight ::
  "poolPlan list \<Rightarrow> insidePrefixKey set \<Rightarrow> outsideAddressKey set \<Rightarrow> (IPNet \<Rightarrow> string) \<Rightarrow>
   CGNATInsidePrefixState list \<Rightarrow> CGNATOutsideAddressState list \<Rightarrow> ReconcileConfig option \<Rightarrow> reconcile_error + unit" where
  "preflight plans wantIn wantOut netString actualIn actualOut rc =
     (if GetAllowPoolDisruption rc then Inr ()
      else if list_ex (planDisrupts rc) plans
        \<or> list_ex (\<lambda>e. inKey netString e \<notin> wantIn \<and> GetDropOrphans rc \<and> hasActiveMappingsUnder plans (vinPool e)) actualIn
        \<or> list_ex (\<lambda>e. outKey netString e \<notin> wantOut \<and> GetDropOrphans rc \<and> hasActiveMappingsUnder plans (voutPool e)) actualOut
      then Inl Disruption else Inr ())"

subsection \<open>Applying\<close>

datatype dpOp =
    PoolAddDel u32 "byte \<times> byte \<times> byte \<times> u16 \<times> byte \<times> u32 \<times> u16 \<times> u16 \<times> u16 \<times> byte \<times> (u32 \<times> u32 \<times> u32 \<times> u32)" bool
  | InsidePrefixOp u32 IPNet u32 bool
  | OutsideAddressOp u32 IPNet bool

type_synonym dataplane = "dpOp \<Rightarrow> dpErr option"

text \<open>A step of the reconciliation: the calls it made, and an error that stops it.\<close>

type_synonym 'a rstep = "dpOp list \<times> (reconcile_error + 'a)"

definition bindR :: "'a rstep \<Rightarrow> ('a \<Rightarrow> 'b rstep) \<Rightarrow> 'b rstep" where
  "bindR m f = (case m of (t, Inl e) \<Rightarrow> (t, Inl e) | (t, Inr x) \<Rightarrow> (case f x of (t', r) \<Rightarrow> (t @ t', r)))"

definition call :: "dataplane \<Rightarrow> dpOp \<Rightarrow> unit rstep" where
  "call dp op = ([op], case dp op of None \<Rightarrow> Inr () | Some _ \<Rightarrow> Inl CallFailed)"

definition callTolerant :: "dataplane \<Rightarrow> dpOp \<Rightarrow> unit rstep" where
  "callTolerant dp op = ([op], case dp op of None \<Rightarrow> Inr () | Some NoSuchEntry \<Rightarrow> Inr () | Some OtherErr \<Rightarrow> Inl CallFailed)"

definition liftR :: "reconcile_error + 'a \<Rightarrow> 'a rstep" where
  "liftR r = ([], r)"

fun eachR :: "('a \<Rightarrow> unit rstep) \<Rightarrow> 'a list \<Rightarrow> unit rstep" where
  "eachR f [] = ([], Inr ())"
| "eachR f (x # xs) = bindR (f x) (\<lambda>_. eachR f xs)"

definition applyPoolAdd :: "dataplane \<Rightarrow> u32 \<Rightarrow> cgPool \<Rightarrow> unit rstep" where
  "applyPoolAdd dp pid p = (let t = GetTimeouts p in call dp (PoolAddDel pid
     (modeByte p, poolingByte p, filteringByte p, GetBlockSize p, GetMaxBlocksPerSubscriber p, GetMaxSessionsPerSubscriber p,
      GetPortRangeStart p, GetPortRangeEnd p, GetPortReuseTimeout p, GetALGBitmask p,
      (TCPEstablished t, TCPTransitory t, tUDP t, tICMP t)) True))"

definition applyPlan :: "dataplane \<Rightarrow> ReconcileConfig option \<Rightarrow> poolPlan \<Rightarrow> unit rstep" where
  "applyPlan dp rc plan = (case plAction plan of
       PoolNoop \<Rightarrow> ([], Inr ())
     | PoolDrop \<Rightarrow> if \<not> GetDropOrphans rc then ([], Inr ())
         else call dp (PoolAddDel (plID plan) (0, 0, 0, 0, 0, 0, 0, 0, 0, 0, (0, 0, 0, 0)) False)
     | _ \<Rightarrow> (case plDesired plan of None \<Rightarrow> ([], Inr ()) | Some p \<Rightarrow> applyPoolAdd dp (plID plan) p))"

definition applyInsidePrefix :: "dataplane \<Rightarrow> insidePrefixKey \<Rightarrow> unit rstep" where
  "applyInsidePrefix dp = (\<lambda>(pid, prefix, vrf). case ParseCIDR prefix of None \<Rightarrow> ([], Inl (ParseFailed prefix))
     | Some (_, n) \<Rightarrow> call dp (InsidePrefixOp pid n vrf True))"

definition applyOutsideAddress :: "dataplane \<Rightarrow> outsideAddressKey \<Rightarrow> unit rstep" where
  "applyOutsideAddress dp = (\<lambda>(pid, prefix). case ParseCIDR prefix of None \<Rightarrow> ([], Inl (ParseFailed prefix))
     | Some (_, n) \<Rightarrow> call dp (OutsideAddressOp pid n True))"

text \<open>
  The children of the pools: the loops visit the wanted keys and the keys of the reported networks in the order of
  the arguments. Of two reported networks with the same key the last one counts.
\<close>

definition insideSet :: "(IPNet \<Rightarrow> string) \<Rightarrow> CGNATInsidePrefixState list \<Rightarrow> insidePrefixKey \<rightharpoonup> IPNet" where
  "insideSet netString actual = foldl (\<lambda>m e. m(inKey netString e \<mapsto> vinPrefix e)) Map.empty actual"

definition outsideSet :: "(IPNet \<Rightarrow> string) \<Rightarrow> CGNATOutsideAddressState list \<Rightarrow> outsideAddressKey \<rightharpoonup> IPNet" where
  "outsideSet netString actual = foldl (\<lambda>m e. m(outKey netString e \<mapsto> voutPrefix e)) Map.empty actual"

definition replacedOrAdded :: "poolPlan list \<Rightarrow> u32 set" where
  "replacedOrAdded plans = {plID p | p. p \<in> set plans \<and> (plAction p = PoolAdd \<or> plAction p = PoolReplace)}"

definition droppedPools :: "ReconcileConfig option \<Rightarrow> poolPlan list \<Rightarrow> u32 set" where
  "droppedPools rc plans = {plID p | p. p \<in> set plans \<and> plAction p = PoolDrop \<and> GetDropOrphans rc}"

definition reconcileChildren ::
  "dataplane \<Rightarrow> (IPNet \<Rightarrow> string) \<Rightarrow> poolPlan list \<Rightarrow> insidePrefixKey list \<Rightarrow> outsideAddressKey list \<Rightarrow>
   insidePrefixKey list \<Rightarrow> outsideAddressKey list \<Rightarrow>
   CGNATInsidePrefixState list \<Rightarrow> CGNATOutsideAddressState list \<Rightarrow> ReconcileConfig option \<Rightarrow> unit rstep" where
  "reconcileChildren dp netString plans wantIn wantOut orderIn orderOut actualIn actualOut rc =
     (let skip = ([], Inr ()); inS = insideSet netString actualIn; outS = outsideSet netString actualOut in
      bindR (eachR (\<lambda>k. if fst k \<in> replacedOrAdded plans then applyInsidePrefix dp k
         else if inS k \<noteq> None then skip else applyInsidePrefix dp k) wantIn) (\<lambda>_.
      bindR (if GetDropOrphans rc then eachR (\<lambda>k. case inS k of None \<Rightarrow> skip
           | Some pfx \<Rightarrow>
              if k \<in> set wantIn \<or> fst k \<in> replacedOrAdded plans \<or> fst k \<in> droppedPools rc plans then skip
              else callTolerant dp (InsidePrefixOp (fst k) pfx (snd (snd k)) False)) orderIn
         else skip) (\<lambda>_.
      bindR (eachR (\<lambda>k. if fst k \<in> replacedOrAdded plans then applyOutsideAddress dp k
         else if outS k \<noteq> None then skip else applyOutsideAddress dp k) wantOut) (\<lambda>_.
      (if GetDropOrphans rc then eachR (\<lambda>k. case outS k of None \<Rightarrow> skip
           | Some pfx \<Rightarrow>
              if k \<in> set wantOut \<or> fst k \<in> replacedOrAdded plans \<or> fst k \<in> droppedPools rc plans then skip
              else callTolerant dp (OutsideAddressOp (fst k) pfx False)) orderOut
         else skip)))))"

fun verifyPools :: "poolsByID \<Rightarrow> (string \<times> cgPool) list \<Rightarrow> reconcile_error + unit" where
  "verifyPools got [] = Inr ()"
| "verifyPools got ((name, p) # ds) =
     (case got (cg_poolID name) of None \<Rightarrow> Inl (MissingPostApply name)
      | Some cur \<Rightarrow> if fst (poolHardDrift cur p) then Inl (StillDrifted name) else verifyPools got ds)"

subsection \<open>The whole reconciliation\<close>

record cgLocal =
  lPoolIDMap :: "string \<rightharpoonup> u32"
  lPools :: PoolManager
  lBlacklist :: BlacklistManager

text \<open>The error of \<^verbatim>\<open>ConfigurePool\<close> is ignored; a division by zero in it is a panic.\<close>

fun populateLocalState :: "(string \<times> cgPool option) list \<Rightarrow> cgLocal \<Rightarrow> reconcile_error + cgLocal" where
  "populateLocalState [] l = Inr l"
| "populateLocalState ((name, None) # ds) l = populateLocalState ds l"
| "populateLocalState ((name, Some p) # ds) l =
     (let pid = cg_poolID name; l = l\<lparr>lPoolIDMap := (lPoolIDMap l)(name \<mapsto> pid)\<rparr> in
      case ConfigurePool name pid p (lPools l) of
        (Inl DivideByZero, _) \<Rightarrow> Inl PanicDivideByZero
      | (_, pm) \<Rightarrow>
         (let bl = foldl (\<lambda>b ex. case ParseIP ex of None \<Rightarrow> b | Some ip \<Rightarrow> bl_Exclude name ip b) (lBlacklist l) (ExcludedAddresses p)
          in populateLocalState ds (l\<lparr>lPools := pm, lBlacklist := bl\<rparr>)))"

text \<open>What the dataplane reports before and after, its answers, and the orders in which maps are visited.\<close>

record reconcileWorld =
  wPools :: "CGNATPoolState list option"
  wInside :: "CGNATInsidePrefixState list option"
  wOutside :: "CGNATOutsideAddressState list option"
  wAfter :: "CGNATPoolState list option"
  wAnswer :: dataplane
  wVRF :: "(string \<Rightarrow> u32 option) option"
  oOrphans :: "u32 list"
  oWantIn :: "insidePrefixKey list"
  oWantOut :: "outsideAddressKey list"
  oActIn :: "insidePrefixKey list"
  oActOut :: "outsideAddressKey list"
  oVerify :: "(string \<times> cgPool) list"
  oLocal :: "(string \<times> cgPool option) list"

definition reconcileWith ::
  "(IPNet \<Rightarrow> string) \<Rightarrow> reconcileWorld \<Rightarrow> (string \<times> cgPool option) list \<Rightarrow> ReconcileConfig option \<Rightarrow> cgLocal \<Rightarrow>
     cgLocal rstep" where
  "reconcileWith netString w desired rc l =
     (case (wPools w, wInside w, wOutside w) of (Some actualPools, Some actualIn, Some actualOut) \<Rightarrow>
        (let actual = byID actualPools in
         bindR (liftR (planDesired actual Map.empty desired)) (\<lambda>plans0.
         (let plans = plans0 @ planOrphans actual (desiredIDs desired) (oOrphans w) in
          bindR (liftR (preflight plans (buildDesiredInside netString (wVRF w) desired) (buildDesiredOutside netString desired)
            netString actualIn actualOut rc)) (\<lambda>_.
          bindR (eachR (applyPlan (wAnswer w) rc) plans) (\<lambda>_.
          bindR (reconcileChildren (wAnswer w) netString plans (oWantIn w) (oWantOut w) (oActIn w) (oActOut w)
            actualIn actualOut rc) (\<lambda>_.
          bindR (liftR (case wAfter w of None \<Rightarrow> Inl DumpFailed | Some after \<Rightarrow> verifyPools (byID after) (oVerify w))) (\<lambda>_.
          bindR (liftR (populateLocalState (oLocal w) l)) (\<lambda>l'.
          (if GetOnDivergence rc = ''fail'' \<and> list_ex (\<lambda>p. plAction p \<noteq> PoolNoop) plans
           then ([], Inl Diverged) else ([], Inr l'))))))))))
      | _ \<Rightarrow> ([], Inl DumpFailed))"

subsection \<open>Nothing active is dropped\<close>

lemma eachR_trace: "op \<in> set (fst (eachR f xs)) \<Longrightarrow> \<exists>x\<in>set xs. op \<in> set (fst (f x))"
proof (induction xs)
  case (Cons x xs)
  then show ?case by (auto simp: bindR_def split: prod.splits sum.splits)
qed simp

lemma bindR_trace: "op \<in> set (fst (bindR m f)) \<Longrightarrow> op \<in> set (fst m) \<or> (\<exists>x. snd m = Inr x \<and> op \<in> set (fst (f x)))"
  by (auto simp: bindR_def split: prod.splits sum.splits)

lemma call_trace [simp]: "fst (call dp op) = [op]" "fst (callTolerant dp op) = [op]"
  by (simp_all add: call_def callTolerant_def)

lemma planDesired_set:
  "planDesired actual seen ds = Inr ps \<Longrightarrow> set ps = {planFor actual name p | name p. (name, Some p) \<in> set ds}"
proof (induction actual seen ds arbitrary: ps rule: planDesired.induct)
  case (3 actual seen name p ds)
  from "3.prems" obtain ps' where "seen (cg_poolID name) = None" "ps = planFor actual name p # ps'"
    "planDesired actual (seen(cg_poolID name \<mapsto> name)) ds = Inr ps'"
    by (auto simp: bindE_Inr_iff split: option.splits)
  note f = this
  have "set ps' = {planFor actual name p | name p. (name, Some p) \<in> set ds}" by (rule "3.IH" [OF f(1) f(3)])
  then show ?case unfolding f(2) by auto
qed auto

text \<open>Every pool the dataplane reports has a plan that knows its active translations.\<close>

lemma plan_exists:
  assumes "planDesired actual Map.empty ds = Inr ps" "actual pid = Some cur" "pid \<in> set order"
  shows "\<exists>plan\<in>set (ps @ planOrphans actual (desiredIDs ds) order). plID plan = pid \<and> plActive plan = vActiveMappings cur"
proof (cases "pid \<in> desiredIDs ds")
  case True
  then obtain name p where "pid = cg_poolID name" "(name, Some p) \<in> set ds" by (auto simp: desiredIDs_def)
  then have "planFor actual name p \<in> set ps" "plID (planFor actual name p) = pid" "plActive (planFor actual name p) = vActiveMappings cur"
    using planDesired_set [OF assms(1)] assms(2) by (blast, simp_all add: planFor_def Let_def)
  then show ?thesis by auto
next
  case False
  then show ?thesis using assms(2,3)
    by (intro bexI [of _ "\<lparr>plName = '''', plID = pid, plAction = PoolDrop, plDesired = None, plActive = vActiveMappings cur\<rparr>"])
      (force simp: planOrphans_def List.map_filter_def)+
qed

text \<open>What a call takes away from a pool: the pool, one of its networks, or, when a setting that identifies its translations changes, the translations.\<close>

fun hardSettings :: "byte \<times> byte \<times> byte \<times> u16 \<times> byte \<times> u32 \<times> u16 \<times> u16 \<times> u16 \<times> byte \<times> (u32 \<times> u32 \<times> u32 \<times> u32)
    \<Rightarrow> byte \<times> byte \<times> byte \<times> u16 \<times> u16 \<times> u16" where
  "hardSettings (m, a, f, b, _, _, s, e, _, _, _) = (m, a, f, b, s, e)"

definition hardState :: "CGNATPoolState \<Rightarrow> byte \<times> byte \<times> byte \<times> u16 \<times> u16 \<times> u16" where
  "hardState cur = (vMode cur, vAddressPooling cur, vFiltering cur, vBlockSize cur, vPortRangeStart cur, vPortRangeEnd cur)"

fun disrupts :: "poolsByID \<Rightarrow> dpOp \<Rightarrow> u32 \<Rightarrow> bool" where
  "disrupts actual (PoolAddDel i s add) pid \<longleftrightarrow> i = pid \<and>
     (\<not> add \<or> (\<exists>cur. actual pid = Some cur \<and> hardSettings s \<noteq> hardState cur))"
| "disrupts actual (InsidePrefixOp i n v add) pid \<longleftrightarrow> i = pid \<and> \<not> add"
| "disrupts actual (OutsideAddressOp i n add) pid \<longleftrightarrow> i = pid \<and> \<not> add"

lemma hardDrift_settings:
  "fst (poolHardDrift cur p) \<longleftrightarrow> hardState cur \<noteq> (modeByte p, poolingByte p, filteringByte p, GetBlockSize p, GetPortRangeStart p, GetPortRangeEnd p)"
  by (auto simp: poolHardDrift_def hardState_def Let_def)

lemma applyPlan_safe:
  assumes op: "op \<in> set (fst (applyPlan dp rc plan))" and d: "disrupts actual op pid" and nd: "\<not> planDisrupts rc plan"
    and plan: "plan = planFor actual name p \<or> plAction plan = PoolDrop \<and> (\<exists>cur. actual (plID plan) = Some cur \<and> plActive plan = vActiveMappings cur)"
    and cur: "actual pid = Some cur"
  shows "vActiveMappings cur = 0"
proof (cases "plAction plan = PoolDrop")
  case True
  then have "plID plan = pid" "GetDropOrphans rc" using op d by (auto simp: applyPlan_def split: if_splits)
  moreover have "actual (plID plan) = Some cur' \<Longrightarrow> plActive plan = vActiveMappings cur'" for cur'
    using plan True by (auto simp: planFor_def Let_def split: option.splits if_splits)
  ultimately show ?thesis using nd True cur by (simp add: planDisrupts_def word_greater_zero_iff)
next
  case False
  then have pl: "plan = planFor actual name p" using plan by simp
  from op False pl have o: "op \<in> set (fst (applyPoolAdd dp (cg_poolID name) p))"
    by (auto simp: applyPlan_def planFor_def Let_def split: option.splits poolAction.splits if_splits)
  then have "cg_poolID name = pid" "fst (poolHardDrift cur p)"
    using d cur by (auto simp: applyPoolAdd_def Let_def hardDrift_settings)
  then show ?thesis using nd pl cur by (auto simp: planDisrupts_def planFor_def Let_def word_greater_zero_iff)
qed

lemma bindR_trace4:
  "op \<in> set (fst (bindR a (\<lambda>_. bindR b (\<lambda>_. bindR c (\<lambda>_. d))))) \<Longrightarrow>
     op \<in> set (fst a) \<or> op \<in> set (fst b) \<or> op \<in> set (fst c) \<or> op \<in> set (fst d)"
  by (blast dest: bindR_trace)

lemma children_remove:
  assumes tr: "op \<in> set (fst (reconcileChildren dp netString plans wantIn wantOut orderIn orderOut actualIn actualOut rc))"
    and d: "disrupts actual op pid"
  shows "GetDropOrphans rc \<and> ((\<exists>k. fst k = pid \<and> insideSet netString actualIn k \<noteq> None \<and> k \<notin> set wantIn) \<or>
    (\<exists>k. fst k = pid \<and> outsideSet netString actualOut k \<noteq> None \<and> k \<notin> set wantOut))"
proof -
  have i: "op \<notin> set (fst (applyInsidePrefix dp k))" for k
    using d by (auto simp: applyInsidePrefix_def split: prod.splits option.splits)
  have o: "op \<notin> set (fst (applyOutsideAddress dp k))" for k
    using d by (auto simp: applyOutsideAddress_def split: prod.splits option.splits)
  from bindR_trace4 [OF tr [unfolded reconcileChildren_def Let_def]] show ?thesis
  proof (elim disjE)
    assume "op \<in> set (fst (eachR (\<lambda>k. if fst k \<in> replacedOrAdded plans then applyInsidePrefix dp k
        else if insideSet netString actualIn k \<noteq> None then ([], Inr ()) else applyInsidePrefix dp k) wantIn))"
    from eachR_trace [OF this] show ?thesis using i by (auto split: if_splits)
  next
    assume "op \<in> set (fst (if GetDropOrphans rc then eachR (\<lambda>k. case insideSet netString actualIn k of None \<Rightarrow> ([], Inr ())
        | Some pfx \<Rightarrow> if k \<in> set wantIn \<or> fst k \<in> replacedOrAdded plans \<or> fst k \<in> droppedPools rc plans then ([], Inr ())
            else callTolerant dp (InsidePrefixOp (fst k) pfx (snd (snd k)) False)) orderIn else ([], Inr ())))"
    then obtain k pfx where "GetDropOrphans rc" "insideSet netString actualIn k = Some pfx" "k \<notin> set wantIn"
      "op = InsidePrefixOp (fst k) pfx (snd (snd k)) False"
      by (auto dest!: eachR_trace split: if_splits option.splits)
    then show ?thesis using d by auto
  next
    assume "op \<in> set (fst (eachR (\<lambda>k. if fst k \<in> replacedOrAdded plans then applyOutsideAddress dp k
        else if outsideSet netString actualOut k \<noteq> None then ([], Inr ()) else applyOutsideAddress dp k) wantOut))"
    from eachR_trace [OF this] show ?thesis using o by (auto split: if_splits)
  next
    assume "op \<in> set (fst (if GetDropOrphans rc then eachR (\<lambda>k. case outsideSet netString actualOut k of None \<Rightarrow> ([], Inr ())
        | Some pfx \<Rightarrow> if k \<in> set wantOut \<or> fst k \<in> replacedOrAdded plans \<or> fst k \<in> droppedPools rc plans then ([], Inr ())
            else callTolerant dp (OutsideAddressOp (fst k) pfx False)) orderOut else ([], Inr ())))"
    then obtain k pfx where "GetDropOrphans rc" "outsideSet netString actualOut k = Some pfx" "k \<notin> set wantOut"
      "op = OutsideAddressOp (fst k) pfx False"
      by (auto dest!: eachR_trace split: if_splits option.splits)
    then show ?thesis using d by auto
  qed
qed

lemma insideSet_dom: "insideSet netString actual k \<noteq> None \<Longrightarrow> \<exists>e\<in>set actual. inKey netString e = k"
proof -
  have "foldl (\<lambda>m e. m(inKey netString e \<mapsto> vinPrefix e)) m actual k \<noteq> None \<Longrightarrow> m k \<noteq> None \<or> (\<exists>e\<in>set actual. inKey netString e = k)" for m
    by (induction actual arbitrary: m) (fastforce split: if_splits)+
  from this [of Map.empty] show "insideSet netString actual k \<noteq> None \<Longrightarrow> ?thesis" by (simp add: insideSet_def)
qed

lemma outsideSet_dom: "outsideSet netString actual k \<noteq> None \<Longrightarrow> \<exists>e\<in>set actual. outKey netString e = k"
proof -
  have "foldl (\<lambda>m e. m(outKey netString e \<mapsto> voutPrefix e)) m actual k \<noteq> None \<Longrightarrow> m k \<noteq> None \<or> (\<exists>e\<in>set actual. outKey netString e = k)" for m
    by (induction actual arbitrary: m) (fastforce split: if_splits)+
  from this [of Map.empty] show "outsideSet netString actual k \<noteq> None \<Longrightarrow> ?thesis" by (simp add: outsideSet_def)
qed

theorem reconcile_safe:
  assumes tr: "op \<in> set (fst (reconcileWith netString w desired rc l))" and d: "disrupts (byID pools) op pid"
    and w: "wPools w = Some pools" "byID pools pid = Some cur" and allow: "\<not> GetAllowPoolDisruption rc"
    and orders: "dom (byID pools) \<subseteq> set (oOrphans w)" "set (oWantIn w) = buildDesiredInside netString (wVRF w) desired"
      "set (oWantOut w) = buildDesiredOutside netString desired"
  shows "vActiveMappings cur = 0"
proof -
  let ?actual = "byID pools"
  obtain actualIn actualOut where a: "wInside w = Some actualIn" "wOutside w = Some actualOut"
    using tr w(1) by (cases "wInside w"; cases "wOutside w") (simp_all add: reconcileWith_def)
  let ?orph = "planOrphans ?actual (desiredIDs desired) (oOrphans w)"
  obtain ps where ps: "planDesired ?actual Map.empty desired = Inr ps"
    and pf: "preflight (ps @ ?orph) (set (oWantIn w)) (set (oWantOut w)) netString actualIn actualOut rc = Inr ()"
    and op: "op \<in> set (fst (eachR (applyPlan (wAnswer w) rc) (ps @ ?orph))) \<or>
      op \<in> set (fst (reconcileChildren (wAnswer w) netString (ps @ ?orph) (oWantIn w) (oWantOut w) (oActIn w) (oActOut w)
        actualIn actualOut rc))"
    using tr w(1) a orders
    by (auto simp: reconcileWith_def Let_def liftR_def dest!: bindR_trace split: if_splits option.splits)
  have nd: "\<not> planDisrupts rc plan" if "plan \<in> set (ps @ ?orph)" for plan
    using pf allow that by (auto simp: preflight_def list_ex_iff split: if_splits)
  from op show ?thesis
  proof
    assume "op \<in> set (fst (eachR (applyPlan (wAnswer w) rc) (ps @ ?orph)))"
    then obtain plan where plan: "plan \<in> set (ps @ ?orph)" "op \<in> set (fst (applyPlan (wAnswer w) rc plan))"
      using eachR_trace by blast
    have "(\<exists>name p. plan = planFor ?actual name p) \<or>
        plAction plan = PoolDrop \<and> (\<exists>cur. ?actual (plID plan) = Some cur \<and> plActive plan = vActiveMappings cur)"
      using plan(1) planDesired_set [OF ps]
      by (auto simp: planOrphans_def List.map_filter_def split: option.splits if_splits)
    then show ?thesis using applyPlan_safe [OF plan(2) d nd [OF plan(1)] _ w(2)] by blast
  next
    assume "op \<in> set (fst (reconcileChildren (wAnswer w) netString (ps @ ?orph) (oWantIn w) (oWantOut w) (oActIn w) (oActOut w)
        actualIn actualOut rc))"
    from children_remove [OF this d] have "\<not> hasActiveMappingsUnder (ps @ ?orph) pid"
    proof (elim conjE disjE exE)
      fix k assume k: "GetDropOrphans rc" "fst k = pid" "insideSet netString actualIn k \<noteq> None" "k \<notin> set (oWantIn w)"
      then obtain e where "e \<in> set actualIn" "inKey netString e = k" using insideSet_dom by blast
      with k pf allow show ?thesis by (auto simp: preflight_def list_ex_iff inKey_def split: if_splits)
    next
      fix k assume k: "GetDropOrphans rc" "fst k = pid" "outsideSet netString actualOut k \<noteq> None" "k \<notin> set (oWantOut w)"
      then obtain e where "e \<in> set actualOut" "outKey netString e = k" using outsideSet_dom by blast
      with k pf allow show ?thesis by (auto simp: preflight_def list_ex_iff outKey_def split: if_splits)
    qed
    moreover have "pid \<in> set (oOrphans w)" using orders(1) w(2) by auto
    ultimately show ?thesis using plan_exists [of ?actual desired ps pid cur "oOrphans w", OF ps w(2)]
      by (auto simp: hasActiveMappingsUnder_def list_ex_iff word_greater_zero_iff)
  qed
qed

end
