(* ===== verification/CGNAT_Theorems.thy ===== *)
theory CGNAT_Theorems
  imports CGNAT_Component CGNAT_Reconcile
begin

section \<open>Properties of the address translation component\<close>

text \<open>The properties of \<^verbatim>\<open>internal/cgnat\<close>, from the bitmap of an address up to the session events.\<close>

subsection \<open>Blocks\<close>

text \<open>
  C39: the parallel bit count that decides whether an address has a free block equals the number of set bits of the
  word.
\<close>

theorem popcount_counts: "popcount w = card {i. i < 64 \<and> bit w i}"
proof -
  have "popcount w = (\<Sum>i<64. of_bool (bit w i))" by (rule popcount_sum)
  also have "\<dots> = card {i. i < 64 \<and> bit w i}"
  proof -
    have "{..<64} \<inter> {i. bit w i} = {i. i < 64 \<and> bit w i}" by auto
    then show ?thesis by (simp add: sum_of_bool_eq)
  qed
  finally show ?thesis .
qed


text \<open>A pool of one address with blocks of 8192 ports, and the subscriber 10.0.0.1.\<close>

definition demoPool :: cgPool where
  "demoPool = \<lparr>OutsideInterfaces = [''eth0''], cgMode = '''', InsidePrefixes = [\<lparr>ipPrefix = ''10.0.0.0/8'', ipVRF = ''''\<rparr>],
     OutsideAddresses = [''192.0.2.1''], BlockSize = 8192, MaxBlocksPerSubscriber = 0, MaxSessionsPerSubscriber = 0,
     ExhaustionBehavior = '''', PortReuseTimeout = 0, SubscriberRatio = 0, PortRange = '''', AddressPooling = '''',
     Filtering = '''', ExcludedAddresses = [], BlacklistMode = '''', cgALG = None, cgTimeouts = None\<rparr>"

definition demoState :: poolState where
  "demoState = \<lparr>psName = ''p'', psID = 7, psConfig = demoPool, psAddresses = [\<lparr>oIP = [192, 0, 2, 1], TotalBlocks = 7,
     AllocatedBits = [0], Excluded = False\<rparr>], Subscribers = Map.empty\<rparr>"

lemma demo_configured: "snd (ConfigurePool ''p'' 7 demoPool NewPoolManager) = [''p'' \<mapsto> demoState]"
proof -
  have "expandAll ''p'' (OutsideAddresses demoPool) = Inr [[192, 0, 2, 1]]" by code_simp
  moreover have "GetBlockSize demoPool = 8192" "blocksPerAddr demoPool = 7" "unat ((blocksPerAddr demoPool + 63) div 64) = 1"
    "ExcludedAddresses demoPool = []" by code_simp+
  ultimately show ?thesis by (simp add: ConfigurePool_def Let_def demoState_def NewPoolManager_def)
qed

definition demoBlock :: blockAllocation where
  "demoBlock = \<lparr>OutsideIP = [192, 0, 2, 1], PortBlockStart = 1024, PortBlockEnd = 9215\<rparr>"

definition demoHeld :: poolState where
  "demoHeld = demoState\<lparr>psAddresses := [\<lparr>oIP = [192, 0, 2, 1], TotalBlocks = 7, AllocatedBits = [1], Excluded = False\<rparr>],
     Subscribers := [(0, [10, 0, 0, 1]) \<mapsto> \<lparr>sPoolName = ''p'', sPoolID = 7, sSwIfIndex = 3, Blocks = [demoBlock]\<rparr>]\<rparr>"

lemma demo_sensible: "sensible demoPool"
  by code_simp

lemma demo_parts: "cg_key 0 [10, 0, 0, 1] = (0, [10, 0, 0, 1])"
  "firstIdx (\<lambda>addr. \<not> Excluded addr \<and> hasFreeBlock addr) (psAddresses demoState) = Some 0"
  "allocateBlock (psAddresses demoState ! 0) = (0, \<lparr>oIP = [192, 0, 2, 1], TotalBlocks = 7, AllocatedBits = [1], Excluded = False\<rparr>)"
  "mkBlock demoPool \<lparr>oIP = [192, 0, 2, 1], TotalBlocks = 7, AllocatedBits = [1], Excluded = False\<rparr> 0 = demoBlock"
  by code_simp+

lemma demo_alloc:
  "allocateIn ''p'' demoState [10, 0, 0, 1] 0 3 = (Inr (mkMapping ''p'' 7 [10, 0, 0, 1] 0 demoBlock 3), demoHeld)"
  using demo_parts
  by (simp add: allocateIn_def Let_def targetAddr_def pairedAddr_def demoHeld_def demoState_def)

lemma demo_reach: "cg_reach [''p'' \<mapsto> demoState]" "cg_reach [''p'' \<mapsto> demoHeld]"
proof -
  show r: "cg_reach [''p'' \<mapsto> demoState]"
    using reach_configure [OF reach_new demo_sensible, of "''p''" 7] by (simp only: demo_configured)
  show "cg_reach [''p'' \<mapsto> demoHeld]"
    using reach_allocate [OF r, of "''p''" "[10, 0, 0, 1]" 0 3] by (simp add: AllocateBlock_def demo_alloc)
qed




text \<open>
  C36: releasing a subscriber frees exactly their blocks; the other subscribers keep theirs, and the call does not
  fail.
\<close>

theorem cgnat_release:
  assumes "cg_reach pm" "pm name = Some ps" "ReleaseBlocks name ip vrf pm = (r, pm')"
  shows "r = Inr () \<and> (\<exists>ps'. pm' = pm(name \<mapsto> ps') \<and> released ps (cg_key vrf ip) ps')"
proof -
  have "cg_inv ps" using cg_reach_inv [OF assms(1)] assms(2) by (simp add: mgr_inv_def)
  from ReleaseBlocks_spec [of ps pm name, OF this assms(2,3)] show ?thesis by blast
qed

theorem cgnat_release_witness: "\<exists>ps'. released demoHeld (0, [10, 0, 0, 1]) ps'"
  using cgnat_release [OF demo_reach(2), of "''p''" demoHeld "[10, 0, 0, 1]" 0, OF _ prod.collapse [symmetric]]
  by (auto simp: demo_parts(1))

text \<open>
  A subscriber who holds a block is given their first block again, and no state changes: two activations of one
  subscriber never take two blocks.
\<close>

theorem cgnat_get_again:
  assumes "cg_reach pm" "GetOrAllocate name ip vrf sw pm = (Inr (m, isNew), pm')"
  shows "\<exists>m'. GetOrAllocate name ip vrf sw' pm' = (Inr (m', False), pm') \<and> mOutsideIP m' = mOutsideIP m \<and>
    mPortBlockStart m' = mPortBlockStart m \<and> mPortBlockEnd m' = mPortBlockEnd m"
proof -
  obtain ps where p: "pm name = Some ps" using assms(2) by (cases "pm name") (simp_all add: GetOrAllocate_def)
  have inv: "cg_inv ps" "psName ps = name" using cg_reach_inv [OF assms(1)] p by (simp_all add: mgr_inv_def)
  show ?thesis
  proof (cases "held ps (cg_key vrf ip)")
    case (Cons b bs)
    then show ?thesis
      using GetOrAllocate_held [of pm name ps vrf ip b bs sw, OF p] GetOrAllocate_held [of pm name ps vrf ip b bs sw', OF p] assms(2)
      by (auto simp: mkMapping_def)
  next
    case Nil
    obtain r ps' where al: "allocateIn (psName ps) ps ip vrf sw = (r, ps')" by (cases "allocateIn (psName ps) ps ip vrf sw")
    have r: "r = Inr m" "pm' = pm(name \<mapsto> ps')"
      using assms(2) GetOrAllocate_new [of pm name ps vrf ip sw, OF p Nil] al by (auto simp: bindE_def split: sum.splits)
    from allocateIn_cases [OF inv(1) al] r(1) obtain i k where
      m: "m = mkMapping (psName ps) (psID ps) ip vrf (slot ps i k) sw" and g: "given ps i k (cg_key vrf ip) ps'" by auto
    have "held ps' (cg_key vrf ip) = slot ps i k # []" using given_held(1) [OF g] Nil by simp
    from GetOrAllocate_held [of pm' name ps' vrf ip "slot ps i k" "[]" sw', OF _ this] r(2) m show ?thesis
      by (auto simp: mkMapping_def)
  qed
qed

theorem cgnat_get_again_instance:
  "\<exists>m' pm'. GetOrAllocate ''p'' [10, 0, 0, 1] 0 9 pm' = (Inr (m', False), pm') \<and> mPortBlockStart m' = 1024"
proof -
  have "GetOrAllocate ''p'' [10, 0, 0, 1] 0 3 [''p'' \<mapsto> demoState] =
      (Inr (mkMapping ''p'' 7 [10, 0, 0, 1] 0 demoBlock 3, True), [''p'' \<mapsto> demoHeld])"
    using demo_alloc by (simp add: GetOrAllocate_def allocateLocked_def demo_parts(1) Let_def demoState_def)
  from cgnat_get_again [OF demo_reach(1) this, of 9] show ?thesis by (auto simp: mkMapping_def demoBlock_def)
qed

text \<open>
  Restoring a mapping twice is the same as restoring it once, whatever the pool holds: the second call finds the
  block and changes nothing.
\<close>

theorem cgnat_restore_twice:
  assumes "RestoreMappingIfAbsent m pm = (Inr (), pm')"
  shows "RestoreMappingIfAbsent m pm' = (Inr (), pm')"
  by (rule RestoreMappingIfAbsent_idem [OF assms])

theorem cgnat_restore_twice_instance:
  "\<exists>pm'. RestoreMappingIfAbsent (mkMapping ''p'' 7 [10, 0, 0, 1] 0 demoBlock 3) pm' = (Inr (), pm') \<and> pm' ''p'' \<noteq> None"
proof -
  let ?m = "mkMapping ''p'' 7 [10, 0, 0, 1] 0 demoBlock 3"
  have "GetBlockSize demoPool \<noteq> 0" by code_simp
  then have "fst (RestoreMappingIfAbsent ?m [''p'' \<mapsto> demoState]) = Inr ()"
    by (simp add: RestoreMappingIfAbsent_def restoreLocked_def mkMapping_def Let_def demoState_def demo_parts(1))
  then have e: "RestoreMappingIfAbsent ?m [''p'' \<mapsto> demoState] = (Inr (), snd (RestoreMappingIfAbsent ?m [''p'' \<mapsto> demoState]))"
    by (metis prod.collapse)
  have "snd (RestoreMappingIfAbsent ?m [''p'' \<mapsto> demoState]) ''p'' \<noteq> None"
    by (simp add: RestoreMappingIfAbsent_def restoreLocked_def mkMapping_def Let_def)
  with cgnat_restore_twice [OF e] show ?thesis by blast
qed

text \<open>
  A dotted address that the code writes (into the excluded addresses, a rule or the database) reads back as the
  same address.
\<close>

theorem cgnat_address_text:
  assumes "To4 ip \<noteq> []"
  shows "\<exists>ip'. ParseIP (ip4String ip) = Some ip' \<and> To4 ip' = To4 ip"
proof -
  have "length (To4 ip) = 4" using length_To4 [of ip] assms by auto
  then have "To4 (v4InV6Prefix @ To4 ip) = To4 ip" by (simp add: To4_def [of "v4InV6Prefix @ To4 ip"])
  with ParseIP_ip4String [OF assms] show ?thesis by blast
qed

theorem cgnat_address_text_instance: "\<exists>ip'. ParseIP (ip4String [192, 0, 2, 250]) = Some ip' \<and> To4 ip' = [192, 0, 2, 250]"
  using cgnat_address_text [of "[192, 0, 2, 250]"] by (simp add: To4_def [of "[192, 0, 2, 250]"])

subsection \<open>Sessions\<close>

text \<open>
  C37: in every run of the component from a state with nothing pending, however events and dataplane answers
  interleave, a session marked as being activated has exactly one pending callback, and it has no committed mapping;
  a session without a pending callback is not marked.
\<close>

theorem cgnat_activation_guard:
  assumes "cg_run c0 c" "inflight c0 = []" "activations c0 = {}"
  shows "(\<forall>sid. sid \<in> activations c \<longleftrightarrow> count_list (actives c) sid = 1) \<and>
    (\<forall>sid. count_list (actives c) sid \<le> 1) \<and> (\<forall>sid\<in>activations c. sessionPoolMap c sid = None)"
proof -
  have "guard_inv c0" using assms(2,3) by (simp add: guard_inv_def)
  then have g: "guard_inv c" by (rule guard.kept_run [OF assms(1)])
  then have "count_list (actives c) sid = (if sid \<in> activations c then 1 else 0)" for sid
    using distinct_count [of "actives c" sid] by (simp add: guard_inv_def)
  with g show ?thesis by (simp add: guard_inv_def)
qed

definition demoComp :: cgComp where
  "demoComp = \<lparr>cPools = [''p'' \<mapsto> demoState], cReverse = NewReverseIndex, cBypass = [], poolIDMap = [''p'' \<mapsto> 7],
     sessionPoolMap = Map.empty, activations = {}, pendingEvents = [], queueDrained = True, queueDropped = 0,
     restoreDegraded = False, restoreFailedIDs = [], hasOpdb = False, opdbMappings = Map.empty, opdbSynced = Map.empty,
     inflight = [], dpTrace = [], published = [], nextPtr = 0\<rparr>"

definition demoRunning :: cgRunning where
  "demoRunning = \<lparr>rPools = [''p'' \<mapsto> Some demoPool], rServiceGroups = Map.empty\<rparr>"

definition demoEvent :: "SessState \<Rightarrow> SessionLifecycleEvent" where
  "demoEvent st = \<lparr>leAccess = AccessTypeIPoE, leDHCPv6 = False, leSessionID = ''s1'', leState = st,
     leSession = IPoESession \<lparr>siID = ''s1'', siIPv4 = [10, 0, 0, 1], siVRF = '''', siIfIndex = 3, siGroup = '''', siSRG = ''''\<rparr>\<rparr>"

theorem cgnat_activation_guard_witness:
  "\<exists>c. cg_run demoComp c \<and> (\<forall>sid. count_list (actives c) sid \<le> 1)"
proof -
  have "cg_run demoComp (handleEvent QProgrammed [''p''] (Some demoRunning) (\<lambda>_. True) (LifecycleData (demoEvent SessStateActive)) demoComp)"
    by (intro r_into_rtranclp step_event)
  with cgnat_activation_guard [OF this] show ?thesis by (auto simp: demoComp_def)
qed

text \<open>
  Along such a run, when no mapping is taken over from a peer, no two subscribers of a pool hold the same port
  of an outside address.
\<close>

theorem cgnat_run_no_port_shared:
  assumes "cg_run c0 c" "cg_reach (cPools c0)" "opdbSynced c0 = Map.empty" "cPools c name = Some ps"
    and "b \<in> set (blocksOf ps key)" "b' \<in> set (blocksOf ps key')" "To4 (OutsideIP b) = To4 (OutsideIP b')"
    and "PortBlockStart b \<le> p" "p \<le> PortBlockEnd b" "PortBlockStart b' \<le> p" "p \<le> PortBlockEnd b'"
  shows "key = key'"
proof -
  have "pools_inv c0" using cg_reach_inv [OF assms(2)] assms(3) by (simp add: pools_inv_def)
  then have "pools_inv c" by (rule pools.kept_run [OF assms(1)])
  then have "cg_inv ps" using assms(4) by (simp add: pools_inv_def mgr_inv_def)
  from cg_inv_no_overlap [OF this assms(5-11)] show ?thesis by simp
qed

theorem cgnat_run_no_port_shared_instance: "demoBlock \<in> set (blocksOf demoHeld (0, [10, 0, 0, 1])) \<and> (0, [10, 0, 0, 1]) = (0 :: u32, [10, 0, 0, 1 :: byte])"
proof -
  let ?c = "demoComp\<lparr>cPools := [''p'' \<mapsto> demoHeld]\<rparr>"
  have "demoBlock \<in> set (blocksOf demoHeld (0, [10, 0, 0, 1]))" by (simp add: blocksOf_def demoHeld_def)
  with cgnat_run_no_port_shared [of ?c ?c "''p''" demoHeld demoBlock "(0, [10, 0, 0, 1])" demoBlock "(0, [10, 0, 0, 1])" 2000]
  show ?thesis using demo_reach(2) by (simp add: demoComp_def demoBlock_def)
qed

subsection \<open>Reconciliation\<close>

text \<open>
  C38: unless the configuration allows disruption, no call that the reconciliation makes removes a pool or one of its
  networks, or changes a setting that its translations depend on, while the dataplane reports active translations in
  that pool.
\<close>

theorem cgnat_reconcile_keeps_active:
  assumes "op \<in> set (fst (reconcileWith netString w desired rc l))" "disrupts (byID pools) op pid"
    and "wPools w = Some pools" "byID pools pid = Some cur" "\<not> GetAllowPoolDisruption rc"
    and "dom (byID pools) \<subseteq> set (oOrphans w)" "set (oWantIn w) = buildDesiredInside netString (wVRF w) desired"
      "set (oWantOut w) = buildDesiredOutside netString desired"
  shows "vActiveMappings cur = 0"
  by (rule reconcile_safe [OF assms])

text \<open>A dataplane with one pool that is no longer configured.\<close>

definition orphanPool :: CGNATPoolState where
  "orphanPool = \<lparr>vPoolID = 5, vMode = 0, vAddressPooling = 0, vFiltering = 0, vBlockSize = 512, vPortRangeStart = 1024,
     vPortRangeEnd = 65535, vMaxBlocksPerSub = 4, vMaxSessionsPerSub = 2000, vPortReuseTimeout = 120, vALGBitmask = 0x1F,
     vTimeouts = (7200, 240, 300, 60), vActiveMappings = 0\<rparr>"

definition orphanWorld :: reconcileWorld where
  "orphanWorld = \<lparr>wPools = Some [orphanPool], wInside = Some [], wOutside = Some [], wAfter = Some [], wAnswer = (\<lambda>_. None),
     wVRF = None, oOrphans = [5], oWantIn = [], oWantOut = [], oActIn = [], oActOut = [], oVerify = [], oLocal = []\<rparr>"

theorem cgnat_reconcile_keeps_active_witness: "vActiveMappings orphanPool = 0"
proof -
  let ?l = "\<lparr>lPoolIDMap = Map.empty, lPools = NewPoolManager, lBlacklist = Map.empty\<rparr>"
  let ?op = "PoolAddDel 5 (0, 0, 0, 0, 0, 0, 0, 0, 0, 0, (0, 0, 0, 0)) False"
  have "?op \<in> set (fst (reconcileWith ipnet4String orphanWorld [] None ?l))"
    by (simp add: reconcileWith_def orphanWorld_def orphanPool_def byID_def planOrphans_def desiredIDs_def liftR_def bindR_def
      preflight_def planDisrupts_def GetAllowPoolDisruption_def GetDropOrphans_def GetOnDivergence_def applyPlan_def call_def
      reconcileChildren_def insideSet_def outsideSet_def Let_def)
  moreover have "byID [orphanPool] = [5 \<mapsto> orphanPool]" by (simp add: byID_def orphanPool_def)
  ultimately show ?thesis
    using cgnat_reconcile_keeps_active [of ?op ipnet4String orphanWorld "[]" None ?l "[orphanPool]" 5 orphanPool]
    by (simp add: orphanWorld_def GetAllowPoolDisruption_def buildDesiredInside_def buildDesiredOutside_def)
qed

subsection \<open>What goes wrong\<close>

text \<open>
  An activation that finds a block already held commits it without a call to the dataplane. So a session whose
  mapping the restore kept for a retry, and a second session with the same inside address in another VRF, end up
  committed but not programmed.
\<close>

lemma held_block_not_programmed:
  assumes "cPools c p = Some ps" "held ps (cg_key 0 ip) \<noteq> []" "opdbSynced c sid = None"
  shows "dpTrace (handlePBAActivate p ip sw sid srg c) = dpTrace c \<and>
    inflight (handlePBAActivate p ip sw sid srg c) = inflight c \<and>
    sessionPoolMap (handlePBAActivate p ip sw sid srg c) = (sessionPoolMap c)(sid \<mapsto> p)"
proof -
  obtain b bs where "held ps (cg_key 0 ip) = b # bs" using assms(2) by (cases "held ps (cg_key 0 ip)") simp_all
  from GetOrAllocate_held [of "cPools c" p ps 0 ip b bs sw, OF assms(1) this] assms(3) show ?thesis
    by (auto simp: handlePBAActivate_def tryRestoreSyncedMapping_def doneAct_def Let_def)
qed

text \<open>
  A release that arrives while the activation of its session waits for the dataplane leaves the pools, the session
  map and the pending callbacks as they are: the callback then commits a mapping for a session that is gone.
\<close>

lemma release_in_flight_ignored:
  assumes "guard_inv c" "leSessionID data \<in> activations c" "rServiceGroups (the cfg) = Map.empty"
  shows "cPools (handleSessionRelease cfg data c) = cPools c \<and> inflight (handleSessionRelease cfg data c) = inflight c \<and>
    sessionPoolMap (handleSessionRelease cfg data c) = sessionPoolMap c"
  using assms by (auto simp: handleSessionRelease_def guard_inv_def Let_def split: option.splits)

text \<open>
  A mapping whose reprogramming fails stays in the database, but its block is not reserved: the pools are as before,
  and the next subscriber can be given the same block.
\<close>

lemma failed_restore_not_reserved:
  "bulkAnswer env pid (b pid) = Some (replicate (length (b pid)) False) \<or> bulkAnswer env pid (b pid) = None \<Longrightarrow>
     cPools (programBatches env b [pid] c) = cPools c \<and> opdbMappings (programBatches env b [pid] c) = opdbMappings c"
proof -
  have f: "cPools (foldl (\<lambda>c (sid, _). markRestoreDegraded sid c) c xs) = cPools c \<and>
      opdbMappings (foldl (\<lambda>c (sid, _). markRestoreDegraded sid c) c xs) = opdbMappings c" for xs :: "(string \<times> CGNATMapping) list"
    by (induction xs arbitrary: c) (auto simp: markRestoreDegraded_def)
  have g: "cPools (commitBatch (zip xs (replicate (length xs) False)) c) = cPools c \<and>
      opdbMappings (commitBatch (zip xs (replicate (length xs) False)) c) = opdbMappings c" for xs c
    by (induction xs arbitrary: c) (auto simp: markRestoreDegraded_def)
  assume "bulkAnswer env pid (b pid) = Some (replicate (length (b pid)) False) \<or> bulkAnswer env pid (b pid) = None"
  then show ?thesis using f [of "b pid"] g [of "b pid" c] by auto
qed

text \<open>
  A mapping that is added twice, under two pointers, stays in the list of its address after it is removed: a later
  lookup of its ports still returns it.
\<close>

lemma reverse_index_stale:
  assumes "rkey m1 = rkey m2" "fst m1 \<noteq> fst m2" "mPortBlockStart (snd m1) \<le> p" "p \<le> mPortBlockEnd (snd m1)"
  shows "ri_Lookup (mOutsideIP (snd m1)) p
    (ri_Remove (mOutsideIP (snd m1)) (mPortBlockStart (snd m1)) (ri_Add m2 (ri_Add m1 NewReverseIndex))) = Some m1"
  using assms
  by (simp add: ri_Lookup_def ri_Remove_def ri_Add_def rkey_def makeReverseKey_def NewReverseIndex_def ipList_def Let_def)

lemmas range_simps = parsePortRange_def Sscanf_range_def scanUint16_def isDigit_def isSpace_def decNum_def digitVal_def
  GetPortRangeStart_def GetPortRangeEnd_def

lemma range_1024_2047: "parsePortRange ''1024-2047'' = (1024, 2047)" "parsePortRange ''2000-1000'' = (2000, 1000)"
  by (simp_all add: range_simps)

text \<open>
  A subscriber ratio above the number of ports gives the block size zero, and \<^verbatim>\<open>ConfigurePool\<close> divides by it.
\<close>

lemma zero_block_size:
  "let cfg = demoPool\<lparr>BlockSize := 0, SubscriberRatio := 2000, PortRange := ''1024-2047''\<rparr> in
     GetBlockSize cfg = 0 \<and> fst (ConfigurePool ''p'' 7 cfg NewPoolManager) = Inl DivideByZero"
proof -
  have "GetBlockSize (demoPool\<lparr>BlockSize := 0, SubscriberRatio := 2000, PortRange := ''1024-2047''\<rparr>) = 0"
    by (simp add: GetBlockSize_def GetPortRangeSize_def GetPortRangeStart_def GetPortRangeEnd_def range_1024_2047)
  then show ?thesis by (simp add: ConfigurePool_def Let_def)
qed

text \<open>An inverted port range wraps to more than eight million blocks per address.\<close>

lemma inverted_range_wraps:
  "blocksPerAddr (demoPool\<lparr>PortRange := ''2000-1000'', BlockSize := 512\<rparr>) = 8388606"
  by (simp add: blocksPerAddr_def GetBlockSize_def GetPortRangeStart_def GetPortRangeEnd_def range_1024_2047)

text \<open>An outside address that is IPv6 is taken as nil, and its blocks are blocks of 0.0.0.0; a prefix of length zero has no address.\<close>

lemma odd_outside_addresses:
  "expandCIDR ''::'' = Some [[]]" "copy4 [] = [0, 0, 0, 0]" "expandCIDR ''0.0.0.0/0'' = Some []"
  by code_simp+

text \<open>Two outside addresses that overlap give two subscribers the same port block.\<close>

definition twicePool :: cgPool where
  "twicePool = demoPool\<lparr>OutsideAddresses := [''192.0.2.1'', ''192.0.2.1''], BlockSize := 64512\<rparr>"

lemma overlapping_addresses_share:
  "let pm = snd (ConfigurePool ''p'' 7 twicePool NewPoolManager);
       (r1, pm1) = AllocateBlock ''p'' [10, 0, 0, 1] 0 3 pm; (r2, _) = AllocateBlock ''p'' [10, 0, 0, 2] 0 4 pm1
   in map_sum (\<lambda>_. ()) mOutsideIP r1 = Inr [192, 0, 2, 1] \<and> map_sum (\<lambda>_. ()) mPortBlockStart r1 = Inr 1024 \<and>
      map_sum (\<lambda>_. ()) mOutsideIP r2 = Inr [192, 0, 2, 1] \<and> map_sum (\<lambda>_. ()) mPortBlockStart r2 = Inr 1024"
  by code_simp

text \<open>\<^verbatim>\<open>RestoreMapping\<close> does not look at the bit: it gives a block that another subscriber holds to a second one.\<close>

lemma restore_onto_held_block:
  "let pm = snd (RestoreMapping (mkMapping ''p'' 7 [10, 0, 0, 2] 0 demoBlock 4) [''p'' \<mapsto> demoHeld]) in
   map_option (\<lambda>ps. (blocksOf ps (0, [10, 0, 0, 1]), blocksOf ps (0, [10, 0, 0, 2]))) (pm ''p'') = Some ([demoBlock], [demoBlock])"
  by code_simp

end
