(* ===== verification/CGNAT_Outside.thy ===== *)
theory CGNAT_Outside
  imports CGNAT_Reconcile
begin

section \<open>The outside interfaces of a pool\<close>

text \<open>
  \<^verbatim>\<open>setupOutsideInterfaces\<close> of \<^verbatim>\<open>internal/cgnat/component.go\<close> and the three checks it makes. The interface
  manager is an argument: the index of an interface name, the interface of an index, and the list of all interfaces
  in some order.
\<close>

record ifaceInfo =
  ifName :: string
  ifFIBTableID :: u32
  ifIPv4Addresses :: "bytes list"

record ifaceMgr =
  GetSwIfIndex :: "string \<rightharpoonup> u32"
  ifGet :: "u32 \<rightharpoonup> ifaceInfo"
  ifList :: "ifaceInfo list"

datatype outside_error =
    InterfaceNotFound string
  | SpansVRFs string string
  | SubscriberOverlap string string
  | LocalOverlap bytes string
  | NotRegistered string
  | SetVRFFailed string
  | RefcountFailed string

text \<open>The loop over the interfaces; the accumulator is the table and the name of the first one.\<close>

fun resolveLoop :: "ifaceMgr \<Rightarrow> (u32 \<times> string) option \<Rightarrow> string list \<Rightarrow> outside_error + u32" where
  "resolveLoop im acc [] = Inr (case acc of None \<Rightarrow> 0 | Some (t, _) \<Rightarrow> t)"
| "resolveLoop im acc (name # names) =
     (case GetSwIfIndex im name of None \<Rightarrow> Inl (InterfaceNotFound name)
      | Some sw \<Rightarrow>
         (let tableID = (case ifGet im sw of None \<Rightarrow> 0 | Some i \<Rightarrow> ifFIBTableID i) in
          case acc of None \<Rightarrow> resolveLoop im (Some (tableID, name)) names
          | Some (t, anchor) \<Rightarrow> if tableID \<noteq> t then Inl (SpansVRFs anchor name) else resolveLoop im acc names))"

definition resolveOutsideVRF :: "ifaceMgr \<Rightarrow> string list \<Rightarrow> outside_error + u32" where
  "resolveOutsideVRF im names = resolveLoop im None names"

text \<open>The subscriber groups with the parent interfaces of their VLAN ranges.\<close>

type_synonym subscriberGroups = "(string \<times> string list option) list"

definition rejectOutsideSubscriberOverlap :: "subscriberGroups option \<Rightarrow> string list \<Rightarrow> outside_error option" where
  "rejectOutsideSubscriberOverlap groups names = (case groups of None \<Rightarrow> None
     | Some gs \<Rightarrow> (case [(g, par). (g, Some pars) \<leftarrow> gs, par \<leftarrow> pars, par \<noteq> '''', par \<in> set names] of
         [] \<Rightarrow> None | (g, par) # _ \<Rightarrow> Some (SubscriberOverlap par g)))"

definition rejectLocalAddressOverlap :: "ifaceMgr \<Rightarrow> cgPool \<Rightarrow> outside_error option" where
  "rejectLocalAddressOverlap im pool =
     (let prefixes = List.map_filter parseOutsideAddr (OutsideAddresses pool) in
      case [(To4 a, ifName i). i \<leftarrow> ifList im, a \<leftarrow> ifIPv4Addresses i, To4 a \<noteq> [], list_ex (\<lambda>n. IPNet_Contains n (To4 a)) prefixes] of
        [] \<Rightarrow> None | (a, n) # _ \<Rightarrow> Some (LocalOverlap a n))"

datatype outsideOp = SetOutsideVRF u32 u32 | OutsideInterface u32 u32

text \<open>The dataplane's answers are an argument; the calls made are the trace.\<close>

fun enableInterfaces :: "ifaceMgr \<Rightarrow> (outsideOp \<Rightarrow> bool) \<Rightarrow> u32 \<Rightarrow> string list \<Rightarrow> outsideOp list \<times> outside_error option" where
  "enableInterfaces im dp pid [] = ([], None)"
| "enableInterfaces im dp pid (name # names) =
     (case GetSwIfIndex im name of None \<Rightarrow> ([], Some (InterfaceNotFound name))
      | Some sw \<Rightarrow>
         if \<not> dp (OutsideInterface pid sw) then ([OutsideInterface pid sw], Some (RefcountFailed name))
         else (case enableInterfaces im dp pid names of (t, e) \<Rightarrow> (OutsideInterface pid sw # t, e)))"

definition setupPool ::
  "ifaceMgr \<Rightarrow> subscriberGroups option \<Rightarrow> (string \<rightharpoonup> u32) \<Rightarrow> (outsideOp \<Rightarrow> bool) \<Rightarrow> string \<Rightarrow> cgPool \<Rightarrow>
     outsideOp list \<times> outside_error option" where
  "setupPool im groups ids dp poolName pool =
     (case resolveOutsideVRF im (OutsideInterfaces pool) of Inl e \<Rightarrow> ([], Some e)
      | Inr vrf \<Rightarrow>
        (case rejectOutsideSubscriberOverlap groups (OutsideInterfaces pool) of Some e \<Rightarrow> ([], Some e)
         | None \<Rightarrow>
          (case rejectLocalAddressOverlap im pool of Some e \<Rightarrow> ([], Some e)
           | None \<Rightarrow>
            (case ids poolName of None \<Rightarrow> ([], Some (NotRegistered poolName))
             | Some pid \<Rightarrow>
                if \<not> dp (SetOutsideVRF pid vrf) then ([SetOutsideVRF pid vrf], Some (SetVRFFailed poolName))
                else (case enableInterfaces im dp pid (OutsideInterfaces pool) of (t, e) \<Rightarrow> (SetOutsideVRF pid vrf # t, e))))))"

fun setupOutsideInterfaces ::
  "ifaceMgr \<Rightarrow> subscriberGroups option \<Rightarrow> (string \<rightharpoonup> u32) \<Rightarrow> (outsideOp \<Rightarrow> bool) \<Rightarrow> (string \<times> cgPool option) list \<Rightarrow>
     outsideOp list \<times> outside_error option" where
  "setupOutsideInterfaces im groups ids dp [] = ([], None)"
| "setupOutsideInterfaces im groups ids dp ((name, None) # ps) = setupOutsideInterfaces im groups ids dp ps"
| "setupOutsideInterfaces im groups ids dp ((name, Some pool) # ps) =
     (case setupPool im groups ids dp name pool of
        (t, Some e) \<Rightarrow> (t, Some e)
      | (t, None) \<Rightarrow> (case setupOutsideInterfaces im groups ids dp ps of (t', e) \<Rightarrow> (t @ t', e)))"

subsection \<open>What the checks establish\<close>

definition tableOf :: "ifaceMgr \<Rightarrow> string \<Rightarrow> u32 option" where
  "tableOf im name = map_option (\<lambda>sw. case ifGet im sw of None \<Rightarrow> 0 | Some i \<Rightarrow> ifFIBTableID i) (GetSwIfIndex im name)"

lemma resolveLoop_Some:
  "resolveLoop im (Some (t, a)) names = Inr v \<longleftrightarrow> v = t \<and> (\<forall>n\<in>set names. tableOf im n = Some t)"
  by (induction names) (auto simp: tableOf_def Let_def split: option.splits)

text \<open>The interfaces resolve to a table exactly when all exist and are in that table.\<close>

theorem resolveOutsideVRF_iff:
  "names \<noteq> [] \<Longrightarrow> resolveOutsideVRF im names = Inr t \<longleftrightarrow> (\<forall>n\<in>set names. tableOf im n = Some t)"
  by (cases names) (auto simp: resolveOutsideVRF_def resolveLoop_Some tableOf_def Let_def split: option.splits)

text \<open>A pool is set up only when none of the addresses of this router is one of its outside addresses.\<close>

theorem rejectLocalAddressOverlap_None:
  "rejectLocalAddressOverlap im pool = None \<longleftrightarrow>
     (\<forall>i\<in>set (ifList im). \<forall>a\<in>set (ifIPv4Addresses i). To4 a \<noteq> [] \<longrightarrow>
        (\<forall>s\<in>set (OutsideAddresses pool). \<forall>n. parseOutsideAddr s = Some n \<longrightarrow> \<not> IPNet_Contains n (To4 a)))"
proof -
  have empty: "(case xs of [] \<Rightarrow> None | (a, n) # _ \<Rightarrow> Some (LocalOverlap a n)) = None \<longleftrightarrow> xs = []"
    for xs :: "(bytes \<times> string) list"
    by (cases xs) auto
  have filtered: "set (List.map_filter parseOutsideAddr xs) = {n. \<exists>s\<in>set xs. parseOutsideAddr s = Some n}" for xs
    by (force simp: List.map_filter_def)
  show ?thesis unfolding rejectLocalAddressOverlap_def Let_def empty
    by (simp add: concat_eq_Nil_conv list_ex_iff filtered del: not_None_eq) blast
qed

end
