(* ===== verification/Spec2Isabelle.thy ===== *)
theory Spec2Isabelle
  imports PPP_Theorems Alloc_Registry_Theorems L2TP_Theorems L2TP_Component_Theorems CGNAT_Theorems CGNAT_Outside
begin

text \<open>
  A verification development of osvbng, a broadband network gateway written in Go. The gateway terminates
  subscriber sessions (PPPoE, IPoE, and PPP carried over L2TP), authenticates them, hands out addresses from
  pools and programs a VPP dataplane. The development covers the parts that decide something about a subscriber:
  the PPP protocols, the address allocators, the L2TP control plane and carrier-grade NAT.

  \<^bold>\<open>How the parts interact.\<close> A PPP frame reaches \<^verbatim>\<open>internal/ppp/dispatcher.go\<close>, which hands it to one of the
  three protocol automata of \<^verbatim>\<open>pkg/ppp/fsm.go\<close> (LCP, IPCP, IPv6CP, each an option handler) or to PAP and
  CHAP. The addresses IPCP and IPv6CP offer come from the registry of \<^verbatim>\<open>pkg/allocator\<close>, a table of address and
  prefix pools per profile and VRF. L2TP tunnels run over the reliable channel of \<^verbatim>\<open>pkg/l2tp\<close>, carry control
  messages made of AVPs, and are authenticated with an MD5 challenge; \<^verbatim>\<open>internal/l2tp\<close> dispatches the packets to the
  tunnels and runs the PPP stack of each call it terminates, with the service groups of \<^verbatim>\<open>pkg/svcgroup\<close> deciding what
  the subscriber gets. When a session becomes active
  \<^verbatim>\<open>internal/cgnat\<close> gives its private address a block of ports of a public one and programs the dataplane.

  \<^bold>\<open>Prelude and standard library.\<close> \<open>BNG_Prelude\<close>: bytes, big-endian codecs, the error monad on sums, shared list
  and word facts. \<open>Go_Net\<close> and \<open>Go_Parse\<close>: \<^verbatim>\<open>net\<close> and \<^verbatim>\<open>net/netip\<close> addresses, prefixes and their parsers.
  \<open>Go_Text\<close>: numbers and addresses as text, and that they read back. \<open>MD5\<close>: \<^verbatim>\<open>crypto/md5\<close>, executable.

  \<^bold>\<open>PPP\<close> (\<^verbatim>\<open>pkg/ppp\<close>, \<^verbatim>\<open>internal/ppp\<close>). \<open>PPP_Options\<close>: the option codec. \<open>PPP_FSM\<close>: the automaton, one
  definition per Go method, with callbacks as a trace and the restart timer as a field; \<open>PPP_FSM_Invariants\<close>: the
  timer and layer invariants over all reachable states and the progress against a silent peer; \<open>PPP_RFC1661\<close>: the
  transition table of the RFC as the abstract specification, with the refinement and the cells where the code
  differs. \<open>PPP_Handler_Spec\<close>: the interface of an option handler as the locale \<open>option_handler\<close>, with the client
  lemmas on what the automaton acknowledges and requests; \<open>PPP_LCP\<close>, \<open>PPP_IPCP\<close>, \<open>PPP_IPv6CP\<close>: the three handlers,
  each an interpretation. \<open>PPP_Auth\<close>: PAP and CHAP. \<open>PPP_TimeWheel\<close>: the echo wheel as a \<open>keyed_store\<close>.
  \<open>PPP_Dispatcher\<close>: frame routing, with the panic of an out-of-range slice as a value. \<open>PPP_Theorems\<close>: the
  properties.

  \<^bold>\<open>Allocation\<close> (\<^verbatim>\<open>pkg/allocator\<close>). \<open>Alloc_Pool\<close>: the contract of an allocator as the locale \<open>lease_allocator\<close>, free
  list allocators as the locale \<open>free_list_allocator\<close> with a sublocale into it, and \<^verbatim>\<open>pool.go\<close> as an interpretation;
  \<open>Alloc_Prefix\<close>: \<^verbatim>\<open>prefix.go\<close> with its 64-bit halves and carries, another interpretation. \<open>Alloc_Registry\<close>: the
  registry, whose three tables share the locale \<open>pool_table\<close>, and the allocation context. \<open>Alloc_Theorems\<close> and
  \<open>Alloc_Registry_Theorems\<close>: the properties.

  \<^bold>\<open>L2TP\<close> (\<^verbatim>\<open>pkg/l2tp\<close>, \<^verbatim>\<open>internal/l2tp\<close>). \<open>L2TP_Header\<close>, \<open>L2TP_AVP\<close>, \<open>L2TP_Messages\<close>: the wire formats and
  tunnel authentication. \<open>L2TP_Channel\<close>: the reliable control channel; \<open>L2TP_Window\<close>: its invariant over any run;
  \<open>L2TP_Link\<close>: two channels over a network that loses, repeats and reorders. \<open>L2TP_State\<close>: tunnel and session
  state machines and the identifier allocator. \<open>L2TP_Theorems\<close>: the properties.

  \<^bold>\<open>L2TP sessions and tunnels\<close> (\<^verbatim>\<open>internal/l2tp\<close>, \<^verbatim>\<open>pkg/svcgroup\<close>). \<open>Svc_Group\<close>: the merge of default, named and AAA
  settings, and the bindings of a session with their removal. \<open>LNS_Session\<close>: one PPP session from LCP over CHAP or PAP and
  AAA to an open session, a record of the three automata whose callbacks run in the order of their traces; what a
  session does before AAA accepts it is bounded by \<open>unauthenticated\<close>. \<open>L2TP_Component\<close>: the tunnels as a heap of
  objects with the tables of the component, every handler of the LNS and LAC side, the runners, the denylist and the
  candidates of AAA, composed into \<open>l2Step\<close> and \<open>l2Run\<close>. \<open>L2TP_Component_Steps\<close>: every event refines a sequence of eight
  kinds of elementary changes, the inductive relation \<open>tstep\<close>, on which the well-formedness of the tables is an
  invariant. \<open>L2TP_Component_Theorems\<close>: tunnel authentication, service only after AAA, and the well-formed tables.

  \<^bold>\<open>Carrier-grade NAT\<close> (\<^verbatim>\<open>internal/cgnat\<close>, \<^verbatim>\<open>pkg/config/cgnat\<close>). \<open>CGNAT_Bitmap\<close>: the block bitmap of an outside
  address and the parallel bit count. \<open>CGNAT_Config\<close>: the pool settings with their defaults and the validation.
  \<open>CGNAT_Pool\<close>: the pool manager; \<open>CGNAT_Alloc\<close>: its invariant (the bitmap marks exactly the blocks subscribers hold)
  over all reachable states. \<open>CGNAT_Index\<close>: the reverse index, the exclusions and the bypass rules.
  \<open>CGNAT_Component\<close>: session activation and release with the dataplane's answers as separate steps, the event queue,
  the restore from the database and the dataplane recovery; an invariant kept by the handlers holds along every run
  by the locale \<open>cg_kept\<close>. \<open>CGNAT_Reconcile\<close>: the reconciliation with the dataplane. \<open>CGNAT_Outside\<close>: the checks of
  the outside interfaces. \<open>CGNAT_Theorems\<close>: the properties, and the lemmas behind the findings.

  \<^bold>\<open>Bounds and fuel.\<close> No definition takes fuel. Loops that may run for ever are partial functions into options: the
  scan of an address range (\<open>addrLoop\<close>) and the random retry of IPv6CP (\<open>generatePeerInterfaceID\<close>); the properties
  prove when they end. Sequence numbers, ports, identifiers and lengths keep their width; the delivery property
  of the control channel is stated up to 65,535 messages, where its 16-bit numbers repeat. The search for a session identifier (\<open>freeID\<close>) ends when the 16-bit counter wraps.

  \<^bold>\<open>Not modelled.\<close> The IPoE, PPPoE and layer 2 gateway components, high availability, the DHCP codecs and the AAA
  component are left out. So is what only moves data to or from other programs: the calls of the generated VPP
  API, the shared-memory rings, sockets, the databases, RADIUS and HTTP clients, FRR and netlink, the northbound API,
  the command line, telemetry, the watchdog and upgrades. Where a modelled part uses them, their answers are
  arguments or events of the model. Locks are left out: one handler is one step, and interleaving is the order of the
  steps. The timers of an L2TP session that was removed from its tunnel are left out; they only send frames.
\<close>

end
